(* ===== verification/Prelude.thy ===== *)
theory Prelude
  imports Main "HOL-Library.AList" "HOL-Library.Sublist"
begin

text \<open>
  Shared ground of the development: Go values and the few functions of Go's standard
  library that several components use.

  \<^item> A Go \<open>string\<close> and a \<open>[]byte\<close> are lists of bytes, that is \<^typ>\<open>string\<close>.
  \<^item> A Go \<open>error\<close> is a value of \<open>gerror\<close>: the sentinel variables the code compares
    against have a constructor each, everything made by \<open>fmt.Errorf\<close> or \<open>errors.New\<close>
    is \<open>Errorf\<close> with its message, so it never equals a sentinel.
  \<^item> A function that may fail returns \<open>gerror + 'a\<close>; one that may panic returns
    \<open>'a go\<close>.
  \<^item> \<open>strings.HasPrefix\<close> and its relatives, decimal formatting, the hexadecimal and
    base 64 codecs, and the \<open>io\<close> streams.
\<close>

section \<open>Errors, results and panics\<close>

named_theorems go_defs \<open>definitions of the Go library functions\<close>
named_theorems canon_simps \<open>header names that are already canonical\<close>

type_synonym bytes = "char list"

datatype gerror =
    Errorf string
  | EOF
  | ErrShortWrite
  | ErrNotMultipart
  | ErrEntityTooLarge
  | ErrNotEnoughParts
  | ErrTooManyRequests
  | ErrQueueingTimedout
  | DeadlineExceeded
  | Canceled
  | ErrNotExist
  | ErrNotAZip
  | ErrArchiveNotFound
  | ErrAuthChanged
  | ExitError int

type_synonym 'a result = "gerror + 'a"

datatype 'a go = Return 'a | Panic string

primrec bind_go :: "'a go \<Rightarrow> ('a \<Rightarrow> 'b go) \<Rightarrow> 'b go" where
  "bind_go (Return x) f = f x"
| "bind_go (Panic m) f = Panic m"

section \<open>Strings\<close>

definition HasPrefix :: "string \<Rightarrow> string \<Rightarrow> bool" where
  [go_defs]: "HasPrefix s p \<longleftrightarrow> take (length p) s = p"

definition HasSuffix :: "string \<Rightarrow> string \<Rightarrow> bool" where
  [go_defs]: "HasSuffix s p \<longleftrightarrow> HasPrefix (rev s) (rev p)"

definition TrimPrefix :: "string \<Rightarrow> string \<Rightarrow> string" where
  [go_defs]: "TrimPrefix s p = (if HasPrefix s p then drop (length p) s else s)"

definition TrimSuffix :: "string \<Rightarrow> string \<Rightarrow> string" where
  [go_defs]: "TrimSuffix s p = (if HasSuffix s p then take (length s - length p) s else s)"

fun Contains :: "string \<Rightarrow> string \<Rightarrow> bool" where
  "Contains [] p = (p = [])"
| "Contains (c # s) p = (HasPrefix (c # s) p \<or> Contains s p)"

text \<open>\<open>strings.SplitN(s, sep, 2)\<close> for a one byte separator.\<close>

definition SplitN2 :: "string \<Rightarrow> char \<Rightarrow> string list" where
  "SplitN2 s c =
     (let a = takeWhile (\<lambda>x. x \<noteq> c) s
      in if c \<in> set s then [a, drop (Suc (length a)) s] else [s])"

text \<open>\<open>strings.Split\<close> for a one byte separator, and \<open>strings.Join\<close>.\<close>

fun Split :: "char \<Rightarrow> string \<Rightarrow> string list" where
  "Split c [] = [[]]"
| "Split c (x # xs) =
     (if x = c then [] # Split c xs
      else (case Split c xs of [] \<Rightarrow> [[x]] | y # ys \<Rightarrow> (x # y) # ys))"

fun Join :: "string list \<Rightarrow> string \<Rightarrow> string" where
  "Join [] sep = []"
| "Join [x] sep = x"
| "Join (x # y # zs) sep = x @ sep @ Join (y # zs) sep"

definition ascii_lower :: "char \<Rightarrow> char" where
  [go_defs]: "ascii_lower c =
     (if 65 \<le> (of_char c :: nat) \<and> of_char c \<le> (90 :: nat) then char_of (of_char c + 32 :: nat) else c)"

definition ascii_upper :: "char \<Rightarrow> char" where
  [go_defs]: "ascii_upper c =
     (if 97 \<le> (of_char c :: nat) \<and> of_char c \<le> (122 :: nat) then char_of (of_char c - 32 :: nat) else c)"

definition is_digit :: "char \<Rightarrow> bool" where
  [go_defs]: "is_digit c \<longleftrightarrow> 48 \<le> (of_char c :: nat) \<and> of_char c \<le> (57 :: nat)"

text \<open>\<open>strconv.FormatInt(n, 10)\<close>, the \<open>%d\<close> verb.\<close>

fun format_nat :: "nat \<Rightarrow> string" where
  "format_nat n =
     (if n < 10 then [char_of (48 + n)] else format_nat (n div 10) @ [char_of (48 + n mod 10)])"

declare format_nat.simps [simp del]

definition FormatInt :: "int \<Rightarrow> string" where
  "FormatInt i = (if i < 0 then CHR ''-'' # format_nat (nat (- i)) else format_nat (nat i))"

text \<open>Reading a decimal back, used to state that formatting loses nothing.\<close>

definition parse_nat :: "string \<Rightarrow> nat" where
  "parse_nat s = foldl (\<lambda>a c. 10 * a + (of_char c - 48)) 0 s"

text \<open>\<open>strconv.Quote\<close>, the \<open>%q\<close> verb, on ASCII text; a byte outside ASCII is written as an escape.\<close>

definition hex_lower :: "nat \<Rightarrow> char" where
  "hex_lower n = (if n < 10 then char_of (48 + n) else char_of (87 + n))"

definition quote_char :: "char \<Rightarrow> string" where
  "quote_char c =
     (let n = of_char c in
      if n = 34 \<or> n = 92 then [CHR 0x5C, c]
      else if n = 7 then [CHR 0x5C, CHR ''a''] else if n = 8 then [CHR 0x5C, CHR ''b'']
      else if n = 9 then [CHR 0x5C, CHR ''t''] else if n = 10 then [CHR 0x5C, CHR ''n'']
      else if n = 11 then [CHR 0x5C, CHR ''v''] else if n = 12 then [CHR 0x5C, CHR ''f'']
      else if n = 13 then [CHR 0x5C, CHR ''r'']
      else if n < 32 \<or> 127 \<le> n then [CHR 0x5C, CHR ''x'', hex_lower (n div 16), hex_lower (n mod 16)]
      else [c])"

definition Quote :: "string \<Rightarrow> string" where
  "Quote s = [CHR 0x22] @ concat (map quote_char s) @ [CHR 0x22]"

text \<open>Two's complement wrap-around of \<open>int64\<close>.\<close>

definition int64 :: "int \<Rightarrow> int" where
  "int64 x = (x + 2 ^ 63) mod 2 ^ 64 - 2 ^ 63"

text \<open>The text of an error: what \<open>%v\<close> prints.\<close>

fun Error :: "gerror \<Rightarrow> string" where
  "Error (Errorf m) = m"
| "Error EOF = ''EOF''"
| "Error ErrShortWrite = ''short write''"
| "Error ErrNotMultipart = ''request Content-Type isn't multipart/form-data''"
| "Error ErrEntityTooLarge = ''Entity is too large''"
| "Error ErrNotEnoughParts = ''Not enough Parts''"
| "Error ErrTooManyRequests = ''too many requests queued''"
| "Error ErrQueueingTimedout = ''queueing timedout''"
| "Error DeadlineExceeded = ''context deadline exceeded''"
| "Error Canceled = ''context canceled''"
| "Error ErrNotExist = ''file does not exist''"
| "Error ErrNotAZip = ''not a zip''"
| "Error ErrArchiveNotFound = ''archive not found''"
| "Error ErrAuthChanged = ''connection closed: authentication changed or endpoint unavailable''"
| "Error (ExitError n) = ''exit status '' @ FormatInt n"

definition wrap_err :: "string \<Rightarrow> gerror \<Rightarrow> gerror" where
  "wrap_err m e = Errorf (m @ Error e)"

section \<open>Streams\<close>

text \<open>
  An \<open>io.Reader\<close> is what it will deliver: the chunks its \<open>Read\<close> calls return, then
  end of file (\<open>None\<close>) or an error.
\<close>

type_synonym stream = "bytes list \<times> gerror option"

definition stream_bytes :: "stream \<Rightarrow> bytes" where
  "stream_bytes r = concat (fst r)"

text \<open>\<open>ioutil.ReadAll\<close>.\<close>

definition ReadAll :: "stream \<Rightarrow> bytes result" where
  "ReadAll r = (case snd r of None \<Rightarrow> Inr (concat (fst r)) | Some e \<Rightarrow> Inl e)"

definition reader_of :: "bytes \<Rightarrow> stream" where
  "reader_of b = ((if b = [] then [] else [b]), None)"

text \<open>\<open>io.LimitReader\<close>: at most \<open>n\<close> bytes, then end of file.\<close>

fun limit_chunks :: "nat \<Rightarrow> bytes list \<Rightarrow> bytes list" where
  "limit_chunks n [] = []"
| "limit_chunks n (c # cs) =
     (if n = 0 then [] else if length c \<le> n then c # limit_chunks (n - length c) cs else [take n c])"

definition LimitReader :: "stream \<Rightarrow> nat \<Rightarrow> stream" where
  "LimitReader r n =
     (limit_chunks n (fst r), (if length (concat (fst r)) < n then snd r else None))"

section \<open>Lemmas on panics\<close>

lemma bind_go_Return: "bind_go x f = Return y \<longleftrightarrow> (\<exists>z. x = Return z \<and> f z = Return y)"
  by (cases x) simp_all

section \<open>Lemmas on strings\<close>

lemma HasPrefix_iff: "HasPrefix s p \<longleftrightarrow> (\<exists>t. s = p @ t)"
  unfolding HasPrefix_def by (metis append_eq_conv_conj append_take_drop_id)

lemma HasPrefix_append [simp]: "HasPrefix (p @ t) p"
  by (auto simp: HasPrefix_iff)

lemma HasPrefix_refl [simp]: "HasPrefix s s"
  by (simp add: HasPrefix_def)

lemma HasPrefix_Nil [simp]: "HasPrefix s []"
  by (simp add: HasPrefix_def)

lemma HasPrefix_Cons [simp]: "HasPrefix (x # s) (y # p) \<longleftrightarrow> x = y \<and> HasPrefix s p"
  by (simp add: HasPrefix_def)

lemma HasPrefix_Nil_left [simp]: "HasPrefix [] p \<longleftrightarrow> p = []"
  by (auto simp: HasPrefix_def)

lemma HasPrefix_trans: "HasPrefix s p \<Longrightarrow> HasPrefix p q \<Longrightarrow> HasPrefix s q"
  by (auto simp: HasPrefix_iff)

lemma HasSuffix_iff: "HasSuffix s p \<longleftrightarrow> (\<exists>t. s = t @ p)"
  unfolding HasSuffix_def HasPrefix_iff by (metis rev_append rev_rev_ident)

lemma TrimPrefix_append [simp]: "TrimPrefix (p @ t) p = t"
  by (simp add: TrimPrefix_def)

lemma TrimPrefix_length: "length (TrimPrefix s p) \<le> length s"
  by (simp add: TrimPrefix_def)

lemma Contains_iff: "Contains s p \<longleftrightarrow> (\<exists>a b. s = a @ p @ b)"
proof (induction s)
  case Nil
  then show ?case by auto
next
  case (Cons c s)
  have "(\<exists>a b. c # s = a @ p @ b) \<longleftrightarrow> (\<exists>b. c # s = p @ b) \<or> (\<exists>a b. s = a @ p @ b)"
    by (metis append_Cons append_Nil append_eq_Cons_conv)
  then show ?case by (simp add: Cons.IH HasPrefix_iff)
qed

lemma Contains_single [simp]: "Contains s [c] \<longleftrightarrow> c \<in> set s"
  by (induction s) (auto simp: HasPrefix_def)

lemma Split_not_Nil [simp]: "Split c s \<noteq> []"
  by (induction s) (auto split: list.splits)

lemma Split_no_sep: "x \<in> set (Split c s) \<Longrightarrow> c \<notin> set x"
proof (induction s arbitrary: x)
  case Nil
  then show ?case by simp
next
  case (Cons a s)
  obtain y ys where "Split c s = y # ys"
    by (cases "Split c s") auto
  with Cons show ?case by (auto split: if_splits)
qed

lemma Join_Split: "Join (Split c s) [c] = s"
proof (induction s)
  case Nil
  then show ?case by simp
next
  case (Cons a s)
  obtain y ys where ys: "Split c s = y # ys"
    by (cases "Split c s") auto
  with Cons.IH show ?case by (cases ys) auto
qed

lemma Split_append_sep: "c \<notin> set a \<Longrightarrow> Split c (a @ c # b) = a # Split c b"
  by (induction a) auto

lemma Split_no_sep_id: "c \<notin> set a \<Longrightarrow> Split c a = [a]"
  by (induction a) auto

lemma Split_Join:
  "xs \<noteq> [] \<Longrightarrow> \<forall>x \<in> set xs. c \<notin> set x \<Longrightarrow> Split c (Join xs [c]) = xs"
  by (induction xs "[c]" rule: Join.induct) (auto simp: Split_append_sep Split_no_sep_id)

lemma Join_append:
  "xs \<noteq> [] \<Longrightarrow> ys \<noteq> [] \<Longrightarrow> Join (xs @ ys) sep = Join xs sep @ sep @ Join ys sep"
proof (induction xs sep rule: Join.induct)
  case (2 x sep)
  then show ?case by (cases ys) auto
qed auto

lemma takeWhile_neq_append: "c \<notin> set a \<Longrightarrow> takeWhile (\<lambda>x. x \<noteq> c) (a @ c # b) = a"
  by (induction a) auto

lemma SplitN2_key_value: "c \<notin> set a \<Longrightarrow> SplitN2 (a @ c # b) c = [a, b]"
  by (simp add: SplitN2_def Let_def takeWhile_neq_append)

lemma SplitN2_join:
  assumes "SplitN2 s c = [a, b]"
  shows "s = a @ c # b \<and> c \<notin> set a"
proof -
  from assms have "c \<in> set s"
    by (auto simp: SplitN2_def Let_def split: if_splits)
  then obtain x y where s: "s = x @ c # y" and x: "c \<notin> set x"
    by (meson split_list_first)
  with assms show ?thesis by (simp add: SplitN2_key_value)
qed

lemma SplitN2_length: "length (SplitN2 s c) = 2 \<longleftrightarrow> c \<in> set s"
  by (simp add: SplitN2_def Let_def)

section \<open>Decimal numbers\<close>

lemma of_char_digit [simp]: "d < 10 \<Longrightarrow> (of_char (char_of (48 + d :: nat)) :: nat) = 48 + d"
  by simp

lemma format_nat_not_Nil [simp]: "format_nat n \<noteq> []"
  by (subst format_nat.simps) simp

lemma parse_nat_snoc: "parse_nat (s @ [c]) = 10 * parse_nat s + (of_char c - 48)"
  by (simp add: parse_nat_def)

lemma parse_format_nat [simp]: "parse_nat (format_nat n) = n"
proof (induction n rule: format_nat.induct)
  case (1 n)
  show ?case
  proof (cases "n < 10")
    case True
    then show ?thesis by (subst format_nat.simps) (simp add: parse_nat_def)
  next
    case False
    with 1 have "parse_nat (format_nat (n div 10)) = n div 10" by simp
    with False show ?thesis by (subst format_nat.simps) (simp add: parse_nat_snoc)
  qed
qed

lemma format_nat_inj: "format_nat m = format_nat n \<Longrightarrow> m = n"
  by (metis parse_format_nat)

lemma format_nat_digits: "c \<in> set (format_nat n) \<Longrightarrow> is_digit c"
proof (induction n rule: format_nat.induct)
  case (1 n)
  show ?case
  proof (cases "n < 10")
    case True
    with "1.prems" show ?thesis by (subst (asm) format_nat.simps) (simp add: is_digit_def)
  next
    case False
    with 1 show ?thesis by (subst (asm) (2) format_nat.simps) (auto simp: is_digit_def)
  qed
qed

lemma int64_id: "- (2 ^ 63) \<le> x \<Longrightarrow> x < 2 ^ 63 \<Longrightarrow> int64 x = x"
  by (simp add: int64_def)

section \<open>Lemmas on streams\<close>

lemma concat_limit_chunks: "concat (limit_chunks n cs) = take n (concat cs)"
  by (induction n cs rule: limit_chunks.induct) auto

lemma stream_bytes_LimitReader: "stream_bytes (LimitReader r n) = take n (stream_bytes r)"
  by (simp add: stream_bytes_def LimitReader_def concat_limit_chunks)

lemma stream_bytes_reader_of [simp]: "stream_bytes (reader_of b) = b"
  by (simp add: stream_bytes_def reader_of_def)

lemma ReadAll_reader_of [simp]: "ReadAll (reader_of b) = Inr b"
  by (simp add: ReadAll_def reader_of_def)

section \<open>Cutting data into pieces\<close>

text \<open>All of the given size but the last, which is shorter or equal.\<close>

function chunks :: "nat \<Rightarrow> bytes \<Rightarrow> bytes list" where
  "chunks n data = (if n = 0 \<or> data = [] then [] else take n data # chunks n (drop n data))"
  by pat_completeness auto
termination by (relation "measure (\<lambda>(n, data). length data)") auto

declare chunks.simps [simp del]

lemma chunks_simps [simp]: "chunks n [] = []" "chunks 0 data = []"
  by (simp_all add: chunks.simps)

lemma chunks_step: "0 < n \<Longrightarrow> data \<noteq> [] \<Longrightarrow> chunks n data = take n data # chunks n (drop n data)"
  by (simp add: chunks.simps [of n data])

lemma concat_chunks: "0 < n \<Longrightarrow> concat (chunks n data) = data"
proof (induction n data rule: chunks.induct)
  case (1 n data)
  then show ?case by (cases "data = []") (simp_all add: chunks_step [of n data])
qed

lemma chunks_full: "\<forall>c \<in> set (butlast (chunks n data)). length c = n"
proof (induction n data rule: chunks.induct)
  case (1 n data)
  show ?case
  proof (cases "n = 0 \<or> data = []")
    case False
    then have IH: "\<forall>c \<in> set (butlast (chunks n (drop n data))). length c = n" using 1 by blast
    show ?thesis
    proof (cases "length data \<le> n")
      case True
      then show ?thesis using False by (simp add: chunks_step [of n data])
    next
      case long: False
      then show ?thesis using False IH by (auto simp: chunks_step [of n data])
    qed
  qed auto
qed

lemma take_chunks: "0 < n \<Longrightarrow> concat (take k (chunks n data)) = take (n * k) data"
proof (induction k arbitrary: data)
  case (Suc k)
  show ?case
  proof (cases "data = []")
    case False
    then show ?thesis using Suc by (simp add: chunks_step [of n data] take_add)
  qed simp
qed simp

lemma chunks_nonempty: "c \<in> set (chunks n data) \<Longrightarrow> c \<noteq> []"
proof (induction n data rule: chunks.induct)
  case (1 n data)
  then show ?case by (cases "n = 0 \<or> data = []") (auto simp: chunks_step [of n data])
qed

lemma concat_take_all: "concat (take k cs) = concat cs \<Longrightarrow> \<forall>c \<in> set cs. c \<noteq> [] \<Longrightarrow> take k cs = cs"
proof (induction cs arbitrary: k)
  case (Cons c cs)
  then show ?case by (cases k) auto
qed simp

end
