(* ===== verification/Http.thy ===== *)
theory Http
  imports Prelude
begin

text \<open>
  The part of \<open>net/http\<close> and \<open>mime\<close> the program stands on.

  \<^item> \<open>http.Header\<close> is an association list: its order is the order in which a Go
    \<open>range\<close> loop happens to visit the map, so a statement about all lists covers all
    iteration orders. \<open>Get\<close>, \<open>Set\<close>, \<open>Del\<close> use the canonical form of the name,
    indexing does not.
  \<^item> \<open>http.ResponseWriter\<close> is a record of operations on a state type \<open>'s\<close>. The
    middleware of the program wraps one writer in another, which here turns a
    \<open>'s writer\<close> into a writer on a larger state.
  \<^item> The locale \<open>response_writer\<close> states the contract every writer of the program keeps:
    the response on the wire is started once and only grows after that.
\<close>

section \<open>Headers\<close>

type_synonym header = "(string \<times> string list) list"

definition tspecial :: "char \<Rightarrow> bool" where
  "tspecial c \<longleftrightarrow> c \<in> set ''()<>@,;:/[]?='' \<or> c = CHR 0x5C \<or> c = CHR 0x22"

definition token_char :: "char \<Rightarrow> bool" where
  "token_char c \<longleftrightarrow>
     (let n = (of_char c :: nat) in 32 < n \<and> n < 127 \<and> \<not> tspecial c)"

definition header_field_byte :: "char \<Rightarrow> bool" where
  "header_field_byte c \<longleftrightarrow>
     (let n = (of_char c :: nat) in (48 \<le> n \<and> n \<le> 57) \<or> (65 \<le> n \<and> n \<le> 90) \<or> (97 \<le> n \<and> n \<le> 122)
        \<or> c \<in> set ''!#$%&*+-.^_|~'' \<or> n = 39 \<or> n = 96)"

fun canon_bytes :: "bool \<Rightarrow> string \<Rightarrow> string" where
  "canon_bytes upper [] = []"
| "canon_bytes upper (c # cs) =
     (if upper then ascii_upper c else ascii_lower c) # canon_bytes (c = CHR ''-'') cs"

definition CanonicalHeaderKey :: "string \<Rightarrow> string" where
  "CanonicalHeaderKey k = (if list_all header_field_byte k then canon_bytes True k else k)"

definition Header_values :: "header \<Rightarrow> string \<Rightarrow> string list" where
  "Header_values h k = (case map_of h k of None \<Rightarrow> [] | Some vs \<Rightarrow> vs)"

definition Header_Get :: "header \<Rightarrow> string \<Rightarrow> string" where
  "Header_Get h k = (case Header_values h (CanonicalHeaderKey k) of [] \<Rightarrow> [] | v # _ \<Rightarrow> v)"

definition Header_Set :: "header \<Rightarrow> string \<Rightarrow> string \<Rightarrow> header" where
  "Header_Set h k v = AList.update (CanonicalHeaderKey k) [v] h"

definition Header_Del :: "header \<Rightarrow> string \<Rightarrow> header" where
  "Header_Del h k = AList.delete (CanonicalHeaderKey k) h"

definition Header_Dels :: "header \<Rightarrow> string list \<Rightarrow> header" where
  "Header_Dels h ks = foldl Header_Del h ks"

section \<open>Requests\<close>

record url =
  url_Scheme :: string
  url_Host :: string
  url_Path :: string
  url_RawQuery :: string

record request =
  req_Method :: string
  req_URL :: url
  req_RequestURI :: string
  req_Header :: header
  req_Body :: stream
  req_ContentLength :: int
  req_Host :: string
  req_RemoteAddr :: string
  req_ProtoMajor :: int
  req_ProtoMinor :: int

definition ProtoAtLeast :: "request \<Rightarrow> int \<Rightarrow> int \<Rightarrow> bool" where
  "ProtoAtLeast r major minor \<longleftrightarrow>
     req_ProtoMajor r > major \<or> req_ProtoMajor r = major \<and> req_ProtoMinor r \<ge> minor"

section \<open>Media types\<close>

definition is_space :: "char \<Rightarrow> bool" where
  "is_space c \<longleftrightarrow> (let n = (of_char c :: nat) in n = 32 \<or> (9 \<le> n \<and> n \<le> 13))"

definition TrimLeft :: "string \<Rightarrow> string" where
  "TrimLeft s = dropWhile is_space s"

definition TrimSpace :: "string \<Rightarrow> string" where
  "TrimSpace s = rev (dropWhile is_space (rev (dropWhile is_space s)))"

definition consumeToken :: "string \<Rightarrow> string \<times> string" where
  "consumeToken v = (takeWhile token_char v, dropWhile token_char v)"

text \<open>
  The body of a quoted string: \<open>Some (value, rest)\<close> when its closing quote is found,
  \<open>None\<close> where \<open>consumeValue\<close> gives its input back.
\<close>

fun quoted_value :: "string \<Rightarrow> string \<Rightarrow> (string \<times> string) option" where
  "quoted_value acc [] = None"
| "quoted_value acc [c] =
     (if c = CHR 0x22 then Some (rev acc, []) else None)"
| "quoted_value acc (c # d # cs) =
     (if c = CHR 0x22 then Some (rev acc, d # cs)
      else if c = CHR 0x5C \<and> tspecial d then quoted_value (d # acc) cs
      else if c = CHR 0x0D \<or> c = CHR 0x0A then None
      else quoted_value (c # acc) (d # cs))"

definition consumeValue :: "string \<Rightarrow> string \<times> string" where
  "consumeValue v =
     (case v of [] \<Rightarrow> ([], [])
      | c # cs \<Rightarrow> if c \<noteq> CHR 0x22 then consumeToken v
                 else (case quoted_value [] cs of None \<Rightarrow> ([], v) | Some p \<Rightarrow> p))"

definition consumeMediaParam :: "string \<Rightarrow> (string \<times> string \<times> string) option" where
  "consumeMediaParam v =
     (case TrimLeft v of [] \<Rightarrow> None | c # rest0 \<Rightarrow>
      if c \<noteq> CHR '';'' then None else
      let (param, rest1) = consumeToken (TrimLeft rest0) in
      if param = [] then None else
      (case TrimLeft rest1 of [] \<Rightarrow> None | e # rest2 \<Rightarrow>
       if e \<noteq> CHR ''='' then None else
       let rest3 = TrimLeft rest2; (value, rest4) = consumeValue rest3 in
       if value = [] \<and> rest4 = rest3 then None
       else Some (map ascii_lower param, value, rest4)))"

fun media_params_ok :: "nat \<Rightarrow> string list \<Rightarrow> string \<Rightarrow> bool" where
  "media_params_ok 0 seen v = (TrimLeft v = [])"
| "media_params_ok (Suc n) seen v =
     (if TrimLeft v = [] then True else
      case consumeMediaParam (TrimLeft v) of
        None \<Rightarrow> TrimSpace v = '';''
      | Some (key, value, rest) \<Rightarrow> key \<notin> set seen \<and> media_params_ok n (key # seen) rest)"

definition checkMediaTypeDisposition :: "string \<Rightarrow> bool" where
  "checkMediaTypeDisposition s \<longleftrightarrow>
     (let (typ, rest) = consumeToken s in
      typ \<noteq> [] \<and>
      (case rest of [] \<Rightarrow> True
       | c # rest' \<Rightarrow> c = CHR ''/'' \<and>
           (let (subtype, rest'') = consumeToken rest' in subtype \<noteq> [] \<and> rest'' = [])))"

text \<open>
  \<open>mime.ParseMediaType\<close>, without the parameters nobody reads: \<open>None\<close> is an error. Every
  parameter consumes at least its semicolon, so the length of the input bounds their number.
\<close>

definition ParseMediaType :: "string \<Rightarrow> string option" where
  "ParseMediaType v =
     (let mediatype = TrimSpace (map ascii_lower (takeWhile (\<lambda>c. c \<noteq> CHR '';'') v));
          params = dropWhile (\<lambda>c. c \<noteq> CHR '';'') v
      in if checkMediaTypeDisposition mediatype \<and> media_params_ok (length v) [] params
         then Some mediatype else None)"

definition IsContentType :: "string \<Rightarrow> string \<Rightarrow> bool" where
  "IsContentType expected actual \<longleftrightarrow> ParseMediaType actual = Some expected"

section \<open>Response writers\<close>

text \<open>What the client has been sent: status 0 means nothing yet.\<close>

record wire =
  o_status :: int
  o_header :: header
  o_body :: bytes

definition no_response :: wire where
  "no_response = \<lparr>o_status = 0, o_header = [], o_body = []\<rparr>"

record 's writer =
  w_Header :: "'s \<Rightarrow> header"
  w_putHeader :: "header \<Rightarrow> 's \<Rightarrow> 's"
  w_WriteHeader :: "int \<Rightarrow> 's \<Rightarrow> 's"
  w_Write :: "bytes \<Rightarrow> 's \<Rightarrow> 's \<times> nat \<times> gerror option"

type_synonym 's handler = "request \<Rightarrow> 's \<Rightarrow> 's"

abbreviation w_Set :: "'s writer \<Rightarrow> string \<Rightarrow> string \<Rightarrow> 's \<Rightarrow> 's" where
  "w_Set w k v s \<equiv> w_putHeader w (Header_Set (w_Header w s) k v) s"

abbreviation w_Del :: "'s writer \<Rightarrow> string \<Rightarrow> 's \<Rightarrow> 's" where
  "w_Del w k s \<equiv> w_putHeader w (Header_Del (w_Header w s) k) s"

abbreviation w_put :: "'s writer \<Rightarrow> string \<Rightarrow> string list \<Rightarrow> 's \<Rightarrow> 's" where
  "w_put w k vs s \<equiv> w_putHeader w (AList.update k vs (w_Header w s)) s"

text \<open>
  The writer \<open>net/http\<close> hands to the outermost handler. \<open>n_room\<close> is the number of body
  bytes the connection still takes before it breaks, \<open>None\<close> if it never does.
\<close>

record net_resp =
  n_header :: header
  n_out :: wire
  n_room :: "nat option"

definition net_WriteHeader :: "int \<Rightarrow> net_resp \<Rightarrow> net_resp" where
  "net_WriteHeader st s =
     (if o_status (n_out s) \<noteq> 0 then s
      else s\<lparr>n_out := \<lparr>o_status = st, o_header = n_header s, o_body = []\<rparr>\<rparr>)"

definition net_Write :: "bytes \<Rightarrow> net_resp \<Rightarrow> net_resp \<times> nat \<times> gerror option" where
  "net_Write d s =
     (let s = (if o_status (n_out s) = 0 then net_WriteHeader 200 s else s);
          k = (case n_room s of None \<Rightarrow> length d | Some k \<Rightarrow> min k (length d));
          s' = s\<lparr>n_out := (n_out s)\<lparr>o_body := o_body (n_out s) @ take k d\<rparr>,
                 n_room := map_option (\<lambda>m. m - k) (n_room s)\<rparr>
      in (s', k, if k < length d then Some (Errorf ''write: broken pipe'') else None))"

definition net_writer :: "net_resp writer" where
  "net_writer = \<lparr>w_Header = n_header, w_putHeader = (\<lambda>h s. s\<lparr>n_header := h\<rparr>),
     w_WriteHeader = net_WriteHeader, w_Write = net_Write\<rparr>"

definition new_response :: net_resp where
  "new_response = \<lparr>n_header = [], n_out = no_response, n_room = None\<rparr>"

text \<open>\<open>http.Error\<close>, \<open>http.NotFound\<close> and \<open>io.Copy\<close> to a writer.\<close>

definition http_Error :: "'s writer \<Rightarrow> string \<Rightarrow> int \<Rightarrow> 's \<Rightarrow> 's" where
  "http_Error w msg code s =
     (let s = w_Set w ''Content-Type'' ''text/plain; charset=utf-8'' s;
          s = w_Set w ''X-Content-Type-Options'' ''nosniff'' s;
          s = w_WriteHeader w code s
      in fst (w_Write w (msg @ [CHR 0x0A]) s))"

definition http_NotFound :: "'s writer \<Rightarrow> 's \<Rightarrow> 's" where
  "http_NotFound w s = http_Error w ''404 page not found'' 404 s"

fun io_Copy :: "'s writer \<Rightarrow> bytes list \<Rightarrow> gerror option \<Rightarrow> 's \<Rightarrow> 's \<times> nat \<times> gerror option" where
  "io_Copy w [] e s = (s, 0, e)"
| "io_Copy w (c # cs) e s =
     (case w_Write w c s of (s', n, we) \<Rightarrow>
      (case we of Some x \<Rightarrow> (s', n, Some x)
       | None \<Rightarrow> if n \<noteq> length c then (s', n, Some ErrShortWrite)
                 else (case io_Copy w cs e s' of (s'', m, e') \<Rightarrow> (s'', n + m, e'))))"

text \<open>A handler that makes a fixed sequence of calls on its writer.\<close>

datatype call = Put_Header header | Call_WriteHeader int | Call_Write bytes

fun exec_call :: "'s writer \<Rightarrow> call \<Rightarrow> 's \<Rightarrow> 's" where
  "exec_call w (Put_Header h) s = w_putHeader w h s"
| "exec_call w (Call_WriteHeader st) s = w_WriteHeader w st s"
| "exec_call w (Call_Write d) s = fst (w_Write w d s)"

fun exec_calls :: "'s writer \<Rightarrow> call list \<Rightarrow> 's \<Rightarrow> 's" where
  "exec_calls w [] s = s"
| "exec_calls w (c # cs) s = exec_calls w cs (exec_call w c s)"

text \<open>
  A client of a writer changes the state through the four operations only; which calls it
  makes, and how they depend on anything else, is left open.
\<close>

inductive uses :: "'s writer \<Rightarrow> 's \<Rightarrow> 's \<Rightarrow> bool" for w where
  uses_refl: "uses w s s"
| uses_put: "uses w s t \<Longrightarrow> uses w s (w_putHeader w h t)"
| uses_WriteHeader: "uses w s t \<Longrightarrow> st \<noteq> 0 \<Longrightarrow> uses w s (w_WriteHeader w st t)"
| uses_Write: "uses w s t \<Longrightarrow> uses w s (fst (w_Write w d t))"

definition client :: "'s writer \<Rightarrow> 's handler \<Rightarrow> bool" where
  "client w h \<longleftrightarrow> (\<forall>r s. uses w s (h r s))"

text \<open>A response that has been started keeps its status and header and only gains body.\<close>

definition grows :: "wire \<Rightarrow> wire \<Rightarrow> bool" where
  "grows a b \<longleftrightarrow> (o_status a \<noteq> 0 \<longrightarrow>
     o_status b = o_status a \<and> o_header b = o_header a \<and> prefix (o_body a) (o_body b))"

section \<open>Lemmas on headers\<close>

lemma CanonicalHeaderKey_literals [simp, canon_simps]:
  "CanonicalHeaderKey ''Content-Type'' = ''Content-Type''"
  "CanonicalHeaderKey ''Content-Length'' = ''Content-Length''"
  "CanonicalHeaderKey ''Content-Encoding'' = ''Content-Encoding''"
  "CanonicalHeaderKey ''Content-Disposition'' = ''Content-Disposition''"
  "CanonicalHeaderKey ''Content-Transfer-Encoding'' = ''Content-Transfer-Encoding''"
  "CanonicalHeaderKey ''Accept-Encoding'' = ''Accept-Encoding''"
  "CanonicalHeaderKey ''Transfer-Encoding'' = ''Transfer-Encoding''"
  "CanonicalHeaderKey ''Connection'' = ''Connection''"
  "CanonicalHeaderKey ''Keep-Alive'' = ''Keep-Alive''"
  "CanonicalHeaderKey ''Proxy-Authenticate'' = ''Proxy-Authenticate''"
  "CanonicalHeaderKey ''Proxy-Authorization'' = ''Proxy-Authorization''"
  "CanonicalHeaderKey ''Te'' = ''Te''"
  "CanonicalHeaderKey ''Trailers'' = ''Trailers''"
  "CanonicalHeaderKey ''Upgrade'' = ''Upgrade''"
  "CanonicalHeaderKey ''Cache-Control'' = ''Cache-Control''"
  "CanonicalHeaderKey ''Pragma'' = ''Pragma''"
  "CanonicalHeaderKey ''Expires'' = ''Expires''"
  "CanonicalHeaderKey ''Authorization'' = ''Authorization''"
  "CanonicalHeaderKey ''Private-Token'' = ''Private-Token''"
  "CanonicalHeaderKey ''X-Content-Type-Options'' = ''X-Content-Type-Options''"
  "CanonicalHeaderKey ''X-Forwarded-For'' = ''X-Forwarded-For''"
  "CanonicalHeaderKey ''X-Accel-Buffering'' = ''X-Accel-Buffering''"
  "CanonicalHeaderKey ''X-Sendfile'' = ''X-Sendfile''"
  "CanonicalHeaderKey ''X-Sendfile-Type'' = ''X-Sendfile-Type''"
  "CanonicalHeaderKey ''Gitlab-Workhorse'' = ''Gitlab-Workhorse''"
  "CanonicalHeaderKey ''Gitlab-Workhorse-Send-Data'' = ''Gitlab-Workhorse-Send-Data''"
  "CanonicalHeaderKey ''Gitlab-Workhorse-Api-Request'' = ''Gitlab-Workhorse-Api-Request''"
  "CanonicalHeaderKey ''Gitlab-Workhorse-Proxy-Start'' = ''Gitlab-Workhorse-Proxy-Start''"
  "CanonicalHeaderKey ''Gitlab-Workhorse-Multipart-Fields'' = ''Gitlab-Workhorse-Multipart-Fields''"
  "CanonicalHeaderKey ''Gitlab-Ci-Builds-Polling'' = ''Gitlab-Ci-Builds-Polling''"
  "CanonicalHeaderKey ''X-GitLab-Custom-Error'' = ''X-Gitlab-Custom-Error''"
  "CanonicalHeaderKey ''Git-Protocol'' = ''Git-Protocol''"
  by code_simp+

lemma Header_values_Set:
  "Header_values (Header_Set h k v) k' = (if k' = CanonicalHeaderKey k then [v] else Header_values h k')"
  by (simp add: Header_values_def Header_Set_def update_conv')

lemma Header_values_Del:
  "Header_values (Header_Del h k) k' = (if k' = CanonicalHeaderKey k then [] else Header_values h k')"
  by (simp add: Header_values_def Header_Del_def delete_conv')

lemma Header_Get_Set:
  "Header_Get (Header_Set h k v) k' =
     (if CanonicalHeaderKey k' = CanonicalHeaderKey k then v else Header_Get h k')"
  by (simp add: Header_Get_def Header_values_Set)

lemma Header_Get_Del:
  "Header_Get (Header_Del h k) k' =
     (if CanonicalHeaderKey k' = CanonicalHeaderKey k then [] else Header_Get h k')"
  by (simp add: Header_Get_def Header_values_Del)

lemma Header_Get_Nil [simp]: "Header_Get [] k = []"
  by (simp add: Header_Get_def Header_values_def)

lemma map_of_Header_Dels:
  "map_of (Header_Dels h ks) k = (if k \<in> CanonicalHeaderKey ` set ks then None else map_of h k)"
proof (induction ks arbitrary: h)
  case Nil
  then show ?case by (simp add: Header_Dels_def)
next
  case (Cons a ks)
  have "Header_Dels h (a # ks) = Header_Dels (Header_Del h a) ks"
    by (simp add: Header_Dels_def)
  with Cons show ?case by (simp add: Header_Del_def delete_conv')
qed

lemma distinct_Header_Set: "distinct (map fst h) \<Longrightarrow> distinct (map fst (Header_Set h k v))"
  by (simp add: Header_Set_def distinct_update)

lemma distinct_Header_Del: "distinct (map fst h) \<Longrightarrow> distinct (map fst (Header_Del h k))"
  by (simp add: Header_Del_def distinct_delete)

lemmas header_simps = Header_values_Set Header_values_Del Header_Get_Set Header_Get_Del

section \<open>Media types: the bound on the number of parameters is enough\<close>

lemma dropWhile_length: "length (dropWhile P xs) \<le> length xs"
  by (rule length_dropWhile_le)

lemma quoted_value_length: "quoted_value acc v = Some (x, rest) \<Longrightarrow> length rest < length v"
  by (induction acc v rule: quoted_value.induct) (auto split: if_splits)

lemma consumeValue_length: "length (snd (consumeValue v)) \<le> length v"
proof (cases v)
  case Nil
  then show ?thesis by (simp add: consumeValue_def)
next
  case (Cons c cs)
  show ?thesis
  proof (cases "c = CHR 0x22")
    case True
    with Cons show ?thesis
      by (cases "quoted_value [] cs") (auto simp: consumeValue_def dest: quoted_value_length)
  next
    case False
    then have "consumeValue v = consumeToken v"
      by (simp add: Cons consumeValue_def)
    then show ?thesis by (simp add: consumeToken_def dropWhile_length)
  qed
qed

lemma consumeMediaParam_shorter:
  assumes "consumeMediaParam v = Some (k, x, rest)"
  shows "length rest < length v"
proof -
  from assms obtain c r0 e r2 where
    c: "TrimLeft v = c # r0" and
    e: "TrimLeft (snd (consumeToken (TrimLeft r0))) = e # r2" and
    rest: "rest = snd (consumeValue (TrimLeft r2))"
    by (auto simp: consumeMediaParam_def Let_def split: list.splits if_splits prod.splits)
  have "Suc (length r0) \<le> length v"
    using c dropWhile_length [of is_space v] by (simp add: TrimLeft_def)
  moreover have "Suc (length r2) \<le> length r0"
  proof -
    have "length (e # r2) \<le> length (snd (consumeToken (TrimLeft r0)))"
      unfolding e [symmetric] TrimLeft_def by (rule dropWhile_length)
    also have "\<dots> \<le> length (TrimLeft r0)"
      by (simp add: consumeToken_def dropWhile_length)
    also have "\<dots> \<le> length r0" by (simp add: TrimLeft_def dropWhile_length)
    finally show ?thesis by simp
  qed
  moreover have "length rest \<le> length r2"
    unfolding rest by (rule order_trans [OF consumeValue_length]) (simp add: TrimLeft_def dropWhile_length)
  ultimately show ?thesis by simp
qed

lemma media_params_enough:
  "length v \<le> n \<Longrightarrow> n \<le> m \<Longrightarrow> media_params_ok m seen v = media_params_ok n seen v"
proof (induction n arbitrary: m seen v)
  case 0
  then show ?case by (cases m) (auto simp: TrimLeft_def)
next
  case (Suc n)
  then obtain m' where m: "m = Suc m'" and "n \<le> m'" by (cases m) auto
  have "media_params_ok m' (k # seen) rest = media_params_ok n (k # seen) rest"
    if "consumeMediaParam (TrimLeft v) = Some (k, x, rest)" for k x rest
  proof (rule Suc.IH)
    have "length rest < length v"
      using consumeMediaParam_shorter [OF that] dropWhile_length [of is_space v]
      by (simp add: TrimLeft_def)
    with Suc.prems show "length rest \<le> n" by simp
  qed fact
  then show ?case by (auto simp: m split: option.split)
qed

section \<open>The contract of a response writer\<close>

lemma grows_refl [simp]: "grows a a"
  by (simp add: grows_def)

lemma grows_fresh [simp]: "o_status a = 0 \<Longrightarrow> grows a b"
  by (simp add: grows_def)

lemma grows_trans: "grows a b \<Longrightarrow> grows b c \<Longrightarrow> grows a c"
  by (auto simp: grows_def intro: prefix_order.trans)

lemma uses_trans:
  assumes "uses w s t" "uses w t u"
  shows "uses w s u"
  using assms(2,1) by (induction rule: uses.induct) (auto intro: uses.intros)

lemma uses_http_Error: "code \<noteq> 0 \<Longrightarrow> uses w s (http_Error w msg code s)"
  by (auto simp: http_Error_def Let_def intro!: uses.intros)

lemma uses_io_Copy: "uses w s (fst (io_Copy w cs e s))"
proof (induction w cs e s rule: io_Copy.induct)
  case (1 w e s)
  then show ?case by (simp add: uses_refl)
next
  case (2 w c cs e s)
  obtain s' n we where w: "w_Write w c s = (s', n, we)" by (cases "w_Write w c s")
  have one: "uses w s s'" using uses_Write [OF uses_refl, of w s c] w by simp
  show ?case
    using one uses_trans [OF one] 2 [OF w [symmetric]] by (auto simp: w split: option.split prod.split)
qed

lemma uses_exec_calls:
  "Call_WriteHeader 0 \<notin> set cs \<Longrightarrow> uses w s (exec_calls w cs s)"
proof (induction cs arbitrary: s)
  case Nil
  then show ?case by (simp add: uses_refl)
next
  case (Cons c cs)
  then have "uses w s (exec_call w c s)"
    by (cases c) (auto intro: uses.intros)
  with Cons show ?case by (auto intro: uses_trans)
qed

locale response_writer =
  fixes w :: "'s writer"
    and out :: "'s \<Rightarrow> wire"
    and ok :: "'s \<Rightarrow> bool"
  assumes Header_putHeader: "w_Header w (w_putHeader w h s) = h"
    and out_putHeader: "out (w_putHeader w h s) = out s"
    and ok_putHeader: "ok s \<Longrightarrow> ok (w_putHeader w h s)"
    and ok_WriteHeader: "ok s \<Longrightarrow> st \<noteq> 0 \<Longrightarrow> ok (w_WriteHeader w st s)"
    and ok_Write: "ok s \<Longrightarrow> ok (fst (w_Write w d s))"
    and WriteHeader_once: "ok s \<Longrightarrow> o_status (out s) \<noteq> 0 \<Longrightarrow> out (w_WriteHeader w st s) = out s"
    and Write_grows: "ok s \<Longrightarrow> grows (out s) (out (fst (w_Write w d s)))"
begin

lemma WriteHeader_grows: "ok s \<Longrightarrow> grows (out s) (out (w_WriteHeader w st s))"
  using WriteHeader_once [of s st] by (cases "o_status (out s) = 0") auto

lemma uses_ok_grows: "uses w s t \<Longrightarrow> ok s \<Longrightarrow> ok t \<and> grows (out s) (out t)"
proof (induction rule: uses.induct)
  case (uses_Write s t d)
  then show ?case by (blast intro: ok_Write Write_grows grows_trans)
next
  case (uses_WriteHeader s t st)
  then show ?case by (blast intro: ok_WriteHeader WriteHeader_grows grows_trans)
qed (auto simp: out_putHeader ok_putHeader)

lemmas uses_ok = uses_ok_grows [THEN conjunct1]
lemmas uses_grows = uses_ok_grows [THEN conjunct2]

lemma client_grows: "client w h \<Longrightarrow> ok s \<Longrightarrow> grows (out s) (out (h r s))"
  by (simp add: client_def uses_grows)

end

text \<open>
  A plain writer adds nothing of its own: what its client asks for is what goes on the
  wire, and \<open>Write\<close> reports exactly the bytes that went out.
\<close>

definition written :: "'s writer \<Rightarrow> bytes \<Rightarrow> 's \<Rightarrow> nat" where
  "written w d s = fst (snd (w_Write w d s))"

locale plain_writer = response_writer +
  assumes WriteHeader_fresh: "ok s \<Longrightarrow> o_status (out s) = 0 \<Longrightarrow>
      out (w_WriteHeader w st s) = \<lparr>o_status = st, o_header = w_Header w s, o_body = []\<rparr>"
    and Write_fresh: "ok s \<Longrightarrow> o_status (out s) = 0 \<Longrightarrow>
      out (fst (w_Write w d s)) =
        \<lparr>o_status = 200, o_header = w_Header w s, o_body = take (written w d s) d\<rparr>"
    and Write_more: "ok s \<Longrightarrow> o_status (out s) \<noteq> 0 \<Longrightarrow>
      out (fst (w_Write w d s)) = (out s)\<lparr>o_body := o_body (out s) @ take (written w d s) d\<rparr>"
    and written_le: "written w d s \<le> length d"
    and fresh_body: "ok s \<Longrightarrow> o_status (out s) = 0 \<Longrightarrow> o_body (out s) = []"
begin

lemma Write_count:
  "ok s \<Longrightarrow> length (o_body (out (fst (w_Write w d s)))) = length (o_body (out s)) + written w d s"
  using written_le [of d s]
  by (cases "o_status (out s) = 0") (simp_all add: Write_fresh Write_more fresh_body)

lemma http_Error_fresh:
  assumes "ok s" "o_status (out s) = 0" "code \<noteq> 0"
  shows "o_status (out (http_Error w msg code s)) = code"
    and "o_header (out (http_Error w msg code s)) =
      Header_Set (Header_Set (w_Header w s) ''Content-Type'' ''text/plain; charset=utf-8'')
        ''X-Content-Type-Options'' ''nosniff''"
    and "prefix (o_body (out (http_Error w msg code s))) (msg @ [CHR 0x0A])"
proof -
  define h where "h = Header_Set (Header_Set (w_Header w s) ''Content-Type'' ''text/plain; charset=utf-8'')
        ''X-Content-Type-Options'' ''nosniff''"
  define s2 where "s2 = w_putHeader w h (w_putHeader w
      (Header_Set (w_Header w s) ''Content-Type'' ''text/plain; charset=utf-8'') s)"
  have s2: "ok s2" "out s2 = out s" "w_Header w s2 = h"
    using assms by (auto simp: s2_def ok_putHeader out_putHeader Header_putHeader)
  define s3 where "s3 = w_WriteHeader w code s2"
  have s3: "ok s3" "out s3 = \<lparr>o_status = code, o_header = h, o_body = []\<rparr>"
    using s2 assms by (auto simp: s3_def ok_WriteHeader WriteHeader_fresh)
  have "http_Error w msg code s = fst (w_Write w (msg @ [CHR 0x0A]) s3)"
    by (simp add: http_Error_def Let_def s3_def s2_def h_def Header_putHeader)
  then have "out (http_Error w msg code s) = \<lparr>o_status = code, o_header = h,
      o_body = take (written w (msg @ [CHR 0x0A]) s3) (msg @ [CHR 0x0A])\<rparr>"
    using s3 assms Write_more [of s3] by simp
  then show "o_status (out (http_Error w msg code s)) = code"
    and "o_header (out (http_Error w msg code s)) =
      Header_Set (Header_Set (w_Header w s) ''Content-Type'' ''text/plain; charset=utf-8'')
        ''X-Content-Type-Options'' ''nosniff''"
    and "prefix (o_body (out (http_Error w msg code s))) (msg @ [CHR 0x0A])"
    by (simp_all add: h_def take_is_prefix del: take_append prefix_snoc)
qed

end

text \<open>A writer whose connection never breaks takes every byte.\<close>

locale reliable_writer = plain_writer +
  assumes written_all: "ok s \<Longrightarrow> written w d s = length d"
    and Write_no_error: "ok s \<Longrightarrow> snd (snd (w_Write w d s)) = None"
begin

lemma Write_all:
  "ok s \<Longrightarrow> out (fst (w_Write w d s)) =
     (if o_status (out s) = 0 then \<lparr>o_status = 200, o_header = w_Header w s, o_body = d\<rparr>
      else (out s)\<lparr>o_body := o_body (out s) @ d\<rparr>)"
  by (simp add: Write_fresh Write_more written_all)

lemma Write_result: "ok s \<Longrightarrow> snd (w_Write w d s) = (length d, None)"
  using written_all [of s d] Write_no_error [of s d] by (simp add: written_def prod_eq_iff)

lemma io_Copy_all:
  "ok s \<Longrightarrow> \<exists>s'. io_Copy w cs e s = (s', length (concat cs), e) \<and> ok s' \<and>
     o_body (out s') = o_body (out s) @ concat cs \<and> (o_status (out s) \<noteq> 0 \<longrightarrow> out s' = (out s)\<lparr>o_body := o_body (out s')\<rparr>) \<and>
     (o_status (out s) = 0 \<and> cs \<noteq> [] \<longrightarrow> out s' = \<lparr>o_status = 200, o_header = w_Header w s, o_body = concat cs\<rparr>)"
proof (induction cs arbitrary: s)
  case (Cons c cs)
  from Write_result [OF Cons.prems, of c] obtain s1 where w: "w_Write w c s = (s1, length c, None)"
    by (cases "w_Write w c s") simp
  have s1: "ok s1" "out s1 = (if o_status (out s) = 0 then \<lparr>o_status = 200, o_header = w_Header w s, o_body = c\<rparr>
      else (out s)\<lparr>o_body := o_body (out s) @ c\<rparr>)"
    using ok_Write [OF Cons.prems, of c] Write_all [OF Cons.prems, of c] by (simp_all add: w)
  then have "o_status (out s1) \<noteq> 0" by simp
  with Cons.IH [OF s1(1)] obtain s' where "io_Copy w cs e s1 = (s', length (concat cs), e)" "ok s'"
    "o_body (out s') = o_body (out s1) @ concat cs" "out s' = (out s1)\<lparr>o_body := o_body (out s')\<rparr>"
    by blast
  with s1 Cons.prems show ?case by (auto simp: w fresh_body)
qed simp

end

lemma net_writer_simps [simp]:
  "w_Header net_writer = n_header"
  "w_putHeader net_writer h s = s\<lparr>n_header := h\<rparr>"
  "w_WriteHeader net_writer = net_WriteHeader"
  "w_Write net_writer = net_Write"
  by (simp_all add: net_writer_def)

lemma written_net:
  "written net_writer d s = (case n_room s of None \<Rightarrow> length d | Some k \<Rightarrow> min k (length d))"
  by (simp add: written_def net_Write_def net_WriteHeader_def Let_def)

lemma net_Write_out:
  "n_out (fst (net_Write d s)) =
     (if o_status (n_out s) = 0
      then \<lparr>o_status = 200, o_header = n_header s, o_body = take (written net_writer d s) d\<rparr>
      else (n_out s)\<lparr>o_body := o_body (n_out s) @ take (written net_writer d s) d\<rparr>)"
  by (simp add: written_net net_Write_def net_WriteHeader_def Let_def split: option.split)

definition wire_ok :: "wire \<Rightarrow> bool" where
  "wire_ok x \<longleftrightarrow> (o_status x = 0 \<longrightarrow> o_body x = [])"

interpretation net: plain_writer net_writer n_out "\<lambda>s. wire_ok (n_out s)"
  by unfold_locales
    (auto simp: net_Write_out net_WriteHeader_def written_net grows_def wire_ok_def split: option.split)

interpretation net_up: reliable_writer net_writer n_out "\<lambda>s. wire_ok (n_out s) \<and> n_room s = None"
  by unfold_locales
    (auto simp: net_Write_out net_Write_def net_WriteHeader_def written_net grows_def wire_ok_def Let_def
      split: option.split)

lemma new_response_ok [simp]: "wire_ok (n_out new_response)" "o_status (n_out new_response) = 0"
  by (simp_all add: new_response_def no_response_def wire_ok_def)

end
