(* ===== verification/Helper.thy ===== *)
theory Helper
  imports Http
begin

text \<open>
  The package \<open>internal/helper\<close>: error responses, header utilities, request bodies, the
  scrubbing of secrets from URLs before they are logged (\<open>helpers.go\<close>, \<open>raven.go\<close>),
  and the two writers that count what passes through them (\<open>countingresponsewriter.go\<close>,
  \<open>logging.go\<close>). Writing the log and reporting to Sentry are in \<open>Logging\<close>;
  the effect of a report on the program, the redaction of the request's credentials,
  is \<open>CleanHeadersForRaven\<close> here.
\<close>

section \<open>Error responses\<close>

definition Fail500 :: "'s writer \<Rightarrow> 's \<Rightarrow> 's" where
  "Fail500 w s = http_Error w ''Internal server error'' 500 s"

definition RequestEntityTooLarge :: "'s writer \<Rightarrow> 's \<Rightarrow> 's" where
  "RequestEntityTooLarge w s = http_Error w ''Request Entity Too Large'' 413 s"

definition HTTPError :: "'s writer \<Rightarrow> request \<Rightarrow> string \<Rightarrow> int \<Rightarrow> 's \<Rightarrow> 's" where
  "HTTPError w r error code s =
     (let s = (if ProtoAtLeast r 1 1 then w_Set w ''Connection'' ''close'' s else s)
      in http_Error w error code s)"

section \<open>Headers\<close>

definition SetNoCacheHeaders :: "header \<Rightarrow> header" where
  "SetNoCacheHeaders h =
     (let h = Header_Set h ''Cache-Control'' ''no-cache, no-store, max-age=0, must-revalidate'';
          h = Header_Set h ''Pragma'' ''no-cache''
      in Header_Set h ''Expires'' ''Fri, 01 Jan 1990 00:00:00 GMT'')"

definition HeaderClone :: "header \<Rightarrow> header" where
  "HeaderClone h = map (\<lambda>(k, vv). (k, map id vv)) h"

definition DisableResponseBuffering :: "'s writer \<Rightarrow> 's \<Rightarrow> 's" where
  "DisableResponseBuffering w s = w_Set w ''X-Accel-Buffering'' ''no'' s"

definition AllowResponseBuffering :: "'s writer \<Rightarrow> 's \<Rightarrow> 's" where
  "AllowResponseBuffering w s = w_Del w ''X-Accel-Buffering'' s"

text \<open>\<open>net.SplitHostPort\<close>; \<open>None\<close> is an error.\<close>

definition SplitHostPort :: "string \<Rightarrow> (string \<times> string) option" where
  "SplitHostPort hp =
     (if CHR '':'' \<notin> set hp then None else
      let port = rev (takeWhile (\<lambda>c. c \<noteq> CHR '':'') (rev hp));
          i = length hp - length port - 1
      in if hd hp = CHR ''['' then
           (if CHR '']'' \<notin> set hp then None else
            let end = length (takeWhile (\<lambda>c. c \<noteq> CHR '']'') hp) in
            if Suc end \<noteq> i then None
            else if CHR ''['' \<in> set (drop 1 hp) \<or> CHR '']'' \<in> set (drop (Suc end) hp) then None
            else Some (drop 1 (take end hp), port))
         else
           (let host = take i hp in
            if CHR '':'' \<in> set host \<or> CHR ''['' \<in> set hp \<or> CHR '']'' \<in> set hp then None
            else Some (host, port)))"

definition SetForwardedFor :: "header \<Rightarrow> request \<Rightarrow> header" where
  "SetForwardedFor newHeaders r =
     (case SplitHostPort (req_RemoteAddr r) of
        None \<Rightarrow> newHeaders
      | Some (clientIP, _) \<Rightarrow>
          Header_Set newHeaders ''X-Forwarded-For''
            (case map_of (req_Header r) ''X-Forwarded-For'' of
               Some prior \<Rightarrow> Join prior '', '' @ '', '' @ clientIP
             | None \<Rightarrow> clientIP))"

definition ravenHeaderBlacklist :: "string list" where
  "ravenHeaderBlacklist = [''Authorization'', ''Private-Token'']"

definition CleanHeadersForRaven :: "request \<Rightarrow> request" where
  "CleanHeadersForRaven r =
     foldl (\<lambda>r key. if Header_Get (req_Header r) key \<noteq> []
                     then r\<lparr>req_Header := Header_Set (req_Header r) key ''[redacted]''\<rparr> else r)
       r ravenHeaderBlacklist"

section \<open>Request bodies\<close>

definition IsApplicationJson :: "request \<Rightarrow> bool" where
  "IsApplicationJson r \<longleftrightarrow> IsContentType ''application/json'' (Header_Get (req_Header r) ''Content-Type'')"

definition ReadRequestBody :: "request \<Rightarrow> nat \<Rightarrow> bytes result" where
  "ReadRequestBody r maxBodySize =
     (if length (stream_bytes (req_Body r)) > maxBodySize
      then Inl (Errorf ''http: request body too large'')
      else ReadAll (req_Body r))"

definition CloneRequestWithNewBody :: "request \<Rightarrow> bytes \<Rightarrow> request" where
  "CloneRequestWithNewBody r body =
     r\<lparr>req_Body := reader_of body, req_Header := HeaderClone (req_Header r),
       req_ContentLength := int (length body)\<rparr>"

section \<open>Files and processes\<close>

datatype node = File bytes int | Dir

type_synonym filesystem = "string \<Rightarrow> node option"

definition OpenFile :: "filesystem \<Rightarrow> string \<Rightarrow> (bytes \<times> int) result" where
  "OpenFile fs path =
     (case fs path of
        None \<Rightarrow> Inl ErrNotExist
      | Some Dir \<Rightarrow> Inl (Errorf (''open '' @ path @ '': path is directory''))
      | Some (File content modtime) \<Rightarrow> Inr (content, modtime))"

definition ExitStatus :: "gerror \<Rightarrow> int option" where
  "ExitStatus e = (case e of ExitError n \<Rightarrow> Some n | _ \<Rightarrow> None)"

text \<open>A command is \<open>None\<close> for a nil pointer; its process identifier is \<open>None\<close> before it has started.\<close>

datatype proc_event = Sigterm int | Wait

definition CleanUpProcessGroup :: "int option option \<Rightarrow> proc_event list" where
  "CleanUpProcessGroup cmd =
     (case cmd of
        None \<Rightarrow> []
      | Some process \<Rightarrow> (case process of Some pid \<Rightarrow> if pid > 0 then [Sigterm (- pid)] else [] | None \<Rightarrow> []) @ [Wait])"

definition URLMustParse :: "(string \<Rightarrow> url result) \<Rightarrow> string \<Rightarrow> string + url" where
  "URLMustParse parse s = (case parse s of Inl err \<Rightarrow> Inl ''urlMustParse'' | Inr u \<Rightarrow> Inr u)"

section \<open>Scrubbing secrets out of URLs\<close>

text \<open>
  The regular expression of \<open>scrubRegexp\<close> is case insensitive, and Go folds case over
  Unicode: the letter s also stands for U+017F and k for U+212A, here as UTF-8 bytes.
\<close>

fun fold_char :: "char \<Rightarrow> string \<Rightarrow> (string \<times> string) option" where
  "fold_char c [] = None"
| "fold_char c (b # t) =
     (if ascii_lower b = c then Some ([b], t)
      else if c = CHR ''s'' \<and> b = CHR 0xC5 then
        (case t of b2 # t2 \<Rightarrow> if b2 = CHR 0xBF then Some ([b, b2], t2) else None | [] \<Rightarrow> None)
      else if c = CHR ''k'' \<and> b = CHR 0xE2 then
        (case t of b2 # b3 # t3 \<Rightarrow> if b2 = CHR 0x84 \<and> b3 = CHR 0xAA then Some ([b, b2, b3], t3) else None
         | _ \<Rightarrow> None)
      else None)"

fun ci_literal :: "string \<Rightarrow> string \<Rightarrow> (string \<times> string) option" where
  "ci_literal [] s = Some ([], s)"
| "ci_literal (c # p) s =
     (case fold_char c s of None \<Rightarrow> None
      | Some (m, s') \<Rightarrow> map_option (\<lambda>(m', r). (m @ m', r)) (ci_literal p s'))"

fun ci_alternatives :: "string list \<Rightarrow> string \<Rightarrow> (string \<times> string) option" where
  "ci_alternatives [] s = None"
| "ci_alternatives (p # ps) s =
     (case ci_literal p s of Some x \<Rightarrow> Some x | None \<Rightarrow> ci_alternatives ps s)"

definition scrub_keys :: "string list" where
  "scrub_keys =
     concat (map (\<lambda>q. concat (map (\<lambda>name. map (\<lambda>sep. q @ name @ sep @ ''token'') [''-'', ''_''])
         [''private'', ''authenticity'', ''rss''])) [''?'', ''&'']) @ [''x-amz-signature'', ''signature'']"

definition scrub_match :: "string \<Rightarrow> (string \<times> string) option" where
  "scrub_match s =
     (case ci_alternatives scrub_keys s of
        Some (m, CHR ''='' # r) \<Rightarrow> Some (m, dropWhile (\<lambda>c. c \<noteq> CHR ''&'') r)
      | _ \<Rightarrow> None)"

text \<open>The spellings one letter of the expression accepts.\<close>

definition folds :: "char \<Rightarrow> string \<Rightarrow> bool" where
  "folds c m \<longleftrightarrow> (\<exists>b. m = [b] \<and> ascii_lower b = c) \<or> c = CHR ''s'' \<and> m = [CHR 0xC5, CHR 0xBF]
     \<or> c = CHR ''k'' \<and> m = [CHR 0xE2, CHR 0x84, CHR 0xAA]"

lemma ascii_lower_lead [simp]: "ascii_lower CHR 0xC5 = CHR 0xC5" "ascii_lower CHR 0xE2 = CHR 0xE2"
  by (simp_all add: ascii_lower_def)

lemma fold_char_sound: "fold_char c s = Some (m, r) \<Longrightarrow> s = m @ r \<and> folds c m"
proof (cases s)
  case (Cons b t)
  assume "fold_char c s = Some (m, r)"
  then show ?thesis
    unfolding Cons fold_char.simps folds_def
    by (simp split: if_split_asm list.split_asm) blast+
qed simp

lemma fold_char_complete: "folds c m \<Longrightarrow> fold_char c (m @ r) = Some (m, r)"
  unfolding folds_def by (elim disjE conjE exE) simp_all

lemma fold_char_iff: "fold_char c s = Some (m, r) \<longleftrightarrow> s = m @ r \<and> folds c m"
  using fold_char_sound fold_char_complete by blast

lemma fold_char_split: "fold_char c s = Some (m, r) \<Longrightarrow> s = m @ r \<and> m \<noteq> []"
  by (auto simp: fold_char_iff folds_def)

lemma ci_literal_split: "ci_literal p s = Some (m, r) \<Longrightarrow> s = m @ r \<and> (p \<noteq> [] \<longrightarrow> m \<noteq> [])"
  by (induction p arbitrary: s m r) (auto split: option.splits dest!: fold_char_split)

lemma ci_alternatives_split:
  "ci_alternatives ps s = Some (m, r) \<Longrightarrow> s = m @ r \<and> (\<exists>p \<in> set ps. ci_literal p s = Some (m, r))"
  by (induction ps) (auto split: option.splits dest: ci_literal_split)

lemma scrub_match_shorter: "scrub_match s = Some (m, r) \<Longrightarrow> length r < length s"
  by (auto simp: scrub_match_def less_Suc_eq_le trans_le_add2 length_dropWhile_le
      split: option.splits list.splits if_splits char.splits bool.splits dest!: ci_alternatives_split)

function ScrubURLParams :: "string \<Rightarrow> string" where
  "ScrubURLParams s =
     (case scrub_match s of
        Some (m, rest) \<Rightarrow> m @ ''=[FILTERED]'' @ ScrubURLParams rest
      | None \<Rightarrow> (case s of [] \<Rightarrow> [] | c # t \<Rightarrow> c # ScrubURLParams t))"
  by pat_completeness auto
termination
  by (relation "measure length") (auto simp: scrub_match_shorter)

declare ScrubURLParams.simps [simp del]

section \<open>Writers that count\<close>

record 's counting =
  c_rw :: 's
  c_status :: int
  c_count :: int

definition NewCountingResponseWriter :: "'s \<Rightarrow> 's counting" where
  "NewCountingResponseWriter rw = \<lparr>c_rw = rw, c_status = 0, c_count = 0\<rparr>"

definition counting_WriteHeader :: "'s writer \<Rightarrow> int \<Rightarrow> 's counting \<Rightarrow> 's counting" where
  "counting_WriteHeader w status c =
     (if c_status c \<noteq> 0 then c else c\<lparr>c_status := status, c_rw := w_WriteHeader w status (c_rw c)\<rparr>)"

definition counting_Write :: "'s writer \<Rightarrow> bytes \<Rightarrow> 's counting \<Rightarrow> 's counting \<times> nat \<times> gerror option" where
  "counting_Write w data c =
     (let c = (if c_status c = 0 then counting_WriteHeader w 200 c else c);
          (rw, n, err) = w_Write w data (c_rw c)
      in (c\<lparr>c_rw := rw, c_count := c_count c + int n\<rparr>, n, err))"

definition counting_writer :: "'s writer \<Rightarrow> 's counting writer" where
  "counting_writer w = \<lparr>w_Header = (\<lambda>c. w_Header w (c_rw c)),
     w_putHeader = (\<lambda>h c. c\<lparr>c_rw := w_putHeader w h (c_rw c)\<rparr>),
     w_WriteHeader = counting_WriteHeader w, w_Write = counting_Write w\<rparr>"

record 's stats =
  l_rw :: 's
  l_status :: int
  l_wroteHeader :: bool
  l_written :: int

definition NewStatsCollectingResponseWriter :: "'s \<Rightarrow> 's stats" where
  "NewStatsCollectingResponseWriter rw =
     \<lparr>l_rw = rw, l_status = 0, l_wroteHeader = False, l_written = 0\<rparr>"

definition stats_WriteHeader :: "'s writer \<Rightarrow> int \<Rightarrow> 's stats \<Rightarrow> 's stats" where
  "stats_WriteHeader w status l =
     (if l_wroteHeader l then l
      else l\<lparr>l_wroteHeader := True, l_status := status, l_rw := w_WriteHeader w status (l_rw l)\<rparr>)"

definition stats_Write :: "'s writer \<Rightarrow> bytes \<Rightarrow> 's stats \<Rightarrow> 's stats \<times> nat \<times> gerror option" where
  "stats_Write w data l =
     (let l = (if \<not> l_wroteHeader l then stats_WriteHeader w 200 l else l);
          (rw, n, err) = w_Write w data (l_rw l)
      in (l\<lparr>l_rw := rw, l_written := l_written l + int n\<rparr>, n, err))"

definition stats_writer :: "'s writer \<Rightarrow> 's stats writer" where
  "stats_writer w = \<lparr>w_Header = (\<lambda>l. w_Header w (l_rw l)),
     w_putHeader = (\<lambda>h l. l\<lparr>l_rw := w_putHeader w h (l_rw l)\<rparr>),
     w_WriteHeader = stats_WriteHeader w, w_Write = stats_Write w\<rparr>"

text \<open>What \<open>RequestFinished\<close> writes to the access log, but for the clock.\<close>

record access_log =
  log_host :: string
  log_remoteAddr :: string
  log_method :: string
  log_uri :: string
  log_status :: int
  log_written :: int
  log_referer :: string
  log_userAgent :: string

definition accessLogFields :: "'s stats \<Rightarrow> request \<Rightarrow> access_log" where
  "accessLogFields l r =
     \<lparr>log_host = req_Host r, log_remoteAddr = req_RemoteAddr r, log_method = req_Method r,
      log_uri = ScrubURLParams (req_RequestURI r), log_status = l_status l, log_written = l_written l,
      log_referer = ScrubURLParams (Header_Get (req_Header r) ''Referer''),
      log_userAgent = Header_Get (req_Header r) ''User-Agent''\<rparr>"

subsection \<open>Both keep the contract of the writer they wrap\<close>

lemma written_counting:
  "written (counting_writer w) d c =
     written w d (c_rw (if c_status c = 0 then counting_WriteHeader w 200 c else c))"
  by (simp add: written_def counting_writer_def counting_Write_def Let_def split_beta)

locale counting_over = plain_writer
begin

text \<open>The bookkeeping agrees with the wire.\<close>

definition counting_ok :: "'a counting \<Rightarrow> bool" where
  "counting_ok c \<longleftrightarrow> ok (c_rw c) \<and> c_status c = o_status (out (c_rw c))
     \<and> c_count c = int (length (o_body (out (c_rw c))))"

lemma counting_WriteHeader_ok:
  "counting_ok c \<Longrightarrow> st \<noteq> 0 \<Longrightarrow> counting_ok (counting_WriteHeader w st c)"
  by (auto simp: counting_ok_def counting_WriteHeader_def ok_WriteHeader WriteHeader_fresh fresh_body)

lemma counting_Write_eq:
  assumes "counting_ok c"
  defines "c' \<equiv> (if c_status c = 0 then counting_WriteHeader w 200 c else c)"
  shows "counting_ok c'" "o_status (out (c_rw c')) \<noteq> 0"
    "fst (counting_Write w d c) = c'\<lparr>c_rw := fst (w_Write w d (c_rw c')),
        c_count := c_count c' + int (written w d (c_rw c'))\<rparr>"
    "fst (snd (counting_Write w d c)) = written w d (c_rw c')"
    "out (c_rw c') = (if c_status c = 0
       then \<lparr>o_status = 200, o_header = w_Header w (c_rw c), o_body = []\<rparr> else out (c_rw c))"
proof -
  show ok': "counting_ok c'" using assms by (simp add: counting_WriteHeader_ok)
  then show "o_status (out (c_rw c')) \<noteq> 0"
    by (auto simp: counting_ok_def c'_def counting_WriteHeader_def split: if_splits)
  show "fst (counting_Write w d c) = c'\<lparr>c_rw := fst (w_Write w d (c_rw c')),
        c_count := c_count c' + int (written w d (c_rw c'))\<rparr>"
    "fst (snd (counting_Write w d c)) = written w d (c_rw c')"
    by (simp_all add: counting_Write_def c'_def Let_def written_def split_beta)
  show "out (c_rw c') = (if c_status c = 0
       then \<lparr>o_status = 200, o_header = w_Header w (c_rw c), o_body = []\<rparr> else out (c_rw c))"
    using assms by (auto simp: counting_ok_def counting_WriteHeader_def WriteHeader_fresh)
qed

lemma counting_Write_ok: "counting_ok c \<Longrightarrow> counting_ok (fst (counting_Write w d c))"
  using counting_Write_eq(1,2) [of c] counting_Write_eq(3) [of c d] ok_Write Write_count Write_more
  by (simp add: counting_ok_def min_absorb2 written_le)

lemma counting_put_ok: "counting_ok c \<Longrightarrow> counting_ok (c\<lparr>c_rw := w_putHeader w h (c_rw c)\<rparr>)"
  by (simp add: counting_ok_def ok_putHeader out_putHeader)

lemma counting_WriteHeader_out:
  "counting_ok c \<Longrightarrow> out (c_rw (counting_WriteHeader w st c)) =
     (if o_status (out (c_rw c)) = 0
      then \<lparr>o_status = st, o_header = w_Header w (c_rw c), o_body = []\<rparr> else out (c_rw c))"
  by (simp add: counting_ok_def counting_WriteHeader_def WriteHeader_fresh)

lemma counting_fresh_body: "counting_ok c \<Longrightarrow> o_status (out (c_rw c)) = 0 \<Longrightarrow> o_body (out (c_rw c)) = []"
  by (simp add: counting_ok_def fresh_body)

lemma counting_Write_out:
  assumes "counting_ok c"
  shows "out (c_rw (fst (counting_Write w d c))) =
     (if o_status (out (c_rw c)) = 0
      then \<lparr>o_status = 200, o_header = w_Header w (c_rw c),
             o_body = take (fst (snd (counting_Write w d c))) d\<rparr>
      else (out (c_rw c))\<lparr>o_body := o_body (out (c_rw c)) @ take (fst (snd (counting_Write w d c))) d\<rparr>)"
  using counting_Write_eq(1,2,5) [OF assms] counting_Write_eq(3,4) [OF assms, of d] assms Write_more
  by (auto simp: counting_ok_def split: if_splits)

end

sublocale counting_over \<subseteq> counting: plain_writer "counting_writer w" "\<lambda>c. out (c_rw c)" counting_ok
proof unfold_locales
  fix d c
  show "written (counting_writer w) d c \<le> length d"
    using written_le by (simp add: written_counting)
qed (simp_all add: counting_writer_def written_def counting_Write_out counting_Write_ok
    counting_put_ok counting_WriteHeader_ok counting_WriteHeader_out counting_fresh_body
    grows_def Header_putHeader out_putHeader)

locale counting_reliable = counting_over + reliable_writer

sublocale counting_reliable \<subseteq> counted: reliable_writer "counting_writer w" "\<lambda>c. out (c_rw c)" counting_ok
proof unfold_locales
  fix c d
  assume ok: "counting_ok c"
  show "written (counting_writer w) d c = length d"
    using counting_Write_eq(1) [OF ok] by (simp add: written_counting written_all counting_ok_def)
  show "snd (snd (w_Write (counting_writer w) d c)) = None"
    using counting_Write_eq(1) [OF ok] Write_no_error
    by (simp add: counting_writer_def counting_Write_def counting_ok_def Let_def split_beta)
qed

text \<open>The same for the writer that feeds the access log.\<close>

lemma written_stats:
  "written (stats_writer w) d l =
     written w d (l_rw (if l_wroteHeader l then l else stats_WriteHeader w 200 l))"
  by (simp add: written_def stats_writer_def stats_Write_def Let_def split_beta)

locale stats_over = plain_writer
begin

definition stats_ok :: "'a stats \<Rightarrow> bool" where
  "stats_ok l \<longleftrightarrow> ok (l_rw l) \<and> l_status l = o_status (out (l_rw l))
     \<and> (l_wroteHeader l \<longleftrightarrow> o_status (out (l_rw l)) \<noteq> 0)
     \<and> l_written l = int (length (o_body (out (l_rw l))))"

lemma stats_WriteHeader_ok:
  "stats_ok l \<Longrightarrow> st \<noteq> 0 \<Longrightarrow> stats_ok (stats_WriteHeader w st l)"
  by (auto simp: stats_ok_def stats_WriteHeader_def ok_WriteHeader WriteHeader_fresh fresh_body)

lemma stats_Write_eq:
  assumes "stats_ok l"
  defines "l' \<equiv> (if l_wroteHeader l then l else stats_WriteHeader w 200 l)"
  shows "stats_ok l'" "o_status (out (l_rw l')) \<noteq> 0"
    "fst (stats_Write w d l) = l'\<lparr>l_rw := fst (w_Write w d (l_rw l')),
        l_written := l_written l' + int (written w d (l_rw l'))\<rparr>"
    "fst (snd (stats_Write w d l)) = written w d (l_rw l')"
    "out (l_rw l') = (if l_wroteHeader l then out (l_rw l)
       else \<lparr>o_status = 200, o_header = w_Header w (l_rw l), o_body = []\<rparr>)"
proof -
  show "stats_ok l'" using assms by (simp add: stats_WriteHeader_ok)
  then show "o_status (out (l_rw l')) \<noteq> 0"
    by (auto simp: stats_ok_def l'_def stats_WriteHeader_def split: if_splits)
  show "fst (stats_Write w d l) = l'\<lparr>l_rw := fst (w_Write w d (l_rw l')),
        l_written := l_written l' + int (written w d (l_rw l'))\<rparr>"
    "fst (snd (stats_Write w d l)) = written w d (l_rw l')"
    by (simp_all add: stats_Write_def l'_def Let_def written_def split_beta)
  show "out (l_rw l') = (if l_wroteHeader l then out (l_rw l)
       else \<lparr>o_status = 200, o_header = w_Header w (l_rw l), o_body = []\<rparr>)"
    using assms by (auto simp: stats_ok_def stats_WriteHeader_def WriteHeader_fresh)
qed

lemma stats_Write_ok: "stats_ok l \<Longrightarrow> stats_ok (fst (stats_Write w d l))"
  using stats_Write_eq(1,2) [of l] stats_Write_eq(3) [of l d] ok_Write Write_count Write_more
  by (simp add: stats_ok_def min_absorb2 written_le)

lemma stats_Write_out:
  assumes "stats_ok l"
  shows "out (l_rw (fst (stats_Write w d l))) =
     (if o_status (out (l_rw l)) = 0
      then \<lparr>o_status = 200, o_header = w_Header w (l_rw l),
             o_body = take (fst (snd (stats_Write w d l))) d\<rparr>
      else (out (l_rw l))\<lparr>o_body := o_body (out (l_rw l)) @ take (fst (snd (stats_Write w d l))) d\<rparr>)"
  using stats_Write_eq(1,2,5) [OF assms] stats_Write_eq(3,4) [OF assms, of d] assms Write_more
  by (auto simp: stats_ok_def split: if_splits)

lemma stats_put_ok: "stats_ok l \<Longrightarrow> stats_ok (l\<lparr>l_rw := w_putHeader w h (l_rw l)\<rparr>)"
  by (simp add: stats_ok_def ok_putHeader out_putHeader)

lemma stats_WriteHeader_out:
  "stats_ok l \<Longrightarrow> out (l_rw (stats_WriteHeader w st l)) =
     (if o_status (out (l_rw l)) = 0
      then \<lparr>o_status = st, o_header = w_Header w (l_rw l), o_body = []\<rparr> else out (l_rw l))"
  by (simp add: stats_ok_def stats_WriteHeader_def WriteHeader_fresh)

lemma stats_fresh_body: "stats_ok l \<Longrightarrow> o_status (out (l_rw l)) = 0 \<Longrightarrow> o_body (out (l_rw l)) = []"
  by (simp add: stats_ok_def fresh_body)

end

sublocale stats_over \<subseteq> stats: plain_writer "stats_writer w" "\<lambda>l. out (l_rw l)" stats_ok
proof unfold_locales
  fix d l
  show "written (stats_writer w) d l \<le> length d"
    using written_le by (simp add: written_stats)
qed (simp_all add: stats_writer_def written_def stats_Write_out stats_Write_ok
    stats_put_ok stats_WriteHeader_ok stats_WriteHeader_out stats_fresh_body
    grows_def Header_putHeader out_putHeader)

interpretation counted_net: counting_reliable net_writer n_out "\<lambda>s. wire_ok (n_out s) \<and> n_room s = None"
  by unfold_locales

interpretation access: stats_over net_writer n_out "\<lambda>s. wire_ok (n_out s)"
  by unfold_locales

interpretation git_log: counting_over "stats_writer net_writer" "\<lambda>l. n_out (l_rw l)" access.stats_ok
  by unfold_locales


section \<open>Scrubbing hides the secret\<close>

lemma ci_literal_Cons_sound:
  assumes "ci_literal (c # p) s = Some (m, r)"
  shows "\<exists>m1 m2. m = m1 @ m2 \<and> s = m1 @ m2 @ r \<and> folds c m1 \<and> ci_literal p (m2 @ r) = Some (m2, r)"
proof -
  from assms obtain m1 s' m2 where f: "fold_char c s = Some (m1, s')"
    and l: "ci_literal p s' = Some (m2, r)" and m: "m = m1 @ m2"
    by (auto split: option.splits)
  then show ?thesis using fold_char_sound [OF f] ci_literal_split [OF l] by auto
qed

lemma ci_literal_Cons_complete:
  "folds c m1 \<Longrightarrow> ci_literal p (m2 @ r) = Some (m2, r) \<Longrightarrow>
     ci_literal (c # p) (m1 @ m2 @ r) = Some (m1 @ m2, r)"
  by (simp add: fold_char_complete)

lemma ci_literal_cong: "ci_literal p (m @ r) = Some (m, r) \<Longrightarrow> ci_literal p (m @ r') = Some (m, r')"
proof (induction p arbitrary: m)
  case Nil
  then show ?case by simp
next
  case (Cons c p)
  then obtain m1 m2 where "m = m1 @ m2" "folds c m1" "ci_literal p (m2 @ r) = Some (m2, r)"
    using ci_literal_Cons_sound by blast
  with Cons.IH show ?case by (metis append_assoc ci_literal_Cons_complete)
qed

text \<open>A sensitive parameter name, in any spelling the expression accepts.\<close>

definition sensitive_key :: "string \<Rightarrow> bool" where
  "sensitive_key k \<longleftrightarrow> (\<exists>p \<in> set scrub_keys. ci_literal p k = Some (k, []))"

lemma folds_no_eq: "folds c m \<Longrightarrow> c \<noteq> CHR ''='' \<Longrightarrow> CHR ''='' \<notin> set m"
  by (auto simp: folds_def ascii_lower_def)

lemma ci_literal_no_eq: "ci_literal p (m @ r) = Some (m, r) \<Longrightarrow> CHR ''='' \<notin> set p \<Longrightarrow> CHR ''='' \<notin> set m"
proof (induction p arbitrary: m)
  case Nil
  then show ?case by simp
next
  case (Cons c p)
  from Cons.prems(1) obtain m1 m2 where "m = m1 @ m2" "folds c m1" "ci_literal p (m2 @ r) = Some (m2, r)"
    using ci_literal_Cons_sound by blast
  with Cons show ?case by (auto dest: folds_no_eq)
qed


definition ascii :: "char \<Rightarrow> bool" where
  "ascii c \<longleftrightarrow> (of_char c :: nat) < 128"

lemma folds_det:
  assumes "folds c m" "folds c' m'" "m @ r = m' @ r'" "ascii c" "ascii c'"
  shows "c = c' \<and> m = m'"
  using assms unfolding folds_def ascii_def by (elim disjE conjE exE) auto

lemma ci_literal_det:
  assumes "ci_literal p s = Some (m, r)" "ci_literal p' s = Some (m', r')"
    and "list_all ascii p" "list_all ascii p'"
  shows "(prefix p p' \<or> prefix p' p) \<and> (p = p' \<longrightarrow> m = m')"
  using assms
proof (induction p arbitrary: s m p' m')
  case Nil
  then show ?case by auto
next
  case (Cons c p)
  show ?case
  proof (cases p')
    case Nil
    then show ?thesis by simp
  next
    case (Cons c' q)
    obtain m1 m2 where m: "m = m1 @ m2" "s = m1 @ m2 @ r" "folds c m1" "ci_literal p (m2 @ r) = Some (m2, r)"
      using ci_literal_Cons_sound [OF Cons.prems(1)] by blast
    obtain n1 n2 where n: "m' = n1 @ n2" "s = n1 @ n2 @ r'" "folds c' n1" "ci_literal q (n2 @ r') = Some (n2, r')"
      using ci_literal_Cons_sound Cons.prems(2) Cons by blast
    have eq: "c = c' \<and> m1 = n1"
      using m(2,3) n(2,3) Cons.prems(3,4) Cons by (intro folds_det [of c m1 c' n1 "m2 @ r" "n2 @ r'"]) auto
    then have "m2 @ r = n2 @ r'" using m(2) n(2) by simp
    then have "(prefix p q \<or> prefix q p) \<and> (p = q \<longrightarrow> m2 = n2)"
      using Cons.IH [OF m(4)] n(4) Cons.prems(3,4) Cons by auto
    then show ?thesis using eq m n Cons by auto
  qed
qed

lemma scrub_keys_ok:
  "list_all (list_all ascii) scrub_keys"
  "list_all (\<lambda>p. CHR ''='' \<notin> set p) scrub_keys"
  "list_all (\<lambda>p. list_all (\<lambda>q. prefix p q \<longrightarrow> p = q) scrub_keys) scrub_keys"
  "list_all (\<lambda>p. CHR ''&'' \<notin> set (tl p)) scrub_keys"
  by code_simp+

lemma ci_alternatives_Some:
  "p \<in> set ps \<Longrightarrow> ci_literal p s = Some x \<Longrightarrow> \<exists>y. ci_alternatives ps s = Some y"
  by (induction ps) (auto split: option.split)

lemma scrub_alternatives:
  "ci_alternatives scrub_keys s = Some (m, r) \<longleftrightarrow> s = m @ r \<and> sensitive_key m"
proof
  assume "ci_alternatives scrub_keys s = Some (m, r)"
  from ci_alternatives_split [OF this] obtain p where "s = m @ r" "p \<in> set scrub_keys"
    "ci_literal p s = Some (m, r)" by blast
  then show "s = m @ r \<and> sensitive_key m"
    using ci_literal_cong [of p m r "[]"] by (auto simp: sensitive_key_def)
next
  assume s: "s = m @ r \<and> sensitive_key m"
  then obtain p where p: "p \<in> set scrub_keys" "ci_literal p s = Some (m, r)"
    unfolding sensitive_key_def using ci_literal_cong [of _ m "[]" r] by auto
  then obtain m' r' where alt: "ci_alternatives scrub_keys s = Some (m', r')"
    using ci_alternatives_Some by fastforce
  from ci_alternatives_split [OF alt] obtain q where q: "q \<in> set scrub_keys"
    "ci_literal q s = Some (m', r')" "s = m' @ r'" by blast
  have "(prefix p q \<or> prefix q p) \<and> (p = q \<longrightarrow> m = m')"
    using ci_literal_det [OF p(2) q(2)] p(1) q(1) scrub_keys_ok(1) by (auto simp: list_all_iff)
  then have "m = m'" using scrub_keys_ok(3) p(1) q(1) by (auto simp: list_all_iff)
  with alt s q(3) show "ci_alternatives scrub_keys s = Some (m, r)" by simp
qed

lemma scrub_match_iff:
  "scrub_match s = Some (m, r) \<longleftrightarrow>
     (\<exists>post. s = m @ CHR ''='' # post \<and> sensitive_key m \<and> r = dropWhile (\<lambda>c. c \<noteq> CHR ''&'') post)"
  (is "?l \<longleftrightarrow> ?r")
proof
  assume ?l
  then obtain x where x: "ci_alternatives scrub_keys s = Some (m, CHR ''='' # x)"
    "r = dropWhile (\<lambda>c. c \<noteq> CHR ''&'') x"
    by (cases "ci_alternatives scrub_keys s")
      (auto simp: scrub_match_def split: list.splits char.splits bool.splits)
  then show ?r by (auto simp: scrub_alternatives)
next
  assume ?r
  then show ?l by (auto simp: scrub_match_def scrub_alternatives [THEN iffD2])
qed

lemma sensitive_key_no_eq: "sensitive_key m \<Longrightarrow> CHR ''='' \<notin> set m"
  using scrub_keys_ok(2) ci_literal_no_eq [of _ m "[]"] by (auto simp: sensitive_key_def list_all_iff)


lemma ScrubURLParams_None: "scrub_match (c # t) = None \<Longrightarrow> ScrubURLParams (c # t) = c # ScrubURLParams t"
  by (simp add: ScrubURLParams.simps [of "c # t"])

lemma first_separator: "x @ c # y = m @ c # z \<Longrightarrow> c \<notin> set x \<Longrightarrow> c \<notin> set m \<Longrightarrow> x = m \<and> y = z"
  by (metis append_same_eq list.inject same_append_eq takeWhile_neq_append)

lemma sensitive_key_amp:
  assumes "sensitive_key k"
  shows "k \<noteq> [] \<and> CHR ''&'' \<notin> set (tl k)"
proof -
  from assms obtain p where p: "p \<in> set scrub_keys" "ci_literal p k = Some (k, [])"
    by (auto simp: sensitive_key_def)
  have "p \<noteq> []" using p(1) by (auto simp: scrub_keys_def)
  then obtain c q where cq: "p = c # q" by (cases p) auto
  then obtain m1 m2 where m: "k = m1 @ m2" "folds c m1" "ci_literal q (m2 @ []) = Some (m2, [])"
    using ci_literal_Cons_sound [of c q k k "[]"] p(2) by auto
  have "CHR ''&'' \<notin> set q" using scrub_keys_ok(4) p(1) cq by (auto simp: list_all_iff)
  then have "CHR ''&'' \<notin> set m2"
    using m(3)
  proof (induction q arbitrary: m2)
    case Nil
    then show ?case by simp
  next
    case (Cons d q)
    obtain n1 n2 where "m2 = n1 @ n2" "folds d n1" "ci_literal q (n2 @ []) = Some (n2, [])"
      using ci_literal_Cons_sound [OF Cons.prems(2)] by auto
    with Cons show ?case by (auto simp: folds_def ascii_lower_def)
  qed
  with m show ?thesis by (auto simp: folds_def)
qed

lemma dropWhile_amp:
  assumes "CHR ''&'' \<notin> set v" "rest = [] \<or> hd rest = CHR ''&''"
  shows "dropWhile (\<lambda>c. c \<noteq> CHR ''&'') (v @ rest) = rest"
  using assms by (induction v) (auto, cases rest, auto)

lemma scrub_match_secret:
  assumes k: "sensitive_key k" and v: "CHR ''&'' \<notin> set v" "CHR ''&'' \<notin> set v'"
    and rest: "rest = [] \<or> hd rest = CHR ''&''"
    and m: "scrub_match (a @ k @ CHR ''='' # v @ rest) = Some (m, r)"
  shows "\<exists>r'. scrub_match (a @ k @ CHR ''='' # v' @ rest) = Some (m, r') \<and>
    (r' = r \<or> (\<exists>b. length b < length a \<and> r = b @ k @ CHR ''='' # v @ rest
                   \<and> r' = b @ k @ CHR ''='' # v' @ rest))"
proof -
  obtain post where post: "a @ k @ CHR ''='' # v @ rest = m @ CHR ''='' # post" "sensitive_key m"
    "r = dropWhile (\<lambda>c. c \<noteq> CHR ''&'') post"
    using m unfolding scrub_match_iff by blast
  note no_eq = sensitive_key_no_eq [OF k] sensitive_key_no_eq [OF post(2)]
  show ?thesis
  proof (cases "CHR ''='' \<in> set a")
    case False
    then have "a @ k = m" "v @ rest = post"
      using first_separator [of "a @ k" "CHR ''=''" "v @ rest" m post] post(1) no_eq by auto
    then have "r = rest" and "scrub_match (a @ k @ CHR ''='' # v' @ rest) = Some (m, rest)"
      using post(2,3) dropWhile_amp [OF v(1) rest] dropWhile_amp [OF v(2) rest, symmetric]
      by (auto simp: scrub_match_iff)
    then show ?thesis by blast
  next
    case True
    then obtain x b where a: "a = x @ CHR ''='' # b" "CHR ''='' \<notin> set x"
      by (meson split_list_first)
    then have mx: "x = m" "post = b @ k @ CHR ''='' # v @ rest"
      using first_separator [of x "CHR ''=''" "b @ k @ CHR ''='' # v @ rest" m post] post(1) no_eq by auto
    define r' where "r' = dropWhile (\<lambda>c. c \<noteq> CHR ''&'') (b @ k @ CHR ''='' # v' @ rest)"
    have m': "scrub_match (a @ k @ CHR ''='' # v' @ rest) = Some (m, r')"
      using post(2) mx a by (auto simp: scrub_match_iff r'_def)
    consider (inside) "CHR ''&'' \<in> set b" | (head) "CHR ''&'' \<notin> set b" "hd k = CHR ''&''"
      | (after) "CHR ''&'' \<notin> set b" "CHR ''&'' \<notin> set k"
      using sensitive_key_amp [OF k] by (cases k) auto
    then show ?thesis
    proof cases
      case inside
      then have "\<forall>y. dropWhile (\<lambda>c. c \<noteq> CHR ''&'') (b @ y) = dropWhile (\<lambda>c. c \<noteq> CHR ''&'') b @ y"
        by (simp add: dropWhile_append1)
      then show ?thesis using m' post(3) mx a length_dropWhile_le [of "\<lambda>c. c \<noteq> CHR ''&''" b]
        by (auto simp: r'_def)
    next
      case head
      then have "\<forall>y. dropWhile (\<lambda>c. c \<noteq> CHR ''&'') (b @ k @ y) = k @ y"
        using sensitive_key_amp [OF k] by (intro allI dropWhile_amp) (cases k, auto)
      then show ?thesis using m' post(3) mx a by (auto simp: r'_def intro!: exI [of _ "[]"])
    next
      case after
      then have "r = rest" "r' = rest"
        using dropWhile_amp [of "b @ k @ CHR ''='' # v" rest] dropWhile_amp [of "b @ k @ CHR ''='' # v'" rest]
          v rest post(3) mx by (auto simp: r'_def)
      with m' show ?thesis by blast
    qed
  qed
qed




definition sample_request :: request where
  "sample_request = \<lparr>req_Method = ''GET'',
     req_URL = \<lparr>url_Scheme = [], url_Host = [], url_Path = ''/'', url_RawQuery = []\<rparr>,
     req_RequestURI = ''/'', req_Header = [], req_Body = ([], None), req_ContentLength = 0,
     req_Host = ''localhost'', req_RemoteAddr = ''127.0.0.1:4000'', req_ProtoMajor = 1, req_ProtoMinor = 1\<rparr>"


end
