(* ===== verification/Channel.thy ===== *)
theory Channel
  imports Prelude
begin

text \<open>
  Buffered Go channels and the argument the program's uses of them share. A send that finds
  the buffer full and a receive that finds it empty are not possible (\<open>None\<close>): a blocking
  operation waits until they are, a \<open>select\<close> with a default takes the default.

  The locale \<open>slot_protocol\<close> is the interface between a channel used as a pool of slots and
  the processes that use it: a process that enters a holding phase sends, one that leaves it
  receives. What follows is that the buffer counts the holders, so that there are never more
  holders than the capacity and a holder that gives its slot back never blocks.
\<close>

record 'a chan =
  ch_cap :: nat
  ch_buf :: "'a list"

definition make_chan :: "nat \<Rightarrow> 'a chan" where
  "make_chan n = \<lparr>ch_cap = n, ch_buf = []\<rparr>"

definition ch_send :: "'a \<Rightarrow> 'a chan \<Rightarrow> 'a chan option" where
  "ch_send v c = (if length (ch_buf c) < ch_cap c then Some (c\<lparr>ch_buf := ch_buf c @ [v]\<rparr>) else None)"

definition ch_recv :: "'a chan \<Rightarrow> ('a \<times> 'a chan) option" where
  "ch_recv c = (case ch_buf c of [] \<Rightarrow> None | v # vs \<Rightarrow> Some (v, c\<lparr>ch_buf := vs\<rparr>))"

lemma make_chan_simps [simp]: "ch_cap (make_chan n) = n" "ch_buf (make_chan n) = []"
  by (simp_all add: make_chan_def)

lemma ch_send_SomeD:
  "ch_send v c = Some c' \<Longrightarrow> ch_cap c' = ch_cap c \<and> ch_buf c' = ch_buf c @ [v] \<and> length (ch_buf c) < ch_cap c"
  by (auto simp: ch_send_def split: if_splits)

lemma ch_send_None: "ch_send v c = None \<longleftrightarrow> ch_cap c \<le> length (ch_buf c)"
  by (auto simp: ch_send_def)

lemma ch_recv_SomeD:
  "ch_recv c = Some (v, c') \<Longrightarrow> ch_cap c' = ch_cap c \<and> ch_buf c = v # ch_buf c'"
  by (auto simp: ch_recv_def split: list.splits)

lemma ch_recv_None: "ch_recv c = None \<longleftrightarrow> ch_buf c = []"
  by (auto simp: ch_recv_def split: list.splits)

section \<open>Counting the processes in a phase\<close>

definition holders :: "('p \<Rightarrow> bool) \<Rightarrow> (nat \<Rightarrow> 'p) \<Rightarrow> nat set" where
  "holders P f = {i. P (f i)}"

lemma finite_holders:
  assumes "finite {i. f i \<noteq> d}" "\<not> P d"
  shows "finite (holders P f)"
  by (rule finite_subset [OF _ assms(1)]) (use assms(2) in \<open>auto simp: holders_def\<close>)

lemma finite_phase_upd: "finite {j. f j \<noteq> d} \<Longrightarrow> finite {j. (f(i := p)) j \<noteq> d}"
  by (rule finite_subset [of _ "insert i {j. f j \<noteq> d}"]) auto

lemma holders_upd_in: "P p \<Longrightarrow> holders P (f(i := p)) = insert i (holders P f)"
  by (auto simp: holders_def)

lemma holders_upd_out: "\<not> P p \<Longrightarrow> holders P (f(i := p)) = holders P f - {i}"
  by (auto simp: holders_def)

lemma holders_upd_same: "P p = P (f i) \<Longrightarrow> holders P (f(i := p)) = holders P f"
  by (auto simp: holders_def)

lemma in_holders [simp]: "i \<in> holders P f \<longleftrightarrow> P (f i)"
  by (simp add: holders_def)

section \<open>A channel as a pool of slots\<close>

locale slot_protocol =
  fixes start :: "'s \<Rightarrow> bool"
    and step :: "'s \<Rightarrow> 's \<Rightarrow> bool"
    and chan :: "'s \<Rightarrow> 'a chan"
    and phase :: "'s \<Rightarrow> nat \<Rightarrow> 'p"
    and holds :: "'p \<Rightarrow> bool"
    and idle :: 'p
  assumes start_empty: "start s \<Longrightarrow> ch_buf (chan s) = [] \<and> (\<forall>i. phase s i = idle)"
    and idle_free: "\<not> holds idle"
    and step_slot: "step s t \<Longrightarrow> \<exists>i p. phase t = (phase s)(i := p) \<and>
      (holds p = holds (phase s i) \<and> chan t = chan s \<or>
       \<not> holds (phase s i) \<and> holds p \<and> (\<exists>v. ch_send v (chan s) = Some (chan t)) \<or>
       holds (phase s i) \<and> \<not> holds p \<and> (\<exists>v. ch_recv (chan s) = Some (v, chan t)))"
begin

definition slots_ok :: "'s \<Rightarrow> bool" where
  "slots_ok s \<longleftrightarrow> finite {i. phase s i \<noteq> idle} \<and>
     length (ch_buf (chan s)) = card (holders holds (phase s)) \<and> length (ch_buf (chan s)) \<le> ch_cap (chan s)"

lemma start_slots_ok: "start s \<Longrightarrow> slots_ok s"
  using start_empty [of s] idle_free by (auto simp: slots_ok_def holders_def)

lemma step_slots_ok:
  assumes "step s t" "slots_ok s"
  shows "slots_ok t"
proof -
  from step_slot [OF assms(1)] obtain i p where ph: "phase t = (phase s)(i := p)" and
    c: "holds p = holds (phase s i) \<and> chan t = chan s \<or>
       \<not> holds (phase s i) \<and> holds p \<and> (\<exists>v. ch_send v (chan s) = Some (chan t)) \<or>
       holds (phase s i) \<and> \<not> holds p \<and> (\<exists>v. ch_recv (chan s) = Some (v, chan t))" by blast
  have "{j. phase t j \<noteq> idle} \<subseteq> insert i {j. phase s j \<noteq> idle}" by (auto simp: ph)
  then have fin: "finite {j. phase t j \<noteq> idle}"
    using assms(2) unfolding slots_ok_def by (auto intro: finite_subset)
  have finh: "finite (holders holds (phase s))"
    using assms(2) finite_holders [where d = idle and P = holds, OF _ idle_free] by (auto simp: slots_ok_def)
  from c show ?thesis
  proof (elim disjE conjE exE)
    assume "holds p = holds (phase s i)" "chan t = chan s"
    then show ?thesis using fin assms(2) by (simp add: slots_ok_def ph holders_upd_same)
  next
    fix v assume "\<not> holds (phase s i)" "holds p" "ch_send v (chan s) = Some (chan t)"
    then show ?thesis using fin finh assms(2)
      by (auto simp: slots_ok_def ph holders_upd_in dest: ch_send_SomeD)
  next
    fix v assume h: "holds (phase s i)" "\<not> holds p" "ch_recv (chan s) = Some (v, chan t)"
    then have "card (holders holds (phase s) - {i}) = card (holders holds (phase s)) - 1" by simp
    moreover have "ch_buf (chan s) = v # ch_buf (chan t)" "ch_cap (chan t) = ch_cap (chan s)"
      using ch_recv_SomeD [OF h(3)] by auto
    ultimately show ?thesis using fin assms(2) h by (auto simp: slots_ok_def ph holders_upd_out)
  qed
qed

lemma run_slots_ok: "start s \<Longrightarrow> step\<^sup>*\<^sup>* s t \<Longrightarrow> slots_ok t"
  by (rotate_tac, induction rule: rtranclp_induct) (auto intro: start_slots_ok step_slots_ok)

lemma run_bounded: "start s \<Longrightarrow> step\<^sup>*\<^sup>* s t \<Longrightarrow> card (holders holds (phase t)) \<le> ch_cap (chan t)"
  using run_slots_ok by (fastforce simp: slots_ok_def)

lemma run_buffer: "start s \<Longrightarrow> step\<^sup>*\<^sup>* s t \<Longrightarrow> length (ch_buf (chan t)) = card (holders holds (phase t))"
  using run_slots_ok by (fastforce simp: slots_ok_def)

lemma run_finite: "start s \<Longrightarrow> step\<^sup>*\<^sup>* s t \<Longrightarrow> finite {i. phase t i \<noteq> idle}"
  using run_slots_ok by (fastforce simp: slots_ok_def)

lemma holder_can_recv:
  assumes "start s" "step\<^sup>*\<^sup>* s t" "holds (phase t i)"
  shows "\<exists>v c. ch_recv (chan t) = Some (v, c)"
proof -
  have "slots_ok t" using assms run_slots_ok by blast
  then have "card (holders holds (phase t)) \<noteq> 0"
    using assms(3) finite_holders [where d = idle and P = holds, OF _ idle_free] by (auto simp: slots_ok_def)
  then have "ch_buf (chan t) \<noteq> []" using \<open>slots_ok t\<close> by (auto simp: slots_ok_def)
  then show ?thesis by (auto simp: ch_recv_def split: list.splits)
qed

end

end
