(* ===== verification/Key_Watcher.thy ===== *)
theory Key_Watcher
  imports Channel
begin

text \<open>
  \<open>internal/redis/keywatcher.go\<close>: long polling on Redis keys. \<open>WatchKey\<close> registers a channel
  for its key, looks the key up, and waits for the notification loop (\<open>processInner\<close>) to send
  the new value, or for its timeout.

  The Go map from keys to channels and the channels themselves are explicit: a channel is an
  address, and \<open>kw_chans\<close> is the store. One call of \<open>WatchKey\<close> makes one channel, so calls and
  channels share their numbers. \<open>keyWatcherMutex\<close> makes each registry operation one step;
  \<open>watch_step\<close> interleaves any number of calls with the notification loop. The fields \<open>log\<close> and
  \<open>since\<close> record the notifications made and how many there were when a call registered; no
  operation reads them.
\<close>

section \<open>The registry\<close>

record keywatcher =
  keyWatcher :: "string \<Rightarrow> nat list option"
  keyWatchers :: int
  totalMessages :: nat
  kw_chans :: "nat \<Rightarrow> string chan"

record KeyChan =
  kc_Key :: string
  kc_Chan :: nat

definition addKeyChan :: "KeyChan \<Rightarrow> keywatcher \<Rightarrow> keywatcher" where
  "addKeyChan kc s =
     s\<lparr>keyWatcher := (keyWatcher s)(kc_Key kc \<mapsto>
          (case keyWatcher s (kc_Key kc) of None \<Rightarrow> [] | Some cs \<Rightarrow> cs) @ [kc_Chan kc]),
       keyWatchers := keyWatchers s + 1\<rparr>"

definition delKeyChan :: "KeyChan \<Rightarrow> keywatcher \<Rightarrow> keywatcher" where
  "delKeyChan kc s =
     (case keyWatcher s (kc_Key kc) of
        None \<Rightarrow> s
      | Some chans \<Rightarrow>
          let s = (if kc_Chan kc \<in> set chans
                   then s\<lparr>keyWatcher := (keyWatcher s)(kc_Key kc \<mapsto> remove1 (kc_Chan kc) chans),
                          keyWatchers := keyWatchers s - 1\<rparr>
                   else s)
          in if keyWatcher s (kc_Key kc) = Some []
             then s\<lparr>keyWatcher := (keyWatcher s)(kc_Key kc := None)\<rparr> else s)"

text \<open>The sends of \<open>notifyChanWatchers\<close>; \<open>None\<close>: a send blocks, with the mutex held.\<close>

fun send_all :: "nat list \<Rightarrow> string \<Rightarrow> keywatcher \<Rightarrow> keywatcher option" where
  "send_all [] value s = Some s"
| "send_all (c # cs) value s =
     (case ch_send value (kw_chans s c) of
        None \<Rightarrow> None
      | Some ch \<Rightarrow> send_all cs value
          (s\<lparr>kw_chans := (kw_chans s)(c := ch), keyWatchers := keyWatchers s - 1\<rparr>))"

definition notifyChanWatchers :: "string \<Rightarrow> string \<Rightarrow> keywatcher \<Rightarrow> keywatcher option" where
  "notifyChanWatchers key value s =
     (case keyWatcher s key of
        None \<Rightarrow> Some s
      | Some chanList \<Rightarrow>
          map_option (\<lambda>s. s\<lparr>keyWatcher := (keyWatcher s)(key := None)\<rparr>) (send_all chanList value s))"

section \<open>The notification loop\<close>

text \<open>What \<open>psc.Receive\<close> returns: the loop ignores everything but messages and errors.\<close>

datatype pubsub = Message string | Receive_error gerror | Subscription

text \<open>
  The loop of \<open>processInner\<close> over the values it receives, up to the first error. The result also
  says whether the loop has returned; \<open>None\<close>: it is blocked in a send.
\<close>

fun process_messages :: "pubsub list \<Rightarrow> keywatcher \<Rightarrow> (keywatcher \<times> bool) option" where
  "process_messages [] s = Some (s, False)"
| "process_messages (Subscription # ms) s = process_messages ms s"
| "process_messages (Receive_error e # ms) s = Some (s, True)"
| "process_messages (Message dataStr # ms) s =
     (let s = s\<lparr>totalMessages := Suc (totalMessages s)\<rparr> in
      case SplitN2 dataStr (CHR ''='') of
        [key, value] \<Rightarrow>
          (case notifyChanWatchers key value s of None \<Rightarrow> None | Some s' \<Rightarrow> process_messages ms s')
      | _ \<Rightarrow> process_messages ms s)"

definition processInner :: "gerror option \<Rightarrow> pubsub list \<Rightarrow> keywatcher \<Rightarrow> (keywatcher \<times> bool \<times> gerror option) option" where
  "processInner subscribe_err received s =
     (case subscribe_err of
        Some e \<Rightarrow> Some (s, True, Some e)
      | None \<Rightarrow> map_option (\<lambda>(s, returned). (s, returned, None)) (process_messages received s))"

section \<open>WatchKey\<close>

datatype WatchKeyStatus =
    WatchKeyStatusTimeout
  | WatchKeyStatusAlreadyChanged
  | WatchKeyStatusSeenChange
  | WatchKeyStatusNoChange

type_synonym watch_result = "WatchKeyStatus \<times> gerror option"

text \<open>After the lookup: \<open>Inl\<close> a result to return, \<open>Inr\<close> to go on and wait.\<close>

definition after_get :: "string \<Rightarrow> string result \<Rightarrow> watch_result + unit" where
  "after_get value got =
     (case got of
        Inl err \<Rightarrow> Inl (WatchKeyStatusNoChange, Some (wrap_err ''keywatcher: redis GET: '' err))
      | Inr currentValue \<Rightarrow>
          if currentValue \<noteq> value then Inl (WatchKeyStatusAlreadyChanged, None) else Inr ())"

definition after_notify :: "string \<Rightarrow> string \<Rightarrow> watch_result" where
  "after_notify value currentValue =
     (if currentValue = [] then (WatchKeyStatusNoChange, Some (Errorf ''keywatcher: redis GET failed''))
      else if currentValue = value then (WatchKeyStatusNoChange, None)
      else (WatchKeyStatusSeenChange, None))"

datatype call_phase =
    Not_called
  | Registered string string            \<comment> \<open>key and value; the lookup is next\<close>
  | Waiting string string               \<comment> \<open>in the \<open>select\<close>\<close>
  | Returning string string watch_result \<comment> \<open>the result is set, the deferred \<open>delKeyChan\<close> is next\<close>
  | Returned string string watch_result

record watch_sys =
  kw :: keywatcher
  calls :: "nat \<Rightarrow> call_phase"
  log :: "(string \<times> string) list"
  since :: "nat \<Rightarrow> nat"

inductive watch_step :: "watch_sys \<Rightarrow> watch_sys \<Rightarrow> bool" where
  call: "calls s i = Not_called \<Longrightarrow>
    k = addKeyChan \<lparr>kc_Key = key, kc_Chan = i\<rparr>
          ((kw s)\<lparr>kw_chans := (kw_chans (kw s))(i := make_chan 1)\<rparr>) \<Longrightarrow>
    watch_step s (s\<lparr>kw := k, calls := (calls s)(i := Registered key value),
      since := (since s)(i := length (log s))\<rparr>)"
| get_done: "calls s i = Registered key value \<Longrightarrow> after_get value got = Inl res \<Longrightarrow>
    watch_step s (s\<lparr>calls := (calls s)(i := Returning key value res)\<rparr>)"
| get_same: "calls s i = Registered key value \<Longrightarrow> after_get value got = Inr () \<Longrightarrow>
    watch_step s (s\<lparr>calls := (calls s)(i := Waiting key value)\<rparr>)"
| receive: "calls s i = Waiting key value \<Longrightarrow> ch_recv (kw_chans (kw s) i) = Some (v, ch) \<Longrightarrow>
    watch_step s (s\<lparr>kw := (kw s)\<lparr>kw_chans := (kw_chans (kw s))(i := ch)\<rparr>,
      calls := (calls s)(i := Returning key value (after_notify value v))\<rparr>)"
| timeout: "calls s i = Waiting key value \<Longrightarrow>
    watch_step s (s\<lparr>calls := (calls s)(i := Returning key value (WatchKeyStatusTimeout, None))\<rparr>)"
| deferred: "calls s i = Returning key value res \<Longrightarrow>
    watch_step s (s\<lparr>kw := delKeyChan \<lparr>kc_Key = key, kc_Chan = i\<rparr> (kw s),
      calls := (calls s)(i := Returned key value res)\<rparr>)"
| notify: "notifyChanWatchers key v (kw s) = Some k \<Longrightarrow>
    watch_step s (s\<lparr>kw := k, log := log s @ [(key, v)]\<rparr>)"

definition watch_start :: watch_sys where
  "watch_start = \<lparr>kw = \<lparr>keyWatcher = Map.empty, keyWatchers = 0, totalMessages = 0, kw_chans = (\<lambda>_. make_chan 0)\<rparr>,
     calls = (\<lambda>_. Not_called), log = [], since = (\<lambda>_. 0)\<rparr>"

abbreviation watch_reach :: "watch_sys \<Rightarrow> bool" where
  "watch_reach s \<equiv> watch_step\<^sup>*\<^sup>* watch_start s"

section \<open>The registry as a map from keys to channels\<close>

definition watchers :: "keywatcher \<Rightarrow> string \<Rightarrow> nat list" where
  "watchers s key = (case keyWatcher s key of None \<Rightarrow> [] | Some cs \<Rightarrow> cs)"

lemma watchers_frame [simp]:
  "watchers (s\<lparr>kw_chans := x\<rparr>) = watchers s" "watchers (s\<lparr>totalMessages := n\<rparr>) = watchers s"
  by (simp_all add: watchers_def fun_eq_iff)

lemma watchers_add:
  "watchers (addKeyChan kc s) = (watchers s)(kc_Key kc := watchers s (kc_Key kc) @ [kc_Chan kc])"
  by (auto simp: watchers_def addKeyChan_def fun_eq_iff)

lemma watchers_del:
  "watchers (delKeyChan kc s) = (watchers s)(kc_Key kc := remove1 (kc_Chan kc) (watchers s (kc_Key kc)))"
  by (auto simp: watchers_def delKeyChan_def fun_eq_iff Let_def remove1_idem split: option.split)

lemma kw_chans_registry [simp]:
  "kw_chans (addKeyChan kc s) = kw_chans s" "kw_chans (delKeyChan kc s) = kw_chans s"
  by (auto simp: addKeyChan_def delKeyChan_def Let_def split: option.split)

lemma keyWatchers_add [simp]: "keyWatchers (addKeyChan kc s) = keyWatchers s + 1"
  by (simp add: addKeyChan_def)

lemma keyWatchers_del:
  "keyWatchers (delKeyChan kc s) =
     keyWatchers s - (if kc_Chan kc \<in> set (watchers s (kc_Key kc)) then 1 else 0)"
  by (auto simp: delKeyChan_def watchers_def Let_def split: option.split)

lemma no_empty_list:
  "Some [] \<notin> range (keyWatcher s) \<Longrightarrow> Some [] \<notin> range (keyWatcher (delKeyChan kc s))"
  by (auto simp: delKeyChan_def Let_def split: option.split if_splits)

lemma send_all_Some:
  "distinct cs \<Longrightarrow> \<forall>c \<in> set cs. ch_buf (kw_chans s c) = [] \<and> ch_cap (kw_chans s c) = 1 \<Longrightarrow>
   send_all cs v s = Some (s\<lparr>kw_chans := (\<lambda>c. if c \<in> set cs then (kw_chans s c)\<lparr>ch_buf := [v]\<rparr> else kw_chans s c),
     keyWatchers := keyWatchers s - int (length cs)\<rparr>)"
proof (induction cs arbitrary: s)
  case Nil
  then show ?case by simp
next
  case (Cons c cs)
  let ?s = "s\<lparr>kw_chans := (kw_chans s)(c := (kw_chans s c)\<lparr>ch_buf := [v]\<rparr>), keyWatchers := keyWatchers s - 1\<rparr>"
  have "send_all (c # cs) v s = send_all cs v ?s"
    using Cons.prems by (simp add: ch_send_def)
  also have "\<dots> = Some (?s\<lparr>kw_chans := (\<lambda>d. if d \<in> set cs then (kw_chans ?s d)\<lparr>ch_buf := [v]\<rparr> else kw_chans ?s d),
     keyWatchers := keyWatchers ?s - int (length cs)\<rparr>)"
    using Cons.prems by (intro Cons.IH) auto
  finally show ?case using Cons.prems by (auto simp: fun_eq_iff intro!: ext arg_cong2 [where f = "\<lambda>x y. s\<lparr>kw_chans := x, keyWatchers := y\<rparr>"])
qed

lemma notify_Some:
  assumes "distinct (watchers s key)"
    and "\<forall>c \<in> set (watchers s key). ch_buf (kw_chans s c) = [] \<and> ch_cap (kw_chans s c) = 1"
  shows "\<exists>s'. notifyChanWatchers key v s = Some s' \<and>
     watchers s' = (watchers s)(key := []) \<and>
     kw_chans s' = (\<lambda>c. if c \<in> set (watchers s key) then (kw_chans s c)\<lparr>ch_buf := [v]\<rparr> else kw_chans s c) \<and>
     keyWatchers s' = keyWatchers s - int (length (watchers s key)) \<and>
     keyWatcher s' = (keyWatcher s)(key := None)"
proof (cases "keyWatcher s key")
  case None
  then show ?thesis
    by (auto simp: notifyChanWatchers_def watchers_def fun_eq_iff)
next
  case (Some cs)
  then show ?thesis
    using assms send_all_Some [of cs s v] by (auto simp: notifyChanWatchers_def watchers_def fun_eq_iff)
qed


section \<open>What every run keeps\<close>

fun live_key :: "call_phase \<Rightarrow> string option" where
  "live_key (Registered k v) = Some k"
| "live_key (Waiting k v) = Some k"
| "live_key (Returning k v r) = Some k"
| "live_key _ = None"

text \<open>The values notified for a key since call \<open>i\<close> registered.\<close>

definition seen :: "watch_sys \<Rightarrow> nat \<Rightarrow> string \<Rightarrow> string list" where
  "seen s i key = map snd (filter (\<lambda>(k, _). k = key) (drop (since s i) (log s)))"

definition registry_ok :: "watch_sys \<Rightarrow> bool" where
  "registry_ok s \<longleftrightarrow> Some [] \<notin> range (keyWatcher (kw s)) \<and>
     (\<forall>k. distinct (watchers (kw s) k)) \<and>
     (\<forall>k. \<forall>i \<in> set (watchers (kw s) k). live_key (calls s i) = Some k \<and>
        ch_buf (kw_chans (kw s) i) = [] \<and> ch_cap (kw_chans (kw s) i) = 1)"

definition gauge_ok :: "watch_sys \<Rightarrow> bool" where
  "gauge_ok s \<longleftrightarrow> finite {i. calls s i \<noteq> Not_called} \<and>
     keyWatchers (kw s) = int (card {i. \<exists>k. i \<in> set (watchers (kw s) k)})"

definition pending_ok :: "watch_sys \<Rightarrow> bool" where
  "pending_ok s \<longleftrightarrow> (\<forall>i key value. calls s i \<in> {Registered key value, Waiting key value} \<longrightarrow>
     since s i \<le> length (log s) \<and>
     (i \<in> set (watchers (kw s) key) \<longleftrightarrow> seen s i key = []) \<and>
     ch_buf (kw_chans (kw s) i) = take 1 (seen s i key))"

definition results_ok :: "watch_sys \<Rightarrow> bool" where
  "results_ok s \<longleftrightarrow> (\<forall>i key value e. calls s i \<in> {Returning key value (WatchKeyStatusSeenChange, e),
       Returned key value (WatchKeyStatusSeenChange, e)} \<longrightarrow>
     since s i \<le> length (log s) \<and> (\<exists>v \<in> set (seen s i key). v \<noteq> value \<and> v \<noteq> []))"

definition watch_inv :: "watch_sys \<Rightarrow> bool" where
  "watch_inv s \<longleftrightarrow> registry_ok s \<and> gauge_ok s \<and> pending_ok s \<and> results_ok s"

lemma notify_registry:
  assumes "registry_ok s" "notifyChanWatchers key v (kw s) = Some k"
  shows "watchers k = (watchers (kw s))(key := [])"
    and "kw_chans k = (\<lambda>c. if c \<in> set (watchers (kw s) key) then (kw_chans (kw s) c)\<lparr>ch_buf := [v]\<rparr> else kw_chans (kw s) c)"
    and "keyWatchers k = keyWatchers (kw s) - int (length (watchers (kw s) key))"
    and "keyWatcher k = (keyWatcher (kw s))(key := None)"
  using assms notify_Some [of "kw s" key v] by (auto simp: registry_ok_def)

lemma unregistered: "registry_ok s \<Longrightarrow> live_key (calls s i) = None \<Longrightarrow> i \<notin> set (watchers (kw s) k)"
  by (fastforce simp: registry_ok_def)

lemma registered_key: "registry_ok s \<Longrightarrow> i \<in> set (watchers (kw s) k) \<Longrightarrow> live_key (calls s i) = Some k"
  by (simp add: registry_ok_def)

lemma one_key: "registry_ok s \<Longrightarrow> i \<in> set (watchers (kw s) k) \<Longrightarrow> i \<in> set (watchers (kw s) k') \<Longrightarrow> k = k'"
  using registered_key by (metis option.inject)

lemma registry_ok_phase:
  assumes "registry_ok s" "live_key p = live_key (calls s i)"
  shows "registry_ok (s\<lparr>calls := (calls s)(i := p)\<rparr>)"
  using assms by (auto simp: registry_ok_def)

lemma step_registry_ok: "watch_step s t \<Longrightarrow> registry_ok s \<Longrightarrow> pending_ok s \<Longrightarrow> registry_ok t"
proof (induction rule: watch_step.induct)
  case (call s i k key "value")
  have "i \<notin> set (watchers (kw s) k')" for k'
    using unregistered call by simp
  moreover have "Some [] \<notin> range (keyWatcher k)"
    using call by (auto simp: registry_ok_def addKeyChan_def split: if_splits)
  moreover have "watchers k = (watchers (kw s))(key := watchers (kw s) key @ [i])"
    using call by (simp add: watchers_add)
  moreover have "kw_chans k = (kw_chans (kw s))(i := make_chan 1)"
    using call by simp
  ultimately show ?case
    using call(3) unfolding registry_ok_def by (auto simp: fun_upd_apply split: if_splits)
next
  case (get_done s i key "value" got res)
  then show ?case by (simp add: registry_ok_phase)
next
  case (get_same s i key "value" got)
  then show ?case by (simp add: registry_ok_phase)
next
  case (receive s i key "value" v ch)
  have "i \<notin> set (watchers (kw s) k)" for k
    using receive ch_recv_SomeD [OF receive(2)] by (auto simp: registry_ok_def)
  then show ?case using receive(1,3) by (auto simp: registry_ok_def watchers_def)
next
  case (timeout s i key "value")
  then show ?case by (simp add: registry_ok_phase)
next
  case (deferred s i key "value" res)
  have "live_key (calls s i) = Some key" using deferred by simp
  then have "i \<in> set (watchers (kw s) k) \<Longrightarrow> k = key" for k
    using registered_key [OF deferred(2)] by fastforce
  then show ?case using deferred no_empty_list [of "kw s"]
    unfolding registry_ok_def by (auto simp: watchers_del dest: notin_set_remove1 split: if_splits)
next
  case (notify key v s k)
  note n = notify_registry [OF notify(2,1)]
  have "i \<notin> set (watchers (kw s) key)" if "i \<in> set (watchers (kw s) k')" "k' \<noteq> key" for i k'
    using that one_key [OF notify(2)] by blast
  then show ?case using notify(2) unfolding registry_ok_def n
    by (auto simp: n split: if_splits)
qed


lemma finite_registered:
  assumes "registry_ok s" "gauge_ok s"
  shows "finite {j. \<exists>k. j \<in> set (watchers (kw s) k)}"
proof (rule finite_subset)
  show "{j. \<exists>k. j \<in> set (watchers (kw s) k)} \<subseteq> {j. calls s j \<noteq> Not_called}"
    using registered_key [OF assms(1)] by force
  show "finite {j. calls s j \<noteq> Not_called}" using assms(2) by (simp add: gauge_ok_def)
qed

lemma step_gauge_ok: "watch_step s t \<Longrightarrow> registry_ok s \<Longrightarrow> gauge_ok s \<Longrightarrow> gauge_ok t"
proof (induction rule: watch_step.induct)
  case (call s i k key "value")
  have i: "i \<notin> set (watchers (kw s) k')" for k'
    using unregistered call by simp
  have w: "watchers k = (watchers (kw s))(key := watchers (kw s) key @ [i])"
    using call by (simp add: watchers_add)
  have "{j. \<exists>k'. j \<in> set (watchers k k')} = insert i {j. \<exists>k'. j \<in> set (watchers (kw s) k')}"
    by (auto simp: w split: if_splits)
  moreover have "finite {j. \<exists>k'. j \<in> set (watchers (kw s) k')}"
    using call(3,4) by (rule finite_registered)
  moreover have "finite {j. ((calls s)(i := Registered key value)) j \<noteq> Not_called}"
    using call(4) by (intro finite_phase_upd) (simp add: gauge_ok_def)
  ultimately show ?case using call(2,4) i unfolding gauge_ok_def by simp
next
  case (deferred s i key "value" res)
  have "live_key (calls s i) = Some key" using deferred by simp
  then have only: "i \<in> set (watchers (kw s) k) \<Longrightarrow> k = key" for k
    using registered_key [OF deferred(2)] by fastforce
  have fin: "finite {j. \<exists>k'. j \<in> set (watchers (kw s) k')}"
    using deferred(2,3) by (rule finite_registered)
  let ?w = "watchers (delKeyChan \<lparr>kc_Key = key, kc_Chan = i\<rparr> (kw s))"
  have "{j. \<exists>k'. j \<in> set (?w k')} = {j. \<exists>k'. j \<in> set (watchers (kw s) k')} - {i}"
    (is "?L = ?R")
  proof (intro equalityI subsetI)
    fix j assume "j \<in> ?L"
    then show "j \<in> ?R" using deferred(2) only
      by (auto simp: watchers_del registry_ok_def dest: notin_set_remove1 split: if_splits)
  next
    fix j assume "j \<in> ?R"
    then obtain k' where "j \<in> set (watchers (kw s) k')" "j \<noteq> i" by auto
    then have "j \<in> set (?w k')" by (auto simp: watchers_del)
    then show "j \<in> ?L" by blast
  qed
  moreover have "i \<in> {j. \<exists>k'. j \<in> set (watchers (kw s) k')} \<longleftrightarrow> i \<in> set (watchers (kw s) key)"
    using only by auto
  moreover have "finite {j. ((calls s)(i := Returned key value res)) j \<noteq> Not_called}"
    using deferred(3) by (intro finite_phase_upd) (simp add: gauge_ok_def)
  ultimately show ?case using deferred(3) fin card_Suc_Diff1 [OF fin, of i]
    unfolding gauge_ok_def by (auto simp: keyWatchers_del)
next
  case (notify key v s k)
  note n = notify_registry [OF notify(2,1)]
  have only: "j \<in> set (watchers (kw s) key) \<Longrightarrow> j \<in> set (watchers (kw s) k') \<Longrightarrow> k' = key" for j k'
    using one_key [OF notify(2)] by blast
  have "{j. \<exists>k'. j \<in> set (watchers k k')} =
      {j. \<exists>k'. j \<in> set (watchers (kw s) k')} - set (watchers (kw s) key)" (is "?L = ?R")
  proof (intro equalityI subsetI)
    fix j assume "j \<in> ?L"
    then show "j \<in> ?R" using only by (auto simp: n split: if_splits)
  next
    fix j assume "j \<in> ?R"
    then obtain k' where "j \<in> set (watchers (kw s) k')" "k' \<noteq> key" by auto
    then have "j \<in> set (watchers k k')" by (simp add: n)
    then show "j \<in> ?L" by blast
  qed
  moreover have "card (set (watchers (kw s) key)) = length (watchers (kw s) key)"
    using notify(2) by (simp add: registry_ok_def distinct_card)
  moreover have "finite {j. \<exists>k'. j \<in> set (watchers (kw s) k')}"
    using notify(2,3) by (rule finite_registered)
  moreover have "set (watchers (kw s) key) \<subseteq> {j. \<exists>k'. j \<in> set (watchers (kw s) k')}" by auto
  ultimately show ?case using notify(3) n card_mono [of _ "set (watchers (kw s) key)"]
    by (simp add: gauge_ok_def card_Diff_subset of_nat_diff)
qed (auto simp: gauge_ok_def simp del: fun_upd_apply intro: finite_phase_upd)

lemma seen_simps [simp]:
  "seen (s\<lparr>kw := k\<rparr>) i key = seen s i key"
  "seen (s\<lparr>calls := c\<rparr>) i key = seen s i key"
  by (simp_all add: seen_def)

lemma seen_notify:
  "since s i \<le> length (log s) \<Longrightarrow>
   seen (s\<lparr>kw := k, log := log s @ [(key, v)]\<rparr>) i key' = seen s i key' @ (if key' = key then [v] else [])"
  by (simp add: seen_def)

lemma step_results_ok: "watch_step s t \<Longrightarrow> pending_ok s \<Longrightarrow> results_ok s \<Longrightarrow> results_ok t"
proof (induction rule: watch_step.induct)
  case (call s i k key "value")
  then show ?case by (auto simp: results_ok_def seen_def)
next
  case (get_done s i key "value" got res)
  then show ?case by (auto simp: results_ok_def after_get_def split: sum.splits if_splits)
next
  case (receive s i key "value" v ch)
  have "since s i \<le> length (log s) \<and> v \<in> set (seen s i key)"
    using receive(1,3) ch_recv_SomeD [OF receive(2)]
    by (auto simp: pending_ok_def take_Suc split: list.splits) (cases "seen s i key"; force)+
  then show ?case using receive(4)
    by (auto simp: results_ok_def after_notify_def split: if_splits)
next
  case (notify key v s k)
  then show ?case by (fastforce simp: results_ok_def seen_notify)
qed (auto simp: results_ok_def)

lemma step_pending_ok: "watch_step s t \<Longrightarrow> registry_ok s \<Longrightarrow> pending_ok s \<Longrightarrow> pending_ok t"
proof (induction rule: watch_step.induct)
  case (call s i k key "value")
  have i: "i \<notin> set (watchers (kw s) k')" for k'
    using unregistered call by simp
  have w: "watchers k = (watchers (kw s))(key := watchers (kw s) key @ [i])"
    using call by (simp add: watchers_add)
  have c: "kw_chans k = (kw_chans (kw s))(i := make_chan 1)" using call by simp
  have other: "seen (s\<lparr>kw := k, calls := (calls s)(i := Registered key value),
      since := (since s)(i := length (log s))\<rparr>) j = (if j = i then (\<lambda>_. []) else seen s j)" for j
    by (simp add: seen_def fun_eq_iff)
  show ?case using call(4) unfolding pending_ok_def other by (auto simp: w c)
next
  case (receive s i key "value" v ch)
  then show ?case by (auto simp: pending_ok_def)
next
  case (deferred s i key "value" res)
  then show ?case by (auto simp: pending_ok_def watchers_del in_set_remove1)
next
  case (notify key v s k)
  note n = notify_registry [OF notify(2,1)]
  have only: "calls s i \<in> {Registered k' x, Waiting k' x} \<Longrightarrow> i \<in> set (watchers (kw s) key) \<Longrightarrow> k' = key" for i k' x
    using registered_key [OF notify(2), of i key] by auto
  show ?case
    unfolding pending_ok_def
  proof (intro allI impI)
    fix i k' x
    assume c: "calls (s\<lparr>kw := k, log := log s @ [(key, v)]\<rparr>) i \<in> {Registered k' x, Waiting k' x}"
    then have c': "calls s i \<in> {Registered k' x, Waiting k' x}" by simp
    then have p: "since s i \<le> length (log s)" "i \<in> set (watchers (kw s) k') \<longleftrightarrow> seen s i k' = []"
      "ch_buf (kw_chans (kw s) i) = take 1 (seen s i k')"
      using notify(3) unfolding pending_ok_def by blast+
    show "since (s\<lparr>kw := k, log := log s @ [(key, v)]\<rparr>) i \<le> length (log (s\<lparr>kw := k, log := log s @ [(key, v)]\<rparr>)) \<and>
       (i \<in> set (watchers (kw (s\<lparr>kw := k, log := log s @ [(key, v)]\<rparr>)) k') \<longleftrightarrow>
          seen (s\<lparr>kw := k, log := log s @ [(key, v)]\<rparr>) i k' = []) \<and>
       ch_buf (kw_chans (kw (s\<lparr>kw := k, log := log s @ [(key, v)]\<rparr>)) i) =
          take 1 (seen (s\<lparr>kw := k, log := log s @ [(key, v)]\<rparr>) i k')"
      using p only [OF c'] unfolding seen_notify [OF p(1)] by (auto simp: n take_Suc split: list.split) (cases "seen s i key"; auto)+
  qed
qed (auto simp: pending_ok_def)


lemma watch_reach_inv: "watch_reach s \<Longrightarrow> watch_inv s"
proof (induction rule: rtranclp_induct)
  case base
  show ?case
    by (simp add: watch_inv_def registry_ok_def gauge_ok_def pending_ok_def results_ok_def
        watch_start_def watchers_def)
next
  case (step s t)
  then show ?case
    unfolding watch_inv_def
    by (blast intro: step_registry_ok step_gauge_ok step_pending_ok step_results_ok)
qed

text \<open>The part of the invariant the notification loop needs, on the registry alone.\<close>

definition sendable :: "keywatcher \<Rightarrow> bool" where
  "sendable k \<longleftrightarrow> (\<forall>key. distinct (watchers k key)) \<and>
     (\<forall>key. \<forall>c \<in> set (watchers k key). ch_buf (kw_chans k c) = [] \<and> ch_cap (kw_chans k c) = 1) \<and>
     (\<forall>key key' c. c \<in> set (watchers k key) \<longrightarrow> c \<in> set (watchers k key') \<longrightarrow> key = key')"

lemma sendable_notify: "sendable k \<Longrightarrow> \<exists>k'. notifyChanWatchers key v k = Some k' \<and> sendable k'"
  using notify_Some [of k key v] unfolding sendable_def by (fastforce split: if_splits)

lemma sendable_frame [simp]: "sendable (k\<lparr>totalMessages := n\<rparr>) \<longleftrightarrow> sendable k"
  by (simp add: sendable_def)

lemma process_Message:
  "process_messages (Message dataStr # ms) k =
     (let k = k\<lparr>totalMessages := Suc (totalMessages k)\<rparr> in
      if CHR ''='' \<in> set dataStr
      then (case notifyChanWatchers (takeWhile (\<lambda>c. c \<noteq> CHR ''='') dataStr)
              (drop (Suc (length (takeWhile (\<lambda>c. c \<noteq> CHR ''='') dataStr))) dataStr) k of
            None \<Rightarrow> None | Some k \<Rightarrow> process_messages ms k)
      else process_messages ms k)"
  by (simp add: SplitN2_def Let_def)

lemma sendable_process: "sendable k \<Longrightarrow> process_messages ms k \<noteq> None"
proof (induction ms arbitrary: k)
  case (Cons m ms)
  show ?case
  proof (cases m)
    case (Message dataStr)
    let ?k = "k\<lparr>totalMessages := Suc (totalMessages k)\<rparr>"
    have ok: "sendable ?k" using Cons.prems by simp
    have "\<exists>k'. notifyChanWatchers a b ?k = Some k' \<and> process_messages ms k' \<noteq> None" for a b
      using sendable_notify [OF ok] Cons.IH by blast
    then show ?thesis
      using Cons.IH [OF ok] unfolding Message process_Message Let_def by (metis option.simps(5))
  qed (use Cons in auto)
qed simp

lemma watch_reach_sendable: "watch_reach s \<Longrightarrow> sendable (kw s)"
  using watch_reach_inv [of s] one_key [of s]
  by (auto simp: watch_inv_def sendable_def registry_ok_def)

section \<open>A run\<close>

text \<open>One call that waits for key \<open>k\<close> with value \<open>a\<close>, and is notified of \<open>b\<close>.\<close>

definition sample_kw :: "nat list option \<Rightarrow> string list \<Rightarrow> keywatcher" where
  "sample_kw cs buf = \<lparr>keyWatcher = Map.empty(''k'' := cs), keyWatchers = (if cs = None then 0 else 1),
     totalMessages = 0, kw_chans = (\<lambda>_. make_chan 0)(0 := \<lparr>ch_cap = 1, ch_buf = buf\<rparr>)\<rparr>"

definition sample_watch :: "nat list option \<Rightarrow> string list \<Rightarrow> call_phase \<Rightarrow> (string \<times> string) list \<Rightarrow> watch_sys" where
  "sample_watch cs buf p l = \<lparr>kw = sample_kw cs buf, calls = (\<lambda>_. Not_called)(0 := p), log = l, since = (\<lambda>_. 0)\<rparr>"

lemmas sample_defs = sample_watch_def sample_kw_def watch_start_def make_chan_def

lemma sample_waiting: "watch_reach (sample_watch (Some [0]) [] (Waiting ''k'' ''a'') [])"
proof -
  let ?c = "sample_watch (Some [0]) [] (Registered ''k'' ''a'') []"
  have "watch_step watch_start ?c"
    using watch_step.call [of watch_start 0 "kw ?c" "''k''" "''a''"]
    by (simp add: sample_defs addKeyChan_def fun_upd_idem)
  moreover have "watch_step ?c (sample_watch (Some [0]) [] (Waiting ''k'' ''a'') [])"
    using watch_step.get_same [of ?c 0 "''k''" "''a''" "Inr ''a''"] by (simp add: sample_defs after_get_def)
  ultimately show ?thesis by (meson converse_rtranclp_into_rtranclp rtranclp.rtrancl_refl)
qed

lemma sample_returned:
  "watch_reach (sample_watch None [] (Returned ''k'' ''a'' (WatchKeyStatusSeenChange, None)) [(''k'', ''b'')])"
proof -
  let ?w = "sample_watch (Some [0]) [] (Waiting ''k'' ''a'') []"
  let ?n = "sample_watch None [''b''] (Waiting ''k'' ''a'') [(''k'', ''b'')]"
  let ?r = "sample_watch None [] (Returning ''k'' ''a'' (WatchKeyStatusSeenChange, None)) [(''k'', ''b'')]"
  have "watch_step ?w ?n"
    using watch_step.notify [of "''k''" "''b''" ?w "kw ?n"]
    by (simp add: sample_defs notifyChanWatchers_def ch_send_def)
  moreover have "watch_step ?n ?r"
    using watch_step.receive [of ?n 0 "''k''" "''a''" "''b''" "\<lparr>ch_cap = 1, ch_buf = []\<rparr>"]
    by (simp add: sample_defs ch_recv_def after_notify_def)
  moreover have "watch_step ?r (sample_watch None [] (Returned ''k'' ''a'' (WatchKeyStatusSeenChange, None)) [(''k'', ''b'')])"
    using watch_step.deferred [of ?r 0 "''k''" "''a''" "(WatchKeyStatusSeenChange, None)"]
    by (simp add: sample_defs delKeyChan_def)
  ultimately show ?thesis using sample_waiting by (meson rtranclp.rtrancl_into_rtrancl)
qed

section \<open>Properties\<close>

text \<open>C7. The notification loop never blocks while it holds the mutex: in every reachable state every
  channel registered for a key takes the value, so \<open>notifyChanWatchers\<close> completes, and the
  loop of \<open>processInner\<close> runs through any sequence of messages.\<close>

theorem notify_never_blocks:
  assumes "watch_reach s"
  shows "notifyChanWatchers key v (kw s) \<noteq> None \<and> processInner err received (kw s) \<noteq> None"
  using sendable_notify [OF watch_reach_sendable [OF assms]] sendable_process [OF watch_reach_sendable [OF assms]]
  by (fastforce simp: processInner_def split: option.split)

text \<open>C6. No wake-up is lost: as long as a call of \<open>WatchKey\<close> has not decided on its result, the first
  value notified for its key since it registered is in its channel, and while there is none
  the call is still registered and will get the next one.\<close>

theorem watch_no_lost_wakeup:
  assumes "watch_reach s" and "calls s i \<in> {Registered key value, Waiting key value}"
  shows "case seen s i key of
      [] \<Rightarrow> i \<in> set (watchers (kw s) key) \<and> ch_buf (kw_chans (kw s) i) = []
    | v # _ \<Rightarrow> ch_buf (kw_chans (kw s) i) = [v]"
proof -
  have "pending_ok s" using watch_reach_inv [OF assms(1)] by (simp add: watch_inv_def)
  with assms(2) show ?thesis
    unfolding pending_ok_def by (cases "seen s i key") fastforce+
qed

text \<open>\<open>WatchKey\<close> reports \<open>WatchKeyStatusSeenChange\<close> only if a value different from the caller's was
  notified for the key while the call was registered.\<close>

theorem watch_seen_change_sound:
  assumes "watch_reach s"
    and "calls s i = Returned key value (WatchKeyStatusSeenChange, e)"
  shows "\<exists>n. since s i \<le> n \<and> n < length (log s) \<and> fst (log s ! n) = key \<and> snd (log s ! n) \<noteq> value"
proof -
  have "results_ok s" using watch_reach_inv [OF assms(1)] by (simp add: watch_inv_def)
  with assms(2) obtain v where le: "since s i \<le> length (log s)"
    and "v \<in> set (seen s i key)" "v \<noteq> value"
    unfolding results_ok_def by blast
  then have "(key, v) \<in> set (drop (since s i) (log s))" by (auto simp: seen_def)
  then obtain n where "n < length (log s) - since s i" "log s ! (since s i + n) = (key, v)"
    using le by (auto simp: in_set_conv_nth)
  then show ?thesis using \<open>v \<noteq> value\<close> by (intro exI [of _ "since s i + n"]) auto
qed

text \<open>The gauge of watched keys is exact and nothing stays registered: it equals the number of
  registered channels, only calls that have not returned are registered, and no key is kept
  with an empty list.\<close>

theorem watch_registry_exact:
  assumes "watch_reach s"
  shows "keyWatchers (kw s) = int (card {i. \<exists>k. i \<in> set (watchers (kw s) k)}) \<and>
    (\<forall>i k. i \<in> set (watchers (kw s) k) \<longrightarrow> live_key (calls s i) = Some k) \<and>
    (\<forall>k. keyWatcher (kw s) k \<noteq> Some [])"
proof -
  have "registry_ok s" "gauge_ok s" using watch_reach_inv [OF assms] by (simp_all add: watch_inv_def)
  then show ?thesis by (auto simp: registry_ok_def gauge_ok_def) (metis rangeI)
qed

theorem notify_never_blocks_witness:
  "notifyChanWatchers ''k'' ''b'' (sample_kw (Some [0]) []) \<noteq> None"
  using notify_never_blocks [OF sample_waiting, of "''k''" "''b''"] by (simp add: sample_watch_def)

theorem watch_no_lost_wakeup_witness:
  "0 \<in> set (watchers (sample_kw (Some [0]) []) ''k'')"
  using watch_no_lost_wakeup [OF sample_waiting, of 0 "''k''" "''a''"]
  by (simp add: sample_watch_def seen_def)

theorem watch_seen_change_sound_witness:
  "\<exists>n. n < length [(''k'', ''b'')] \<and> fst ([(''k'', ''b'')] ! n) = ''k'' \<and> snd ([(''k'', ''b'')] ! n) \<noteq> ''a''"
  using watch_seen_change_sound [OF sample_returned, of 0 "''k''" "''a''" None]
  by (simp add: sample_watch_def)

theorem watch_registry_exact_witness:
  "int (card {i. \<exists>k. i \<in> set (watchers (sample_kw (Some [0]) []) k)}) = 1"
  using watch_registry_exact [OF sample_waiting] by (simp add: sample_watch_def sample_kw_def)

end
