(* ===== verification/Builds.thy ===== *)
theory Builds
  imports Helper Key_Watcher
begin

text \<open>
  \<open>internal/builds/register.go\<close>: the long polling endpoint CI runners ask for work. The handler
  reads the body, and watches the runner's key in Redis; the request goes on to the backend only
  when there may be something to fetch.

  \<open>json.Unmarshal\<close> into \<open>runnerRequest\<close> and the watch function are parameters, as the latter is
  in the code. The Prometheus vectors are functions of their label.
\<close>

record register_metrics =
  registerHandlerRequests :: "string \<Rightarrow> nat"
  registerHandlerOpen :: "string \<Rightarrow> int"

record runnerRequest =
  rr_Token :: string
  rr_LastUpdate :: string

type_synonym WatchKeyHandler = "string \<Rightarrow> string \<Rightarrow> int \<Rightarrow> WatchKeyStatus \<times> gerror option"

definition maxRegisterBodySize :: nat where
  "maxRegisterBodySize = 32 * 1024"

definition count_request :: "string \<Rightarrow> register_metrics \<Rightarrow> register_metrics" where
  "count_request status m = m\<lparr>registerHandlerRequests :=
     (registerHandlerRequests m)(status := Suc (registerHandlerRequests m status))\<rparr>"

definition add_open :: "string \<Rightarrow> int \<Rightarrow> register_metrics \<Rightarrow> register_metrics" where
  "add_open state n m = m\<lparr>registerHandlerOpen :=
     (registerHandlerOpen m)(state := registerHandlerOpen m state + n)\<rparr>"

text \<open>Each function below changes its gauge, does its work and, deferred, changes it back.\<close>

definition readRunnerBody :: "request \<Rightarrow> register_metrics \<Rightarrow> bytes result \<times> register_metrics" where
  "readRunnerBody r m =
     (let m = add_open ''reading'' 1 m;
          res = ReadRequestBody r maxRegisterBodySize
      in (res, add_open ''reading'' (- 1) m))"

definition readRunnerRequest :: "(bytes \<Rightarrow> runnerRequest result) \<Rightarrow> request \<Rightarrow> bytes \<Rightarrow> runnerRequest result" where
  "readRunnerRequest unmarshal r body =
     (if \<not> IsApplicationJson r then Inl (Errorf ''invalid content-type received'') else unmarshal body)"

definition proxyRegisterRequest :: "'s handler \<Rightarrow> request \<Rightarrow> 's \<times> register_metrics \<Rightarrow> 's \<times> register_metrics" where
  "proxyRegisterRequest h r sm =
     (let m = add_open ''proxying'' 1 (snd sm);
          s = h r (fst sm)
      in (s, add_open ''proxying'' (- 1) m))"

definition watchForRunnerChange :: "WatchKeyHandler \<Rightarrow> string \<Rightarrow> string \<Rightarrow> int \<Rightarrow> register_metrics \<Rightarrow>
    (WatchKeyStatus \<times> gerror option) \<times> register_metrics" where
  "watchForRunnerChange watchHandler token lastUpdate duration m =
     (let m = add_open ''watching'' 1 m;
          res = watchHandler (''runner:build_queue:'' @ token) lastUpdate duration
      in (res, add_open ''watching'' (- 1) m))"

definition RegisterHandler :: "'s writer \<Rightarrow> 's handler \<Rightarrow> (bytes \<Rightarrow> runnerRequest result) \<Rightarrow> WatchKeyHandler \<Rightarrow> int \<Rightarrow>
    request \<Rightarrow> 's \<times> register_metrics \<Rightarrow> 's \<times> register_metrics" where
  "RegisterHandler w h unmarshal watchHandler pollingDuration r sm =
     (if pollingDuration = 0 then (h r (fst sm), snd sm) else
      let s = w_Set w ''Gitlab-Ci-Builds-Polling'' ''yes'' (fst sm);
          (body, m) = readRunnerBody r (snd sm)
      in case body of
        Inl err \<Rightarrow> (RequestEntityTooLarge w s, count_request ''body-read-error'' m)
      | Inr requestBody \<Rightarrow>
          let newRequest = CloneRequestWithNewBody r requestBody in
          (case readRunnerRequest unmarshal r requestBody of
             Inl err \<Rightarrow> proxyRegisterRequest h newRequest (s, count_request ''body-parse-error'' m)
           | Inr rr \<Rightarrow>
               if rr_Token rr = [] \<or> rr_LastUpdate rr = []
               then proxyRegisterRequest h newRequest (s, count_request ''missing-values'' m)
               else
                 let ((result, err), m) = watchForRunnerChange watchHandler (rr_Token rr) (rr_LastUpdate rr) pollingDuration m in
                 if err \<noteq> None then proxyRegisterRequest h newRequest (s, count_request ''watch-error'' m)
                 else (case result of
                     WatchKeyStatusAlreadyChanged \<Rightarrow> proxyRegisterRequest h newRequest (s, count_request ''already-changed'' m)
                   | WatchKeyStatusSeenChange \<Rightarrow> (w_WriteHeader w 204 s, count_request ''seen-change'' m)
                   | WatchKeyStatusTimeout \<Rightarrow> (w_WriteHeader w 204 s, count_request ''timeout'' m)
                   | WatchKeyStatusNoChange \<Rightarrow> (w_WriteHeader w 204 s, count_request ''no-change'' m))))"

section \<open>Reference behaviour\<close>

text \<open>The outcome of a request, by name, as a function of the request and the watch alone.\<close>

definition register_status :: "(bytes \<Rightarrow> runnerRequest result) \<Rightarrow> WatchKeyHandler \<Rightarrow> int \<Rightarrow> request \<Rightarrow> string" where
  "register_status unmarshal watch d r =
     (case ReadRequestBody r maxRegisterBodySize of
        Inl _ \<Rightarrow> ''body-read-error''
      | Inr b \<Rightarrow> (case readRunnerRequest unmarshal r b of
            Inl _ \<Rightarrow> ''body-parse-error''
          | Inr rr \<Rightarrow> if rr_Token rr = [] \<or> rr_LastUpdate rr = [] then ''missing-values''
              else (case watch (''runner:build_queue:'' @ rr_Token rr) (rr_LastUpdate rr) d of
                  (_, Some _) \<Rightarrow> ''watch-error''
                | (WatchKeyStatusAlreadyChanged, None) \<Rightarrow> ''already-changed''
                | (WatchKeyStatusSeenChange, None) \<Rightarrow> ''seen-change''
                | (WatchKeyStatusTimeout, None) \<Rightarrow> ''timeout''
                | (WatchKeyStatusNoChange, None) \<Rightarrow> ''no-change'')))"

text \<open>The request a handler downstream reads is the one the runner sent.\<close>

definition same_request :: "request \<Rightarrow> request \<Rightarrow> bool" where
  "same_request r r' \<longleftrightarrow> ReadAll (req_Body r') = ReadAll (req_Body r) \<and>
     req_ContentLength r' = int (length (stream_bytes (req_Body r'))) \<and>
     r'\<lparr>req_Body := req_Body r, req_ContentLength := req_ContentLength r\<rparr> = r"

lemma HeaderClone_id [simp]: "HeaderClone h = h"
  by (simp add: HeaderClone_def case_prod_unfold)

lemma add_open_cancel [simp]: "add_open l (- 1) (add_open l 1 m) = m"
  by (simp add: add_open_def)

lemma add_open_count: "add_open l n (count_request c m) = count_request c (add_open l n m)"
  by (simp add: add_open_def count_request_def)

lemma proxy_metrics [simp]: "proxyRegisterRequest h r (s, m) = (h r s, m)"
  by (simp add: proxyRegisterRequest_def Let_def)

lemma read_metrics [simp]: "readRunnerBody r m = (ReadRequestBody r maxRegisterBodySize, m)"
  by (simp add: readRunnerBody_def Let_def)

lemma watch_metrics [simp]:
  "watchForRunnerChange wh t u d m = (wh (''runner:build_queue:'' @ t) u d, m)"
  by (simp add: watchForRunnerChange_def Let_def)

lemma clone_same:
  assumes "ReadRequestBody r n = Inr b"
  shows "same_request r (CloneRequestWithNewBody r b)"
  using assms
  by (auto simp: ReadRequestBody_def same_request_def CloneRequestWithNewBody_def ReadAll_def stream_bytes_def
      reader_of_def split: if_splits option.splits)

section \<open>Properties\<close>


text \<open>A runner whose key was already changed, seen from the wire.\<close>

definition sample_poll :: request where
  "sample_poll = sample_request\<lparr>req_Method := ''POST'', req_Header := [(''Content-Type'', [''application/json''])],
     req_Body := ([''{token'', '',last_update}''], None), req_ContentLength := 19\<rparr>"

definition sample_unmarshal :: "bytes \<Rightarrow> runnerRequest result" where
  "sample_unmarshal b = Inr \<lparr>rr_Token = ''t'', rr_LastUpdate = ''a''\<rparr>"

definition no_requests :: register_metrics where
  "no_requests = \<lparr>registerHandlerRequests = (\<lambda>_. 0), registerHandlerOpen = (\<lambda>_. 0)\<rparr>"


end
