(* ===== verification/Hijack.thy ===== *)
theory Hijack
  imports Helper
begin

text \<open>
  Several handlers of the program wrap the \<open>http.ResponseWriter\<close> of the handler behind them to
  look at the response before it starts, and then either let it pass or replace it: the error
  pages, the blocker of internal API responses, \<open>X-Sendfile\<close> and \<open>Gitlab-Workhorse-Send-Data\<close>.
  They share one pattern, stated here as the locale \<open>hijacking_writer\<close>: the first \<open>WriteHeader\<close>
  decides, on the status and the header map of that moment. What a response becomes is computed
  once, for every wrapper, from the sequence of calls the wrapped handler makes.
\<close>

section \<open>The response a sequence of calls amounts to\<close>

text \<open>The header map and status of the first \<open>WriteHeader\<close>, explicit or not, and the calls after it.\<close>

fun commit :: "header \<Rightarrow> call list \<Rightarrow> header \<times> int \<times> call list" where
  "commit h [] = (h, 200, [])"
| "commit h (Put_Header h' # cs) = commit h' cs"
| "commit h (Call_WriteHeader st # cs) = (h, st, cs)"
| "commit h (Call_Write d # cs) = (h, 200, Call_Write d # cs)"

fun body_of :: "call list \<Rightarrow> bytes" where
  "body_of [] = []"
| "body_of (Call_Write d # cs) = d @ body_of cs"
| "body_of (_ # cs) = body_of cs"

definition response_of :: "header \<Rightarrow> call list \<Rightarrow> wire" where
  "response_of h cs =
     (case commit h cs of (h', st, rest) \<Rightarrow> \<lparr>o_status = st, o_header = h', o_body = body_of rest\<rparr>)"

fun puts_before :: "call list \<Rightarrow> call list" where
  "puts_before (Put_Header h # cs) = Put_Header h # puts_before cs"
| "puts_before _ = []"

fun passes :: "bool \<Rightarrow> call \<Rightarrow> bool" where
  "passes hij (Put_Header h) = True"
| "passes hij (Call_WriteHeader st) = False"
| "passes hij (Call_Write d) = (\<not> hij)"

definition is_put :: "call \<Rightarrow> bool" where
  "is_put c \<longleftrightarrow> (\<exists>h. c = Put_Header h)"

lemma is_put_simps [simp]:
  "is_put (Put_Header h)" "\<not> is_put (Call_WriteHeader st)" "\<not> is_put (Call_Write d)"
  by (simp_all add: is_put_def)

lemma exec_calls_append [simp]: "exec_calls w (xs @ ys) s = exec_calls w ys (exec_calls w xs s)"
  by (induction xs arbitrary: s) simp_all

lemma body_of_append [simp]: "body_of (xs @ ys) = body_of xs @ body_of ys"
  by (induction xs rule: body_of.induct) simp_all

lemma body_of_puts [simp]: "body_of (puts_before cs) = []"
  by (induction cs rule: puts_before.induct) simp_all

lemma puts_are_puts: "c \<in> set (puts_before cs) \<Longrightarrow> is_put c"
  by (induction cs rule: puts_before.induct) auto

lemma body_of_passes: "body_of (filter (passes hij) cs) = (if hij then [] else body_of cs)"
  by (induction cs rule: body_of.induct) auto

lemma commit_puts: "commit h (puts_before cs @ ys) = commit (fst (commit h cs)) ys"
  by (induction h cs rule: commit.induct) simp_all

lemma commit_append:
  "\<not> list_all is_put xs \<Longrightarrow> commit h (xs @ ys) = (case commit h xs of (h', st, rest) \<Rightarrow> (h', st, rest @ ys))"
  by (induction h xs rule: commit.induct) (auto split: prod.split)

lemma response_of_append:
  "\<not> list_all is_put xs \<Longrightarrow> response_of h (xs @ ys) = (response_of h xs)\<lparr>o_body := o_body (response_of h xs) @ body_of ys\<rparr>"
  by (simp add: response_of_def commit_append split: prod.split)

lemma commit_status: "Call_WriteHeader 0 \<notin> set cs \<Longrightarrow> fst (snd (commit h cs)) \<noteq> 0"
  by (induction h cs rule: commit.induct) auto

lemma commit_rest: "set (snd (snd (commit h cs))) \<subseteq> set cs"
  by (induction h cs rule: commit.induct) auto

section \<open>On the bare connection\<close>

definition fresh :: "header \<Rightarrow> net_resp" where
  "fresh h = new_response\<lparr>n_header := h\<rparr>"

lemma exec_calls_started:
  "o_status (n_out s) \<noteq> 0 \<Longrightarrow> n_room s = None \<Longrightarrow>
   n_out (exec_calls net_writer cs s) = (n_out s)\<lparr>o_body := o_body (n_out s) @ body_of cs\<rparr> \<and>
   n_room (exec_calls net_writer cs s) = None"
proof (induction cs arbitrary: s rule: body_of.induct)
  case (2 d cs)
  then show ?case using "2.IH" [of "fst (net_Write d s)"] by (simp add: net_Write_def Let_def)
qed (simp_all add: net_WriteHeader_def)

lemma net_response_of:
  "n_out (exec_calls net_writer (cs @ [Call_WriteHeader 200]) (fresh h)) = response_of h cs" if "Call_WriteHeader 0 \<notin> set cs"
  using that
proof (induction h cs rule: commit.induct)
  case (1 h)
  then show ?case by (simp add: response_of_def fresh_def net_WriteHeader_def new_response_def no_response_def)
next
  case (2 h h' cs)
  then show ?case by (simp add: response_of_def fresh_def)
next
  case (3 h st cs)
  then show ?case
    using exec_calls_started [of "net_WriteHeader st (fresh h)" "cs @ [Call_WriteHeader 200]"]
    by (simp add: response_of_def fresh_def net_WriteHeader_def new_response_def no_response_def)
next
  case (4 h d cs)
  then show ?case
    using exec_calls_started [of "net_WriteHeader 200 (fresh h)" "Call_Write d # cs @ [Call_WriteHeader 200]"]
    by (simp add: response_of_def fresh_def net_WriteHeader_def net_Write_def new_response_def no_response_def Let_def)
qed

lemma fresh_simps [simp]: "n_header (fresh h) = h" "n_out (fresh h) = no_response" "n_room (fresh h) = None"
  by (simp_all add: fresh_def new_response_def)

lemma exec_puts_fresh: "list_all is_put cs \<Longrightarrow> exec_calls net_writer cs (fresh h) = fresh (fst (commit h cs))"
  by (induction h cs rule: commit.induct) (simp_all add: fresh_def)

section \<open>The contract\<close>

locale header_map =
  fixes w :: "'s writer"
  assumes put_get [simp]: "w_Header w (w_putHeader w h s) = h"
begin

lemma http_Error_calls:
  "http_Error w msg code s = exec_calls w
     [Put_Header (Header_Set (w_Header w s) ''Content-Type'' ''text/plain; charset=utf-8''),
      Put_Header (Header_Set (Header_Set (w_Header w s) ''Content-Type'' ''text/plain; charset=utf-8'') ''X-Content-Type-Options'' ''nosniff''),
      Call_WriteHeader code, Call_Write (msg @ [CHR 0x0A])] s"
  by (simp add: http_Error_def Let_def)

lemma header_puts: "w_Header w (exec_calls w (puts_before cs) s) = fst (commit (w_Header w s) cs)"
proof (induction cs arbitrary: s rule: puts_before.induct)
  case (1 h cs)
  then show ?case using "1.IH" [of "w_putHeader w h s"] by simp
qed simp_all

end

text \<open>
  \<open>inner\<close>, \<open>status\<close> and \<open>hijacked\<close> read the wrapper's fields, \<open>conf\<close> says how it was configured, \<open>act\<close>
  is what the first \<open>WriteHeader\<close> does to the writer below and \<open>hijacks\<close> whether it takes over.
\<close>

locale hijacking_writer = header_map w for w :: "'s writer" +
  fixes ww :: "'t writer"
    and inner :: "'t \<Rightarrow> 's"
    and status :: "'t \<Rightarrow> int"
    and hijacked :: "'t \<Rightarrow> bool"
    and conf :: "'t \<Rightarrow> bool"
    and act :: "int \<Rightarrow> header \<Rightarrow> 's \<Rightarrow> 's"
    and hijacks :: "int \<Rightarrow> header \<Rightarrow> bool"
  assumes Header: "w_Header ww t = w_Header w (inner t)"
    and put: "inner (w_putHeader ww h t) = w_putHeader w h (inner t)"
      "status (w_putHeader ww h t) = status t" "hijacked (w_putHeader ww h t) = hijacked t"
      "conf (w_putHeader ww h t) = conf t"
    and late: "status t \<noteq> 0 \<Longrightarrow> w_WriteHeader ww st t = t"
    and first: "conf t \<Longrightarrow> status t = 0 \<Longrightarrow> \<not> hijacked t \<Longrightarrow> st \<noteq> 0 \<Longrightarrow>
        inner (w_WriteHeader ww st t) = act st (w_Header w (inner t)) (inner t)"
      "conf t \<Longrightarrow> status t = 0 \<Longrightarrow> \<not> hijacked t \<Longrightarrow> st \<noteq> 0 \<Longrightarrow> status (w_WriteHeader ww st t) \<noteq> 0"
      "conf t \<Longrightarrow> status t = 0 \<Longrightarrow> \<not> hijacked t \<Longrightarrow> st \<noteq> 0 \<Longrightarrow>
        hijacked (w_WriteHeader ww st t) = hijacks st (w_Header w (inner t))"
    and Write_first: "status t = 0 \<Longrightarrow> fst (w_Write ww d t) = fst (w_Write ww d (w_WriteHeader ww 200 t))"
    and Write_hijacked: "status t \<noteq> 0 \<Longrightarrow> hijacked t \<Longrightarrow> fst (w_Write ww d t) = t"
    and Write_pass: "status t \<noteq> 0 \<Longrightarrow> \<not> hijacked t \<Longrightarrow> inner (fst (w_Write ww d t)) = fst (w_Write w d (inner t))"
      "status t \<noteq> 0 \<Longrightarrow> \<not> hijacked t \<Longrightarrow> status (fst (w_Write ww d t)) = status t"
      "status t \<noteq> 0 \<Longrightarrow> \<not> hijacked t \<Longrightarrow> \<not> hijacked (fst (w_Write ww d t))"
begin

lemma run_started:
  "status t \<noteq> 0 \<Longrightarrow>
   inner (exec_calls ww cs t) = exec_calls w (filter (passes (hijacked t)) cs) (inner t) \<and>
   status (exec_calls ww cs t) \<noteq> 0"
proof (induction cs arbitrary: t)
  case (Cons c cs)
  show ?case
  proof (cases c)
    case (Put_Header h)
    then show ?thesis using Cons.IH [of "w_putHeader ww h t"] Cons.prems by (simp add: put)
  next
    case (Call_WriteHeader st)
    then show ?thesis using Cons by (simp add: late)
  next
    case (Call_Write d)
    then show ?thesis
      using Cons.IH [of "fst (w_Write ww d t)"] Cons.IH [of t] Cons.prems
      by (cases "hijacked t") (simp_all add: Write_hijacked Write_pass)
  qed
qed simp

lemma run_fresh:
  assumes "conf t" "status t = 0" "\<not> hijacked t" "Call_WriteHeader 0 \<notin> set cs"
  shows "case commit (w_Header w (inner t)) cs of (h, st, rest) \<Rightarrow>
    inner (w_WriteHeader ww 200 (exec_calls ww cs t)) =
    exec_calls w (filter (passes (hijacks st h)) rest) (act st h (exec_calls w (puts_before cs) (inner t)))"
  using assms
proof (induction cs arbitrary: t)
  case Nil
  then show ?case by (simp add: first)
next
  case (Cons c cs)
  have started: "inner (w_WriteHeader ww 200 (exec_calls ww rest (w_WriteHeader ww st t))) =
      exec_calls w (filter (passes (hijacks st (w_Header w (inner t)))) rest) (act st (w_Header w (inner t)) (inner t))"
    if "st \<noteq> 0" for st rest
    using run_started [of "w_WriteHeader ww st t" rest] Cons.prems that by (simp add: first late)
  show ?case
  proof (cases c)
    case (Put_Header h)
    then show ?thesis using Cons.IH [of "w_putHeader ww h t"] Cons.prems by (simp add: put)
  next
    case (Call_WriteHeader st)
    then show ?thesis using started [of st cs] Cons.prems by simp
  next
    case (Call_Write d)
    then show ?thesis using started [of 200 "c # cs"] Cons.prems by (simp add: Write_first)
  qed
qed

end

sublocale hijacking_writer \<subseteq> outer: header_map ww
  by unfold_locales (simp add: Header put)

text \<open>Over the bare connection the outcome is known for any action that starts the response.\<close>

lemma exec_puts_net: "list_all is_put cs \<Longrightarrow> n_out (exec_calls net_writer cs s) = n_out s"
  by (induction cs arbitrary: s) (auto simp: is_put_def)

lemma passes_hijacked: "list_all is_put (filter (passes True) cs)"
  by (induction cs) (auto elim: passes.elims simp: is_put_def)

lemma puts_before_puts: "list_all is_put (puts_before cs)"
  using puts_are_puts by (auto simp: list_all_iff)

lemma commit_puts_before: "fst (commit h (puts_before cs)) = fst (commit h cs)"
  by (induction h cs rule: commit.induct) simp_all

lemma net_run:
  assumes run: "case commit h cs of (h', st, rest) \<Rightarrow>
      s = exec_calls net_writer (filter (passes (hijacks st h')) rest) (act st h' (exec_calls net_writer (puts_before cs) (fresh h)))"
    and pass: "\<And>st h. st \<noteq> 0 \<Longrightarrow> \<not> hijacks st h \<Longrightarrow>
      o_status (n_out (act st h (fresh h))) \<noteq> 0 \<and> n_room (act st h (fresh h)) = None"
    and "Call_WriteHeader 0 \<notin> set cs"
  shows "n_out s = (let u = response_of h cs; v = n_out (act (o_status u) (o_header u) (fresh (o_header u)))
     in if hijacks (o_status u) (o_header u) then v else v\<lparr>o_body := o_body v @ o_body u\<rparr>)"
proof -
  obtain h' st rest where c: "commit h cs = (h', st, rest)" by (cases "commit h cs") auto
  have "st \<noteq> 0" using commit_status [OF assms(3), of h] by (simp add: c)
  have f: "exec_calls net_writer (puts_before cs) (fresh h) = fresh h'"
    using exec_puts_fresh [OF puts_before_puts, of cs h] by (simp add: commit_puts_before c)
  then have s: "s = exec_calls net_writer (filter (passes (hijacks st h')) rest) (act st h' (fresh h'))"
    using run by (simp add: c)
  show ?thesis
  proof (cases "hijacks st h'")
    case True
    then show ?thesis using s exec_puts_net [OF passes_hijacked] by (simp add: response_of_def c Let_def)
  next
    case False
    then show ?thesis
      using s pass [OF \<open>st \<noteq> 0\<close> False] exec_calls_started [of "act st h' (fresh h')" "filter (passes False) rest"]
      by (simp add: response_of_def c Let_def body_of_passes)
  qed
qed

text \<open>A wrapper whose action is itself a sequence of calls turns calls into calls.\<close>

definition renders :: "(int \<Rightarrow> header \<Rightarrow> call list) \<Rightarrow> (int \<Rightarrow> header \<Rightarrow> bool) \<Rightarrow> wire \<Rightarrow> wire" where
  "renders calls hijacks u =
     (let v = response_of (o_header u) (calls (o_status u) (o_header u))
      in if hijacks (o_status u) (o_header u) then v else v\<lparr>o_body := o_body v @ o_body u\<rparr>)"

definition inner_calls :: "(int \<Rightarrow> header \<Rightarrow> call list) \<Rightarrow> (int \<Rightarrow> header \<Rightarrow> bool) \<Rightarrow> header \<Rightarrow> call list \<Rightarrow> call list" where
  "inner_calls calls hijacks h cs =
     (case commit h cs of (h', st, rest) \<Rightarrow> puts_before cs @ calls st h' @ filter (passes (hijacks st h')) rest)"

lemma response_inner_calls:
  assumes "\<And>st h. \<not> list_all is_put (calls st h)"
  shows "response_of h (inner_calls calls hijacks h cs) = renders calls hijacks (response_of h cs)"
proof -
  obtain h' st rest where c: "commit h cs = (h', st, rest)" by (cases "commit h cs") auto
  have "response_of h (puts_before cs @ ys) = response_of h' ys" for ys
    by (simp add: response_of_def commit_puts c)
  then have "response_of h (inner_calls calls hijacks h cs) =
      response_of h' (calls st h' @ filter (passes (hijacks st h')) rest)"
    by (simp add: inner_calls_def c)
  also have "\<dots> = renders calls hijacks (response_of h cs)"
    by (simp add: response_of_append [OF assms] renders_def Let_def body_of_passes)
      (simp add: response_of_def c)
  finally show ?thesis .
qed

definition calls_ok :: "(int \<Rightarrow> header \<Rightarrow> call list) \<Rightarrow> bool" where
  "calls_ok calls \<longleftrightarrow> (\<forall>st h. st \<noteq> 0 \<longrightarrow> Call_WriteHeader 0 \<notin> set (calls st h)) \<and>
     (\<forall>st h. \<not> list_all is_put (calls st h))"

lemma inner_calls_ok:
  assumes "calls_ok calls" "Call_WriteHeader 0 \<notin> set cs"
  shows "Call_WriteHeader 0 \<notin> set (inner_calls calls hijacks h cs)"
    "\<not> list_all is_put (inner_calls calls hijacks h cs)"
proof -
  obtain h' st rest where c: "commit h cs = (h', st, rest)" by (cases "commit h cs") auto
  have "st \<noteq> 0" "Call_WriteHeader 0 \<notin> set rest"
    using commit_status [OF assms(2), of h] commit_rest [of h cs] assms(2) by (auto simp: c)
  then show "Call_WriteHeader 0 \<notin> set (inner_calls calls hijacks h cs)"
    using assms(1) by (auto simp: inner_calls_def c calls_ok_def dest: puts_are_puts)
  show "\<not> list_all is_put (inner_calls calls hijacks h cs)"
    using assms(1) by (simp add: inner_calls_def c calls_ok_def)
qed

lemma net_response_committed:
  assumes "Call_WriteHeader 0 \<notin> set cs" "\<not> list_all is_put cs"
  shows "n_out (exec_calls net_writer cs (fresh h)) = response_of h cs"
proof -
  have "o_status (n_out (exec_calls net_writer cs (fresh h))) \<noteq> 0"
    using assms
  proof (induction h cs rule: commit.induct)
    case (2 h h' cs)
    then show ?case by (simp add: fresh_def)
  next
    case (3 h st cs)
    then show ?case using exec_calls_started [of "net_WriteHeader st (fresh h)" cs]
      by (simp add: net_WriteHeader_def no_response_def)
  next
    case (4 h d cs)
    then show ?case using exec_calls_started [of "fst (net_Write d (fresh h))" cs]
      by (simp add: net_WriteHeader_def net_Write_def no_response_def Let_def)
  qed simp
  then have "exec_calls net_writer (cs @ [Call_WriteHeader 200]) (fresh h) = exec_calls net_writer cs (fresh h)"
    by (simp add: net_WriteHeader_def)
  then show ?thesis using net_response_of [OF assms(1), of h] by simp
qed

lemma net_renders:
  assumes "calls_ok calls" "Call_WriteHeader 0 \<notin> set cs"
  shows "n_out (exec_calls net_writer (inner_calls calls hijacks h cs) (fresh h)) = renders calls hijacks (response_of h cs)"
  using net_response_committed inner_calls_ok [OF assms] response_inner_calls [of calls h hijacks cs] assms(1)
  by (simp add: calls_ok_def)

locale rendering_writer = hijacking_writer +
  fixes calls :: "int \<Rightarrow> header \<Rightarrow> call list"
  assumes act_calls: "act st (w_Header w s) s = exec_calls w (calls st (w_Header w s)) s"
begin

lemma run_calls:
  assumes "conf t" "status t = 0" "\<not> hijacked t" "Call_WriteHeader 0 \<notin> set cs"
  shows "inner (w_WriteHeader ww 200 (exec_calls ww cs t)) =
    exec_calls w (inner_calls calls hijacks (w_Header w (inner t)) cs) (inner t)"
proof -
  obtain h' st rest where c: "commit (w_Header w (inner t)) cs = (h', st, rest)"
    by (cases "commit (w_Header w (inner t)) cs") auto
  have "w_Header w (exec_calls w (puts_before cs) (inner t)) = h'" by (simp add: header_puts c)
  then show ?thesis
    using run_fresh [OF assms] act_calls [of st "exec_calls w (puts_before cs) (inner t)"]
    by (simp add: inner_calls_def c)
qed

end

interpretation net_map: header_map net_writer
  by unfold_locales simp

text \<open>
  \<open>http.ServeContent\<close>, which answers range and conditional requests, is a parameter wherever it is
  used: the calls it makes, given the request, name, modification time, content and header map.
\<close>

type_synonym serve_content = "request \<Rightarrow> string \<Rightarrow> int \<Rightarrow> bytes \<Rightarrow> header \<Rightarrow> call list"

text \<open>What it does for a request without ranges and conditions.\<close>

definition plain_content :: serve_content where
  "plain_content r name modTime content h = [Call_WriteHeader 200, Call_Write content]"

end
