(* ===== verification/Api.thy ===== *)
theory Api
  imports Hijack
begin

text \<open>
  \<open>internal/api\<close>: the internal API between this proxy and the Rails backend. \<open>api.go\<close> asks the
  backend whether a request is allowed before any work is done for it, \<open>block.go\<close> keeps internal
  responses from reaching a client, \<open>terminal_settings.go\<close> is the part of the backend's answer that
  describes a terminal.

  The round trip to the backend, the signed token of \<open>internal/secret\<close>, the JSON decoder and
  \<open>url.Parse\<close> are parameters.
\<close>

section \<open>Data\<close>

record http_response =
  rsp_Status :: string
  rsp_StatusCode :: int
  rsp_Header :: header
  rsp_Body :: stream

record api =
  api_URL :: url
  api_Version :: string

record MultipartUploadParams =
  mp_PartSize :: int
  mp_PartURLs :: "string list"
  mp_CompleteURL :: string
  mp_AbortURL :: string

record RemoteObject =
  ro_GetURL :: string
  ro_DeleteURL :: string
  ro_StoreURL :: string
  ro_CustomPutHeaders :: bool
  ro_PutHeaders :: "(string \<times> string) list"
  ro_ID :: string
  ro_Timeout :: int
  ro_MultipartUpload :: "MultipartUploadParams option"

record TerminalSettings =
  t_Subprotocols :: "string list"
  t_Url :: string
  t_Header :: header
  t_CAPem :: string
  t_MaxSessionTime :: int

record gitaly_Server =
  gs_Address :: string
  gs_Token :: string

record Repository =
  repo_StorageName :: string
  repo_RelativePath :: string
  repo_GitObjectDirectory :: string
  repo_GitAlternateObjectDirectories :: "string list"
  repo_GlRepository :: string

record Response =
  a_GL_ID :: string
  a_GL_USERNAME :: string
  a_GL_REPOSITORY :: string
  a_RepoPath :: string
  a_GitConfigOptions :: "string list"
  a_StoreLFSPath :: string
  a_LfsOid :: string
  a_LfsSize :: int
  a_TempPath :: string
  a_RemoteObject :: RemoteObject
  a_Archive :: string
  a_Entry :: string
  a_Terminal :: "TerminalSettings option"
  a_GitalyServer :: gitaly_Server
  a_Repository :: Repository
  a_ShowAllRefs :: bool

text \<open>The zero value of \<open>Response\<close>, which the JSON decoder fills in.\<close>

definition zero_Response :: Response where
  "zero_Response = \<lparr>a_GL_ID = [], a_GL_USERNAME = [], a_GL_REPOSITORY = [], a_RepoPath = [], a_GitConfigOptions = [],
     a_StoreLFSPath = [], a_LfsOid = [], a_LfsSize = 0, a_TempPath = [],
     a_RemoteObject = \<lparr>ro_GetURL = [], ro_DeleteURL = [], ro_StoreURL = [], ro_CustomPutHeaders = False, ro_PutHeaders = [],
       ro_ID = [], ro_Timeout = 0, ro_MultipartUpload = None\<rparr>,
     a_Archive = [], a_Entry = [], a_Terminal = None, a_GitalyServer = \<lparr>gs_Address = [], gs_Token = []\<rparr>,
     a_Repository = \<lparr>repo_StorageName = [], repo_RelativePath = [], repo_GitObjectDirectory = [],
       repo_GitAlternateObjectDirectories = [], repo_GlRepository = []\<rparr>, a_ShowAllRefs = False\<rparr>"

definition ResponseContentType :: string where
  "ResponseContentType = ''application/vnd.gitlab-workhorse+json''"

definition RequestHeader :: string where
  "RequestHeader = ''Gitlab-Workhorse-Api-Request''"

definition failureResponseLimit :: nat where
  "failureResponseLimit = 32768"

section \<open>The request to the backend\<close>

definition singleJoiningSlash :: "string \<Rightarrow> string \<Rightarrow> string" where
  "singleJoiningSlash a b =
     (let aslash = HasSuffix a ''/''; bslash = HasPrefix b ''/'' in
      if aslash \<and> bslash then a @ drop 1 b
      else if \<not> aslash \<and> \<not> bslash then a @ ''/'' @ b
      else a @ b)"

definition rebaseUrl :: "url \<Rightarrow> url \<Rightarrow> string \<Rightarrow> url" where
  "rebaseUrl u onto sfx =
     (let newUrl = u\<lparr>url_Scheme := url_Scheme onto, url_Host := url_Host onto\<rparr>;
          newUrl = (if sfx \<noteq> [] then newUrl\<lparr>url_Path := singleJoiningSlash (url_Path u) sfx\<rparr> else newUrl)
      in if url_RawQuery onto = [] \<or> url_RawQuery newUrl = []
         then newUrl\<lparr>url_RawQuery := url_RawQuery onto @ url_RawQuery newUrl\<rparr>
         else newUrl\<lparr>url_RawQuery := url_RawQuery onto @ ''&'' @ url_RawQuery newUrl\<rparr>)"

definition body_headers :: "string list" where
  "body_headers = [''Content-Type'', ''Content-Encoding'', ''Content-Length'', ''Content-Disposition'', ''Accept-Encoding'',
     ''Transfer-Encoding'', ''Connection'', ''Keep-Alive'', ''Proxy-Authenticate'', ''Proxy-Authorization'', ''Te'',
     ''Trailers'', ''Upgrade'']"

definition newRequest :: "string result \<Rightarrow> api \<Rightarrow> request \<Rightarrow> stream option \<Rightarrow> string \<Rightarrow> request result" where
  "newRequest jwt a r body sfx =
     (let h = HeaderClone (req_Header r);
          h = (if body = None then Header_Dels h body_headers else h);
          h = Header_Set h ''Gitlab-Workhorse'' (api_Version a);
          h = SetForwardedFor h r
      in case jwt of
        Inl err \<Rightarrow> Inl (wrap_err ''newRequest: sign JWT: '' err)
      | Inr tokenString \<Rightarrow> Inr
          \<lparr>req_Method = req_Method r, req_URL = rebaseUrl (req_URL r) (api_URL a) sfx,
           req_RequestURI = [], req_Header = Header_Set h RequestHeader tokenString,
           req_Body = (case body of None \<Rightarrow> ([], None) | Some b \<Rightarrow> b), req_ContentLength = 0,
           req_Host = req_Host r, req_RemoteAddr = [], req_ProtoMajor = 0, req_ProtoMinor = 0\<rparr>)"

section \<open>Pre-authorization\<close>

record api_metrics =
  requestsCounter :: "string \<times> string \<Rightarrow> nat"
  bytesTotal :: nat

definition validResponseContentType :: "http_response \<Rightarrow> bool" where
  "validResponseContentType resp \<longleftrightarrow> IsContentType ResponseContentType (Header_Get (rsp_Header resp) ''Content-Type'')"

text \<open>The three results of \<open>PreAuthorize\<close>, and the metrics.\<close>

definition PreAuthorize :: "string result \<Rightarrow> (request \<Rightarrow> http_response result) \<Rightarrow> (stream \<Rightarrow> Response result) \<Rightarrow> api \<Rightarrow>
    string \<Rightarrow> request \<Rightarrow> api_metrics \<Rightarrow> (http_response option \<times> Response option \<times> gerror option) \<times> api_metrics" where
  "PreAuthorize jwt roundTrip decode a sfx r m =
     (case newRequest jwt a r None sfx of
        Inl err \<Rightarrow> ((None, None, Some (wrap_err ''preAuthorizeHandler newUpstreamRequest: '' err)), m)
      | Inr authReq \<Rightarrow>
          (case roundTrip authReq of
             Inl err \<Rightarrow> ((None, None, Some (wrap_err ''preAuthorizeHandler: do request: '' err)), m)
           | Inr httpResponse \<Rightarrow>
               let label = (FormatInt (rsp_StatusCode httpResponse), req_Method authReq);
                   m = m\<lparr>requestsCounter := (requestsCounter m)(label := Suc (requestsCounter m label))\<rparr> in
               if rsp_StatusCode httpResponse \<noteq> 200 \<or> \<not> validResponseContentType httpResponse
               then ((Some httpResponse, None, None), m)
               else (case decode (rsp_Body httpResponse) of
                   Inl err \<Rightarrow> ((None, None, Some (wrap_err ''preAuthorizeHandler: decode authorization response: '' err)), m)
                 | Inr authResponse \<Rightarrow> ((Some httpResponse, Some authResponse, None), m))))"

definition copyAuthHeader :: "http_response \<Rightarrow> 's writer \<Rightarrow> 's \<Rightarrow> 's" where
  "copyAuthHeader resp w s =
     foldl (\<lambda>s (k, v). if map ascii_lower k = ''www-authenticate'' then w_put w k v s else s) s (rsp_Header resp)"

definition bufferResponse :: "stream \<Rightarrow> bytes result" where
  "bufferResponse r =
     (let limited = LimitReader r failureResponseLimit in
      case snd limited of
        Some err \<Rightarrow> Inl err
      | None \<Rightarrow>
          if length (stream_bytes limited) = failureResponseLimit
          then Inl (Errorf (''response body exceeded maximum buffer size ('' @ format_nat failureResponseLimit @ '' bytes)''))
          else Inr (stream_bytes limited))"

definition passResponseBack :: "http_response \<Rightarrow> 's writer \<Rightarrow> 's \<times> api_metrics \<Rightarrow> 's \<times> api_metrics" where
  "passResponseBack resp w sm =
     (case bufferResponse (rsp_Body resp) of
        Inl err \<Rightarrow> (Fail500 w (fst sm), snd sm)
      | Inr responseBody \<Rightarrow>
          let m = (snd sm)\<lparr>bytesTotal := bytesTotal (snd sm) + length responseBody\<rparr>;
              s = foldl (\<lambda>s (k, v). w_put w (if k = ''Www-Authenticate'' then ''WWW-Authenticate'' else k) v s) (fst sm) (rsp_Header resp);
              s = w_WriteHeader w (rsp_StatusCode resp) s
          in (fst (io_Copy w (fst (reader_of responseBody)) None s), m))"

definition PreAuthorizeHandler :: "string result \<Rightarrow> (request \<Rightarrow> http_response result) \<Rightarrow> (stream \<Rightarrow> Response result) \<Rightarrow> api \<Rightarrow>
    's writer \<Rightarrow> (request \<Rightarrow> Response \<Rightarrow> 's \<Rightarrow> 's) \<Rightarrow> string \<Rightarrow> request \<Rightarrow> 's \<times> api_metrics \<Rightarrow> 's \<times> api_metrics" where
  "PreAuthorizeHandler jwt roundTrip decode a w next sfx r sm =
     (let (res, m) = PreAuthorize jwt roundTrip decode a sfx r (snd sm) in
      case res of
        (httpResponse, authResponse, Some err) \<Rightarrow> (Fail500 w (fst sm), m)
      | (Some httpResponse, None, None) \<Rightarrow> passResponseBack httpResponse w (fst sm, m)
      | (Some httpResponse, Some authResponse, None) \<Rightarrow>
          (next r authResponse (copyAuthHeader httpResponse w (fst sm)), m)
      | (None, _, None) \<Rightarrow> (fst sm, m))"

section \<open>Blocking internal responses\<close>

record 's blocker =
  b_rw :: 's
  b_hijacked :: bool
  b_status :: int

definition blocker_WriteHeader :: "'s writer \<Rightarrow> int \<Rightarrow> 's blocker \<Rightarrow> 's blocker" where
  "blocker_WriteHeader w status b =
     (if b_status b \<noteq> 0 then b
      else if IsContentType ResponseContentType (Header_Get (w_Header w (b_rw b)) ''Content-Type'')
      then b\<lparr>b_status := 500, b_hijacked := True,
             b_rw := Fail500 w (w_Del w ''Content-Length'' (b_rw b))\<rparr>
      else b\<lparr>b_status := status, b_rw := w_WriteHeader w status (b_rw b)\<rparr>)"

definition blocker_Write :: "'s writer \<Rightarrow> bytes \<Rightarrow> 's blocker \<Rightarrow> 's blocker \<times> nat \<times> gerror option" where
  "blocker_Write w data b =
     (let b = (if b_status b = 0 then blocker_WriteHeader w 200 b else b) in
      if b_hijacked b then (b, 0, None)
      else let (rw, n, err) = w_Write w data (b_rw b) in (b\<lparr>b_rw := rw\<rparr>, n, err))"

definition blocker_writer :: "'s writer \<Rightarrow> 's blocker writer" where
  "blocker_writer w = \<lparr>w_Header = (\<lambda>b. w_Header w (b_rw b)),
     w_putHeader = (\<lambda>h b. b\<lparr>b_rw := w_putHeader w h (b_rw b)\<rparr>),
     w_WriteHeader = blocker_WriteHeader w, w_Write = blocker_Write w\<rparr>"

definition blocker_Flush :: "'s writer \<Rightarrow> 's blocker \<Rightarrow> 's blocker" where
  "blocker_Flush w b = blocker_WriteHeader w 200 b"

definition Block :: "'s writer \<Rightarrow> 's blocker handler \<Rightarrow> 's handler" where
  "Block w h r s = b_rw (blocker_Flush w (h r \<lparr>b_rw = s, b_hijacked = False, b_status = 0\<rparr>))"

section \<open>Terminal settings\<close>

definition TerminalSettings_Clone :: "TerminalSettings \<Rightarrow> TerminalSettings" where
  "TerminalSettings_Clone t = t\<lparr>t_Header := HeaderClone (t_Header t)\<rparr>"

text \<open>The dialer of the websocket library; without roots it uses those of the system.\<close>

record websocket_Dialer =
  d_Subprotocols :: "string list"
  d_RootCAs :: "string option"

definition TerminalSettings_Dialer :: "TerminalSettings \<Rightarrow> websocket_Dialer" where
  "TerminalSettings_Dialer t =
     \<lparr>d_Subprotocols = t_Subprotocols t, d_RootCAs = (if length (t_CAPem t) > 0 then Some (t_CAPem t) else None)\<rparr>"

definition TerminalSettings_Dial :: "(websocket_Dialer \<Rightarrow> string \<Rightarrow> header \<Rightarrow> 'c) \<Rightarrow> TerminalSettings \<Rightarrow> 'c" where
  "TerminalSettings_Dial dial t = dial (TerminalSettings_Dialer t) (t_Url t) (t_Header t)"

text \<open>\<open>parse\<close> gives the scheme \<open>url.Parse\<close> finds, or its error.\<close>

definition Validate :: "(string \<Rightarrow> string result) \<Rightarrow> TerminalSettings option \<Rightarrow> gerror option" where
  "Validate parse settings =
     (case settings of
        None \<Rightarrow> Some (Errorf ''Terminal details not specified'')
      | Some t \<Rightarrow>
          if t_Subprotocols t = [] then Some (Errorf ''No subprotocol specified'')
          else (case parse (t_Url t) of
              Inl err \<Rightarrow> Some (Errorf ''Invalid URL'')
            | Inr scheme \<Rightarrow>
                if scheme \<noteq> ''ws'' \<and> scheme \<noteq> ''wss''
                then Some (Errorf (''Invalid websocket scheme: '' @ Quote scheme)) else None))"

definition IsEqual :: "TerminalSettings option \<Rightarrow> TerminalSettings option \<Rightarrow> bool" where
  "IsEqual x y =
     (case (x, y) of
        (None, None) \<Rightarrow> True
      | (Some t, Some t') \<Rightarrow>
          length (t_Subprotocols t) = length (t_Subprotocols t') \<and>
          list_all (\<lambda>i. t_Subprotocols t' ! i = t_Subprotocols t ! i) [0..<length (t_Subprotocols t)] \<and>
          length (t_Header t) = length (t_Header t') \<and>
          list_all (\<lambda>(k, vs). length vs = length (Header_values (t_Header t') k) \<and>
            list_all (\<lambda>i. Header_values (t_Header t') k ! i = vs ! i) [0..<length vs]) (t_Header t) \<and>
          t_Url t = t_Url t' \<and> t_CAPem t = t_CAPem t' \<and> t_MaxSessionTime t = t_MaxSessionTime t'
      | _ \<Rightarrow> False)"

section \<open>The blocker hijacks internal responses\<close>

definition fail500_calls :: "header \<Rightarrow> call list" where
  "fail500_calls h =
     [Put_Header (Header_Set h ''Content-Type'' ''text/plain; charset=utf-8''),
      Put_Header (Header_Set (Header_Set h ''Content-Type'' ''text/plain; charset=utf-8'') ''X-Content-Type-Options'' ''nosniff''),
      Call_WriteHeader 500, Call_Write (''Internal server error'' @ [CHR 0x0A])]"

definition internal_type :: "header \<Rightarrow> bool" where
  "internal_type h \<longleftrightarrow> IsContentType ResponseContentType (Header_Get h ''Content-Type'')"

definition block_calls :: "int \<Rightarrow> header \<Rightarrow> call list" where
  "block_calls st h =
     (if internal_type h then Put_Header (Header_Del h ''Content-Length'') # fail500_calls (Header_Del h ''Content-Length'')
      else [Call_WriteHeader st])"

lemma block_calls_ok: "calls_ok block_calls"
  by (simp add: calls_ok_def block_calls_def fail500_calls_def)

locale blocker_over = header_map
begin

lemma Fail500_calls: "Fail500 w s = exec_calls w (fail500_calls (w_Header w s)) s"
  by (simp add: Fail500_def http_Error_calls fail500_calls_def)

lemma blocker_first:
  "b_status b = 0 \<Longrightarrow> b_rw (blocker_WriteHeader w st b) = exec_calls w (block_calls st (w_Header w (b_rw b))) (b_rw b)"
  by (simp add: blocker_WriteHeader_def block_calls_def internal_type_def Fail500_calls)

end

lemma blocker_state:
  "b_status b = 0 \<Longrightarrow> st \<noteq> 0 \<Longrightarrow> b_status (blocker_WriteHeader w st b) \<noteq> 0"
  "b_status b = 0 \<Longrightarrow> \<not> b_hijacked b \<Longrightarrow>
     b_hijacked (blocker_WriteHeader w st b) = internal_type (w_Header w (b_rw b))"
  "b_status b \<noteq> 0 \<Longrightarrow> blocker_WriteHeader w st b = b"
  by (simp_all add: blocker_WriteHeader_def internal_type_def)

sublocale blocker_over \<subseteq> block: rendering_writer w "blocker_writer w" b_rw b_status b_hijacked "\<lambda>_. True"
  "\<lambda>st h s. exec_calls w (block_calls st h) s" "\<lambda>st h. internal_type h" block_calls
  by unfold_locales
    (simp_all add: blocker_writer_def blocker_first blocker_state blocker_Write_def Let_def split_beta)

interpretation block_net: blocker_over net_writer
  by unfold_locales

lemma IsContentType_text [simp]: "\<not> IsContentType ResponseContentType ''text/plain; charset=utf-8''"
  by code_simp

section \<open>Properties\<close>

lemma preauthorize_cases:
  "(\<exists>q resp a'. newRequest jwt a r None sfx = Inr q \<and> roundTrip q = Inr resp \<and>
      rsp_StatusCode resp = 200 \<and> validResponseContentType resp \<and> decode (rsp_Body resp) = Inr a' \<and>
      (\<forall>h. fst (PreAuthorizeHandler jwt roundTrip decode a w h sfx r (s, m)) = h r a' (copyAuthHeader resp w s))) \<or>
   (\<forall>h h'. PreAuthorizeHandler jwt roundTrip decode a w h sfx r (s, m) =
      PreAuthorizeHandler jwt roundTrip decode a w h' sfx r (s, m))"
proof (cases "newRequest jwt a r None sfx")
  case (Inl e)
  then show ?thesis by (simp add: PreAuthorizeHandler_def PreAuthorize_def)
next
  case q: (Inr q)
  show ?thesis
  proof (cases "roundTrip q")
    case (Inl e)
    with q show ?thesis by (simp add: PreAuthorizeHandler_def PreAuthorize_def)
  next
    case (Inr resp)
    with q show ?thesis
      by (cases "decode (rsp_Body resp)") (simp_all add: PreAuthorizeHandler_def PreAuthorize_def Let_def)
  qed
qed


lemma map_of_Header_Set: "map_of (Header_Set h k v) = (map_of h)(CanonicalHeaderKey k \<mapsto> [v])"
  by (simp add: Header_Set_def update_conv' fun_eq_iff)

lemma map_of_SetForwardedFor: "k \<noteq> ''X-Forwarded-For'' \<Longrightarrow> map_of (SetForwardedFor h r) k = map_of h k"
  by (simp add: SetForwardedFor_def map_of_Header_Set split: option.split prod.split)

lemma body_headers_canonical [simp]: "CanonicalHeaderKey ` set body_headers = set body_headers"
  by (simp add: body_headers_def)


definition sample_api :: api where
  "sample_api = \<lparr>api_URL = \<lparr>url_Scheme = ''http'', url_Host = ''localhost:8080'', url_Path = [], url_RawQuery = []\<rparr>,
     api_Version = ''v1''\<rparr>"


text \<open>C9. No internal API response reaches a client: whatever calls a handler makes behind \<open>Block\<close>, its
  response goes out unchanged unless its content type is the internal one, in which case the
  client gets a plain 500 and not one byte of the response's body.\<close>

theorem block_no_leak:
  assumes "Call_WriteHeader 0 \<notin> set cs"
  shows "let u = n_out (exec_calls net_writer (cs @ [Call_WriteHeader 200]) new_response);
             v = n_out (Block net_writer (\<lambda>_. exec_calls (blocker_writer net_writer) cs) r new_response)
    in (if internal_type (o_header u) then o_status v = 500 \<and> o_body v = ''Internal server error'' @ [CHR 0x0A] else v = u) \<and>
       \<not> internal_type (o_header v)"
proof -
  have new: "new_response = fresh []" by (simp add: fresh_def new_response_def)
  define u where "u = response_of [] cs"
  have u: "n_out (exec_calls net_writer (cs @ [Call_WriteHeader 200]) new_response) = u"
    using net_response_of [OF assms, of "[]"] by (simp add: new u_def)
  have "Block net_writer (\<lambda>_. exec_calls (blocker_writer net_writer) cs) r new_response =
      exec_calls net_writer (inner_calls block_calls (\<lambda>st h. internal_type h) [] cs) (fresh [])"
    using block_net.block.run_calls [of "\<lparr>b_rw = fresh [], b_hijacked = False, b_status = 0\<rparr>" cs] assms
    by (simp add: Block_def blocker_Flush_def new blocker_writer_def)
  then have v: "n_out (Block net_writer (\<lambda>_. exec_calls (blocker_writer net_writer) cs) r new_response) =
      renders block_calls (\<lambda>st h. internal_type h) u"
    by (simp add: net_renders [OF block_calls_ok assms] u_def)
  show ?thesis unfolding u v
    by (simp add: renders_def block_calls_def fail500_calls_def response_of_def Let_def internal_type_def Header_Get_Set)
qed

theorem block_no_leak_witness:
  "o_status (n_out (Block net_writer (\<lambda>_. exec_calls (blocker_writer net_writer)
      [Put_Header [(''Content-Type'', [''application/vnd.gitlab-workhorse+json''])], Call_Write ''{secret}'']) sample_request new_response)) = 500"
proof -
  let ?cs = "[Put_Header [(''Content-Type'', [''application/vnd.gitlab-workhorse+json''])], Call_Write ''{secret}'']"
  have "Call_WriteHeader 0 \<notin> set ?cs" by simp
  moreover have "internal_type (o_header (n_out (exec_calls net_writer (?cs @ [Call_WriteHeader 200]) new_response)))"
    by code_simp
  ultimately show ?thesis using block_no_leak [of ?cs sample_request] by (simp add: Let_def)
qed

text \<open>Index by index comparison of lists, and the sizes of two maps of which one extends the other.\<close>

lemma nth_all_eq: "length xs = length ys \<Longrightarrow> list_all (\<lambda>i. ys ! i = xs ! i) [0..<length xs] \<longleftrightarrow> xs = ys"
proof -
  assume "length xs = length ys"
  moreover have "list_all (\<lambda>i. ys ! i = xs ! i) [0..<length xs] \<longleftrightarrow> (\<forall>i<length xs. xs ! i = ys ! i)"
    unfolding list_all_iff by (metis atLeastLessThan_iff set_upt zero_le)
  ultimately show ?thesis using list_eq_iff_nth_eq [of xs ys] by blast
qed

lemma alist_same_size:
  assumes "distinct (map fst xs)" "distinct (map fst ys)" "length xs = length ys" "map_of xs \<subseteq>\<^sub>m map_of ys"
  shows "map_of xs = map_of ys"
proof -
  have "card (dom (map_of xs)) = length xs" "card (dom (map_of ys)) = length ys"
    using assms(1,2) by (simp_all add: dom_map_of_conv_image_fst distinct_card flip: set_map)
  moreover have "dom (map_of xs) \<subseteq> dom (map_of ys)" using assms(4) by (rule map_le_implies_dom_le)
  ultimately have "dom (map_of xs) = dom (map_of ys)"
    using assms(3) by (intro card_subset_eq) (simp_all add: finite_dom_map_of)
  with assms(4) show ?thesis by (simp add: map_le_antisym map_le_def)
qed

lemma header_values_eq:
  assumes "distinct (map fst h)" "\<forall>(k, vs) \<in> set h. vs \<noteq> []"
  shows "list_all (\<lambda>(k, vs). length vs = length (Header_values h' k) \<and>
      list_all (\<lambda>i. Header_values h' k ! i = vs ! i) [0..<length vs]) h \<longleftrightarrow> map_of h \<subseteq>\<^sub>m map_of h'"
    (is "?l \<longleftrightarrow> ?r")
proof -
  have one: "length vs = length (Header_values h' k) \<and> list_all (\<lambda>i. Header_values h' k ! i = vs ! i) [0..<length vs]
      \<longleftrightarrow> map_of h' k = Some vs" if "(k, vs) \<in> set h" for k vs
  proof -
    have "vs \<noteq> []" using that assms(2) by auto
    then show ?thesis using nth_all_eq [of vs "Header_values h' k"]
      by (auto simp: Header_values_def split: option.splits)
  qed
  have "?l \<longleftrightarrow> list_all (\<lambda>(k, vs). map_of h' k = Some vs) h"
  proof (rule list_all_cong)
    fix x assume x: "x \<in> set h"
    obtain k vs where kv: "x = (k, vs)" by (cases x)
    show "(case x of (k, vs) \<Rightarrow> length vs = length (Header_values h' k) \<and>
        list_all (\<lambda>i. Header_values h' k ! i = vs ! i) [0..<length vs]) = (case x of (k, vs) \<Rightarrow> map_of h' k = Some vs)"
      using one [of k vs] x unfolding kv case_prod_conv by blast
  qed (rule refl)
  also have "\<dots> \<longleftrightarrow> (\<forall>k vs. (k, vs) \<in> set h \<longrightarrow> map_of h' k = Some vs)"
    by (auto simp: list_all_iff)
  also have "\<dots> \<longleftrightarrow> ?r"
    using assms(1) by (auto simp: map_le_def dom_def map_of_eq_Some_iff)
  finally show ?thesis .
qed

text \<open>\<open>IsEqual\<close> decides equality of terminal settings, provided no header of the first is listed with
  no values: it holds exactly when all fields agree, headers compared as maps.\<close>

theorem IsEqual_exact:
  assumes "distinct (map fst (t_Header t))" "distinct (map fst (t_Header t'))"
    and "\<forall>(k, vs) \<in> set (t_Header t). vs \<noteq> []"
  shows "IsEqual (Some t) (Some t') \<longleftrightarrow>
    t\<lparr>t_Header := []\<rparr> = t'\<lparr>t_Header := []\<rparr> \<and> map_of (t_Header t) = map_of (t_Header t')"
proof -
  have "length (t_Header t) = length (t_Header t') \<and> map_of (t_Header t) \<subseteq>\<^sub>m map_of (t_Header t') \<longleftrightarrow>
      map_of (t_Header t) = map_of (t_Header t')" (is "?l \<longleftrightarrow> ?r")
  proof
    assume ?r
    then have "dom (map_of (t_Header t)) = dom (map_of (t_Header t'))" by simp
    then have "set (map fst (t_Header t)) = set (map fst (t_Header t'))" by (simp add: dom_map_of_conv_image_fst)
    then have "length (t_Header t) = length (t_Header t')"
      using distinct_card [OF assms(1)] distinct_card [OF assms(2)] by simp
    with \<open>?r\<close> show ?l by simp
  qed (use alist_same_size assms in blast)
  then have "IsEqual (Some t) (Some t') \<longleftrightarrow> t_Subprotocols t = t_Subprotocols t' \<and>
      map_of (t_Header t) = map_of (t_Header t') \<and>
      t_Url t = t_Url t' \<and> t_CAPem t = t_CAPem t' \<and> t_MaxSessionTime t = t_MaxSessionTime t'"
    using nth_all_eq [of "t_Subprotocols t" "t_Subprotocols t'"] header_values_eq [OF assms(1,3), of "t_Header t'"]
    unfolding IsEqual_def by auto
  then show ?thesis by (cases t; cases t') auto
qed

definition sample_terminal :: TerminalSettings where
  "sample_terminal = \<lparr>t_Subprotocols = [''foo''], t_Url = ''ws://example.com'', t_Header = [(''A'', [''1'']), (''B'', [''2''])],
     t_CAPem = [], t_MaxSessionTime = 0\<rparr>"

theorem IsEqual_exact_witness:
  "\<not> IsEqual (Some sample_terminal) (Some (sample_terminal\<lparr>t_Header := [(''B'', [''2'']), (''A'', [''3''])]\<rparr>))"
  by (subst IsEqual_exact) (simp_all add: sample_terminal_def fun_eq_iff)

text \<open>With an empty list of values it does not: these settings differ and are taken for equal.\<close>

lemma IsEqual_blind:
  "IsEqual (Some (sample_terminal\<lparr>t_Header := [(''A'', [])]\<rparr>)) (Some (sample_terminal\<lparr>t_Header := [(''B'', [''secret''])]\<rparr>))"
  by code_simp

lemma net_puts_frame:
  "\<exists>h. foldl (\<lambda>s (k, v). w_put net_writer (f k) v s) s xs = s\<lparr>n_header := h\<rparr>"
proof (induction xs arbitrary: s)
  case Nil
  show ?case by (rule exI [of _ "n_header s"]) simp
next
  case (Cons x xs)
  show ?case using Cons [of "w_put net_writer (f (fst x)) (snd x) s"] by (auto simp: split_beta)
qed

lemma io_Copy_net_started:
  "o_status (n_out s) \<noteq> 0 \<Longrightarrow> n_room s = None \<Longrightarrow>
   n_out (fst (io_Copy net_writer cs e s)) = (n_out s)\<lparr>o_body := o_body (n_out s) @ concat cs\<rparr>"
proof (induction cs arbitrary: s)
  case (Cons c cs)
  then show ?case using Cons.IH [of "fst (net_Write c s)"] by (simp add: net_Write_def Let_def split_beta)
qed simp

lemma bufferResponse_eq:
  "bufferResponse b = (if length (stream_bytes b) < failureResponseLimit
     then (case snd b of None \<Rightarrow> Inr (stream_bytes b) | Some e \<Rightarrow> Inl e)
     else Inl (Errorf (''response body exceeded maximum buffer size ('' @ format_nat failureResponseLimit @ '' bytes)'')))"
  unfolding bufferResponse_def Let_def stream_bytes_LimitReader
  by (simp add: LimitReader_def stream_bytes_def not_less min_def split: option.split)

text \<open>C24. A refusal of the backend goes back to the client with its status and its body, byte for byte,
  when the whole body is shorter than 32768 bytes; a longer one, or one that breaks off, gives
  a plain 500 and nothing of the body.\<close>

theorem passResponseBack_exact:
  assumes "rsp_StatusCode resp \<noteq> 0"
  shows "let v = n_out (fst (passResponseBack resp net_writer (new_response, m))); b = rsp_Body resp
    in if length (stream_bytes b) < 32768 \<and> snd b = None
       then o_status v = rsp_StatusCode resp \<and> o_body v = stream_bytes b
       else o_status v = 500 \<and> o_body v = ''Internal server error'' @ [CHR 0x0A]"
proof (cases "length (stream_bytes (rsp_Body resp)) < 32768 \<and> snd (rsp_Body resp) = None")
  case True
  obtain h where h: "foldl (\<lambda>s (k, v). w_put net_writer (if k = ''Www-Authenticate'' then ''WWW-Authenticate'' else k) v s)
      new_response (rsp_Header resp) = new_response\<lparr>n_header := h\<rparr>"
    using net_puts_frame [of "\<lambda>k. if k = ''Www-Authenticate'' then ''WWW-Authenticate'' else k"] by blast
  let ?s = "net_WriteHeader (rsp_StatusCode resp) (new_response\<lparr>n_header := h\<rparr>)"
  have "n_out ?s = \<lparr>o_status = rsp_StatusCode resp, o_header = h, o_body = []\<rparr>" "n_room ?s = None"
    by (simp_all add: net_WriteHeader_def) (simp_all add: new_response_def)
  then have "n_out (fst (io_Copy net_writer (fst (reader_of (stream_bytes (rsp_Body resp)))) None ?s)) =
      \<lparr>o_status = rsp_StatusCode resp, o_header = h, o_body = stream_bytes (rsp_Body resp)\<rparr>"
    using assms by (simp add: io_Copy_net_started) (simp add: reader_of_def)
  with True h show ?thesis
    by (simp add: passResponseBack_def bufferResponse_eq failureResponseLimit_def Let_def)
next
  case False
  then obtain e where "bufferResponse (rsp_Body resp) = Inl e"
    by (cases "length (stream_bytes (rsp_Body resp)) < 32768") (auto simp: bufferResponse_eq failureResponseLimit_def)
  with False show ?thesis
    using net.http_Error_fresh(1) [of new_response 500 "''Internal server error''"]
    by (auto simp: passResponseBack_def Fail500_def Let_def http_Error_def net_WriteHeader_def net_Write_def
        new_response_def no_response_def)
qed

theorem passResponseBack_exact_witness:
  "o_status (n_out (fst (passResponseBack \<lparr>rsp_Status = ''403 Forbidden'', rsp_StatusCode = 403, rsp_Header = [(''Www-Authenticate'', [''Basic''])],
      rsp_Body = ([''go '', ''away''], None)\<rparr> net_writer (new_response, \<lparr>requestsCounter = (\<lambda>_. 0), bytesTotal = 0\<rparr>)))) = 403"
  using passResponseBack_exact [of "\<lparr>rsp_Status = ''403 Forbidden'', rsp_StatusCode = 403, rsp_Header = [(''Www-Authenticate'', [''Basic''])],
      rsp_Body = ([''go '', ''away''], None)\<rparr>" "\<lparr>requestsCounter = (\<lambda>_. 0), bytesTotal = 0\<rparr>"]
  by (simp add: stream_bytes_def Let_def)

end
