(* ===== verification/Codec.thy ===== *)
theory Codec
  imports Prelude
begin

text \<open>
  The byte encodings of \<open>encoding/hex\<close> and \<open>encoding/base64\<close> that the program exchanges with the
  backend and the browser, and that decoding undoes encoding. \<open>url\<close> selects the URL alphabet.
\<close>

section \<open>Hexadecimal\<close>

fun hex_encode :: "bytes \<Rightarrow> string" where
  "hex_encode [] = []"
| "hex_encode (b # bs) = hex_lower (of_char b div 16) # hex_lower (of_char b mod 16) # hex_encode bs"

definition hex_value :: "char \<Rightarrow> nat option" where
  "hex_value c =
     (let n = of_char c in
      if 48 \<le> n \<and> n \<le> 57 then Some (n - 48)
      else if 97 \<le> n \<and> n \<le> 102 then Some (n - 87)
      else if 65 \<le> n \<and> n \<le> 70 then Some (n - 55) else None)"

fun hex_decode :: "string \<Rightarrow> bytes option" where
  "hex_decode [] = Some []"
| "hex_decode [c] = None"
| "hex_decode (c # d # s) =
     (case (hex_value c, hex_value d) of
        (Some x, Some y) \<Rightarrow> map_option (\<lambda>bs. char_of (16 * x + y) # bs) (hex_decode s)
      | _ \<Rightarrow> None)"

section \<open>Base 64\<close>

definition b64_char :: "bool \<Rightarrow> nat \<Rightarrow> char" where
  "b64_char url n =
     (if n < 26 then char_of (65 + n) else if n < 52 then char_of (71 + n) else if n < 62 then char_of (n - 4)
      else if n = 62 then (if url then CHR ''-'' else CHR ''+'') else (if url then CHR ''_'' else CHR ''/''))"

definition b64_value :: "bool \<Rightarrow> char \<Rightarrow> nat option" where
  "b64_value url c =
     (let n = of_char c in
      if 65 \<le> n \<and> n \<le> 90 then Some (n - 65)
      else if 97 \<le> n \<and> n \<le> 122 then Some (n - 71)
      else if 48 \<le> n \<and> n \<le> 57 then Some (n + 4)
      else if c = (if url then CHR ''-'' else CHR ''+'') then Some 62
      else if c = (if url then CHR ''_'' else CHR ''/'') then Some 63 else None)"

fun b64_encode :: "bool \<Rightarrow> bytes \<Rightarrow> string" where
  "b64_encode url [] = []"
| "b64_encode url [a] =
     (let x = of_char a in [b64_char url (x div 4), b64_char url (x mod 4 * 16), CHR ''='', CHR ''=''])"
| "b64_encode url [a, b] =
     (let x = of_char a; y = of_char b in
      [b64_char url (x div 4), b64_char url (x mod 4 * 16 + y div 16), b64_char url (y mod 16 * 4), CHR ''=''])"
| "b64_encode url (a # b # c # bs) =
     (let x = of_char a; y = of_char b; z = of_char c in
      b64_char url (x div 4) # b64_char url (x mod 4 * 16 + y div 16) #
      b64_char url (y mod 16 * 4 + z div 64) # b64_char url (z mod 64) # b64_encode url bs)"

text \<open>One quantum, padded or not; bits beyond the last byte are ignored, as Go does by default.\<close>

definition b64_bytes :: "nat \<Rightarrow> nat \<Rightarrow> nat \<Rightarrow> nat \<Rightarrow> bytes" where
  "b64_bytes i j k l = [char_of (i * 4 + j div 16), char_of (j mod 16 * 16 + k div 4), char_of (k mod 4 * 64 + l)]"

fun b64_quanta :: "bool \<Rightarrow> string \<Rightarrow> bytes option" where
  "b64_quanta url [] = Some []"
| "b64_quanta url (a # b # c # d # s) =
     (case (b64_value url a, b64_value url b) of
        (Some i, Some j) \<Rightarrow>
          if c = CHR ''='' then (if d = CHR ''='' \<and> s = [] then Some (take 1 (b64_bytes i j 0 0)) else None)
          else (case b64_value url c of
              None \<Rightarrow> None
            | Some k \<Rightarrow>
                if d = CHR ''='' then (if s = [] then Some (take 2 (b64_bytes i j k 0)) else None)
                else (case b64_value url d of
                    None \<Rightarrow> None
                  | Some l \<Rightarrow> map_option (\<lambda>bs. b64_bytes i j k l @ bs) (b64_quanta url s)))
      | _ \<Rightarrow> None)"
| "b64_quanta url s = None"

text \<open>The decoder skips line breaks wherever they are.\<close>

definition b64_decode :: "bool \<Rightarrow> string \<Rightarrow> bytes option" where
  "b64_decode url s = b64_quanta url (filter (\<lambda>c. c \<noteq> CHR 0x0A \<and> c \<noteq> CHR 0x0D) s)"

section \<open>Decoding undoes encoding\<close>

lemma of_char_less: "(of_char c :: nat) < 256"
  by (metis of_char_mod_256 mod_less_divisor zero_less_numeral)

lemma hex_value_digit: "n < 16 \<Longrightarrow> hex_value (hex_lower n) = Some n"
  by (simp add: hex_value_def hex_lower_def Let_def)

lemma hex_decode_encode [simp]: "hex_decode (hex_encode bs) = Some bs"
proof (induction bs)
  case (Cons b bs)
  have "(of_char b :: nat) div 16 < 16" using of_char_less [of b] by linarith
  moreover have "16 * ((of_char b :: nat) div 16) + of_char b mod 16 = of_char b" by simp
  ultimately show ?case using Cons by (simp add: hex_value_digit)
qed simp

lemma b64_char_facts:
  assumes "n < 64"
  shows "b64_value url (b64_char url n) = Some n" "b64_char url n \<noteq> CHR ''=''"
    "b64_char url n \<noteq> CHR 0x0A" "b64_char url n \<noteq> CHR 0x0D"
proof -
  consider "n < 26" | "26 \<le> n" "n < 52" | "52 \<le> n" "n < 62" | "n = 62" | "n = 63"
    using assms by linarith
  then have "b64_value url (b64_char url n) = Some n \<and> (of_char (b64_char url n) :: nat) \<notin> {61, 10, 13}"
    by cases (auto simp: b64_char_def b64_value_def Let_def)
  then show "b64_value url (b64_char url n) = Some n" "b64_char url n \<noteq> CHR ''=''"
    "b64_char url n \<noteq> CHR 0x0A" "b64_char url n \<noteq> CHR 0x0D" by auto
qed

lemma b64_indices:
  "(of_char a :: nat) div 4 < 64" "(of_char a :: nat) mod 4 * 16 < 64"
  "(of_char a :: nat) mod 4 * 16 + of_char b div 16 < 64"
  "(of_char b :: nat) mod 16 * 4 < 64" "(of_char b :: nat) mod 16 * 4 + of_char c div 64 < 64"
  "(of_char c :: nat) mod 64 < 64"
  using of_char_less [of a] of_char_less [of b] of_char_less [of c] by linarith+

lemma div_mod_split: "(y :: nat) < n \<Longrightarrow> (x * n + y) div n = x" "(y :: nat) < n \<Longrightarrow> (x * n + y) mod n = y"
  by simp_all

lemma b64_bytes_back:
  "b64_bytes (of_char a div 4) (of_char a mod 4 * 16 + of_char b div 16) (of_char b mod 16 * 4 + of_char c div 64)
     (of_char c mod 64) = [a, b, c]"
proof -
  have "(of_char b :: nat) div 16 < 16" "(of_char c :: nat) div 64 < 4"
    using of_char_less [of b] of_char_less [of c] by linarith+
  then show ?thesis by (simp add: b64_bytes_def div_mod_split mult.commute)
qed

lemma b64_bytes_back1: "take 1 (b64_bytes (of_char a div 4) (of_char a mod 4 * 16) 0 0) = [a]"
  by (simp add: b64_bytes_def mult.commute)

lemma b64_bytes_back2:
  "take 2 (b64_bytes (of_char a div 4) (of_char a mod 4 * 16 + of_char b div 16) (of_char b mod 16 * 4) 0) = [a, b]"
proof -
  have "(of_char b :: nat) div 16 < 16" using of_char_less [of b] by linarith
  then show ?thesis by (simp add: b64_bytes_def div_mod_split mult.commute)
qed

lemma b64_encode_no_break: "c \<in> set (b64_encode url bs) \<Longrightarrow> c \<noteq> CHR 0x0A \<and> c \<noteq> CHR 0x0D"
  by (induction url bs rule: b64_encode.induct) (auto simp: Let_def b64_char_facts b64_indices)

lemma b64_quanta_encode: "b64_quanta url (b64_encode url bs) = Some bs"
  by (induction url bs rule: b64_encode.induct)
    (simp_all add: Let_def b64_char_facts b64_indices b64_bytes_back1 b64_bytes_back2 b64_bytes_back del: One_nat_def)

lemma b64_decode_encode [simp]: "b64_decode url (b64_encode url bs) = Some bs"
proof -
  have "filter (\<lambda>c. c \<noteq> CHR 0x0A \<and> c \<noteq> CHR 0x0D) (b64_encode url bs) = b64_encode url bs"
    using b64_encode_no_break by (simp add: filter_id_conv)
  then show ?thesis by (simp add: b64_decode_def b64_quanta_encode)
qed

end
