(* ===== verification/Object_Store.thy ===== *)
theory Object_Store
  imports Api Codec
begin

text \<open>
  \<open>internal/objectstore\<close>: uploads to an S3 compatible store, in one request (\<open>object.go\<close>) or in parts
  (\<open>multipart.go\<close>, \<open>s3_complete_multipart_api.go\<close>), on the common \<open>uploader.go\<close>.

  The store is a parameter: \<open>http_do\<close> sends a request to it and changes its state, as \<open>httpClient.Do\<close> does,
  reading the request body to its end. So are the URL parser of \<open>http.NewRequest\<close>, MD5, the XML
  encoder and decoder, and the errors of creating temporary files. The goroutine that uploads is
  one function, from the bytes written to the pipe to the \<open>uploadError\<close> it leaves; how it interleaves
  with the clean-up and with the deadline is the step relation at the end.
\<close>

section \<open>The uploader\<close>

text \<open>\<open>rawETag[1 : len(rawETag)-1]\<close> panics when there is only one character.\<close>

definition extractETag :: "string \<Rightarrow> string go" where
  "extractETag rawETag =
     (if rawETag \<noteq> [] \<and> hd rawETag = CHR 0x22 then
        (if length rawETag - 1 < 1 then Panic ''slice bounds out of range''
         else Return (drop 1 (take (length rawETag - 1) rawETag)))
      else Return rawETag)"

text \<open>\<open>hasher\<close> is \<open>None\<close> for an uploader without MD5.\<close>

definition md5Sum :: "(bytes \<Rightarrow> bytes) option \<Rightarrow> bytes \<Rightarrow> string" where
  "md5Sum hasher data = (case hasher of None \<Rightarrow> [] | Some md5 \<Rightarrow> hex_encode (md5 data))"

definition uploader_Close :: "gerror option \<Rightarrow> gerror option \<Rightarrow> gerror option \<Rightarrow> gerror option" where
  "uploader_Close closeErr ctxErr uploadError =
     (if closeErr \<noteq> None then closeErr
      else if ctxErr = Some DeadlineExceeded then ctxErr else uploadError)"

type_synonym 'r client = "request \<Rightarrow> 'r \<Rightarrow> http_response result \<times> 'r"

definition client_request :: "string \<Rightarrow> url \<Rightarrow> header \<Rightarrow> bytes \<Rightarrow> int \<Rightarrow> request" where
  "client_request method u h body len =
     \<lparr>req_Method = method, req_URL = u, req_RequestURI = [], req_Header = h, req_Body = reader_of body,
      req_ContentLength = len, req_Host = url_Host u, req_RemoteAddr = [], req_ProtoMajor = 1, req_ProtoMinor = 1\<rparr>"

definition syncAndDelete :: "(string \<Rightarrow> url result) \<Rightarrow> 'r client \<Rightarrow> string \<Rightarrow> 'r \<Rightarrow> 'r" where
  "syncAndDelete parse http_do u rem =
     (if u = [] then rem
      else case parse u of
        Inl err \<Rightarrow> rem
      | Inr u \<Rightarrow> snd (http_do (client_request ''DELETE'' u [] [] 0) rem))"

section \<open>Single requests\<close>

record upload_metrics =
  uploadRequests :: "string \<Rightarrow> nat"
  uploadsOpen :: int

definition count_upload :: "bool \<Rightarrow> string \<Rightarrow> upload_metrics \<Rightarrow> upload_metrics" where
  "count_upload metrics l m =
     (if metrics then m\<lparr>uploadRequests := (uploadRequests m)(l := Suc (uploadRequests m l))\<rparr> else m)"

definition put_request :: "url \<Rightarrow> (string \<times> string) list \<Rightarrow> bytes \<Rightarrow> int \<Rightarrow> request" where
  "put_request u putHeaders data sz =
     client_request ''PUT'' u (foldl (\<lambda>h (k, v). Header_Set h k v) [] putHeaders) data sz"

text \<open>
  The uploading goroutine of \<open>newObject\<close> for the bytes \<open>data\<close>: \<open>uploadError\<close> and \<open>etag\<close> as it leaves them.
\<close>

definition object_upload :: "'r client \<Rightarrow> (bytes \<Rightarrow> bytes) \<Rightarrow> bool \<Rightarrow> string \<Rightarrow> url \<Rightarrow> (string \<times> string) list \<Rightarrow>
    int \<Rightarrow> bytes \<Rightarrow> 'r \<times> upload_metrics \<Rightarrow> (gerror option \<times> string) go \<times> 'r \<times> upload_metrics" where
  "object_upload http_do md5 metrics putURL u putHeaders sz data rm =
     (let (res, rem) = http_do (put_request u putHeaders data sz) (fst rm) in
      case res of
        Inl err \<Rightarrow>
          (Return (Some (wrap_err (''PUT request '' @ Quote (ScrubURLParams putURL) @ '': '') err), []),
           rem, count_upload metrics ''request-failed'' (snd rm))
      | Inr resp \<Rightarrow>
          if rsp_StatusCode resp \<noteq> 200 then
            (Return (Some (Errorf (''PUT request '' @ ScrubURLParams putURL @ '' returned: '' @ rsp_Status resp)), []),
             rem, count_upload metrics ''invalid-status'' (snd rm))
          else
            (bind_go (extractETag (Header_Get (rsp_Header resp) ''ETag''))
               (\<lambda>etag. Return (if etag \<noteq> md5Sum (Some md5) data
                  then Some (Errorf (''ETag mismatch. expected '' @ Quote (md5Sum (Some md5) data) @ '' got '' @ Quote etag)) else None, etag)),
             rem, snd rm))"

text \<open>\<open>newObject\<close>, \<open>Write\<close> of all the data and \<open>Close\<close>, with no deadline in between.\<close>

definition newObject :: "(string \<Rightarrow> url result) \<Rightarrow> 'r client \<Rightarrow> (bytes \<Rightarrow> bytes) \<Rightarrow> bool \<Rightarrow> string \<Rightarrow> (string \<times> string) list \<Rightarrow>
    int \<Rightarrow> bytes \<Rightarrow> 'r \<times> upload_metrics \<Rightarrow> (gerror option \<times> string) go \<times> 'r \<times> upload_metrics" where
  "newObject parse http_do md5 metrics putURL putHeaders sz data rm =
     (case parse putURL of
        Inl err \<Rightarrow>
          (Return (Some (wrap_err (''PUT '' @ Quote (ScrubURLParams putURL) @ '': '') err), []), fst rm,
           count_upload metrics ''request-failed'' (snd rm))
      | Inr u \<Rightarrow>
          let d = (if metrics then 1 else 0); m = snd rm;
              (res, rem, m) = object_upload http_do md5 metrics putURL u putHeaders sz data
                (fst rm, m\<lparr>uploadsOpen := uploadsOpen m + d\<rparr>)
          in (res, rem, m\<lparr>uploadsOpen := uploadsOpen m - d\<rparr>))"

section \<open>Multipart uploads\<close>

record completeMultipartUploadPart =
  PartNumber :: int
  part_ETag :: string

datatype complete_answer =
    Complete_result string
  | Complete_error string string
  | Complete_neither

fun part_checksums :: "completeMultipartUploadPart list \<Rightarrow> bytes option" where
  "part_checksums [] = Some []"
| "part_checksums (p # ps) =
     (case hex_decode (part_ETag p) of
        None \<Rightarrow> None
      | Some checksum \<Rightarrow> map_option (\<lambda>bs. checksum @ bs) (part_checksums ps))"

definition BuildMultipartUploadETag :: "(bytes \<Rightarrow> bytes) \<Rightarrow> completeMultipartUploadPart list \<Rightarrow> string result" where
  "BuildMultipartUploadETag md5 parts =
     (case part_checksums parts of
        None \<Rightarrow> Inl (Errorf ''encoding/hex: invalid byte'')
      | Some bs \<Rightarrow> Inr (hex_encode (md5 bs) @ ''-'' @ format_nat (length parts)))"

definition verifyETag :: "(bytes \<Rightarrow> bytes) \<Rightarrow> string \<Rightarrow> completeMultipartUploadPart list \<Rightarrow> gerror option" where
  "verifyETag md5 etag parts =
     (case BuildMultipartUploadETag md5 parts of
        Inl err \<Rightarrow> Some err
      | Inr expectedChecksum \<Rightarrow>
          if expectedChecksum \<noteq> etag then Some (Errorf (''got '' @ Quote etag @ '' expected '' @ Quote expectedChecksum)) else None)"

record 'r store_env =
  env_parse :: "string \<Rightarrow> url result"
  env_do :: "'r client"
  env_md5 :: "bytes \<Rightarrow> bytes"
  env_marshal :: "completeMultipartUploadPart list \<Rightarrow> bytes result"
  env_decode :: "stream \<Rightarrow> complete_answer result"
  env_tempfile :: "nat \<Rightarrow> gerror option"

definition complete_request :: "url \<Rightarrow> bytes \<Rightarrow> request" where
  "complete_request u body =
     client_request ''POST'' u (Header_Set [] ''Content-Type'' ''application/xml'') body (int (length body))"

definition multipart_complete :: "'r store_env \<Rightarrow> string \<Rightarrow> completeMultipartUploadPart list \<Rightarrow> 'r \<Rightarrow>
    (gerror option \<times> string) go \<times> 'r" where
  "multipart_complete env completeURL parts rem =
     (case env_marshal env parts of
        Inl err \<Rightarrow> (Return (Some (wrap_err ''Cannot marshal CompleteMultipartUpload request: '' err), []), rem)
      | Inr body \<Rightarrow>
          (case env_parse env completeURL of
             Inl err \<Rightarrow> (Return (Some (wrap_err ''Cannot create CompleteMultipartUpload request: '' err), []), rem)
           | Inr u \<Rightarrow>
               let (res, rem) = env_do env (complete_request u body) rem in
               (case res of
                  Inl err \<Rightarrow> (Return (Some (wrap_err (''CompleteMultipartUpload request '' @ Quote (ScrubURLParams completeURL) @ '': '') err), []), rem)
                | Inr resp \<Rightarrow>
                    if rsp_StatusCode resp \<noteq> 200 then
                      (Return (Some (Errorf (''CompleteMultipartUpload request '' @ ScrubURLParams completeURL @ '' returned: ''
                         @ rsp_Status resp)), []), rem)
                    else (case env_decode env (rsp_Body resp) of
                        Inl err \<Rightarrow> (Return (Some (wrap_err ''Cannot decode CompleteMultipartUpload answer: '' err), []), rem)
                      | Inr (Complete_error code msg) \<Rightarrow>
                          (Return (Some (Errorf (''CompleteMultipartUpload remote error '' @ Quote code @ '': '' @ msg)), []), rem)
                      | Inr Complete_neither \<Rightarrow> (Return (Some (Errorf ''Cannot read CompleteMultipartUpload answer''), []), rem)
                      | Inr (Complete_result etag) \<Rightarrow>
                          (bind_go (extractETag etag) (\<lambda>etag. Return
                             (map_option (wrap_err ''ETag verification failure: '') (verifyETag (env_md5 env) etag parts), etag)), rem)))))"

text \<open>\<open>Inr None\<close>: there was nothing left to read.\<close>

definition readAndUploadOnePart :: "'r store_env \<Rightarrow> string \<Rightarrow> (string \<times> string) list \<Rightarrow> bytes \<Rightarrow> nat \<Rightarrow>
    'r \<times> upload_metrics \<Rightarrow> completeMultipartUploadPart option result go \<times> 'r \<times> upload_metrics" where
  "readAndUploadOnePart env partURL putHeaders src partNumber rm =
     (case env_tempfile env partNumber of
        Some err \<Rightarrow> (Return (Inl (wrap_err ''Unable to create a temporary file for buffering: '' err)), rm)
      | None \<Rightarrow>
          if src = [] then (Return (Inr None), rm) else
          let (res, rm) = newObject (env_parse env) (env_do env) (env_md5 env) False partURL putHeaders (int (length src)) src rm
          in (bind_go res (\<lambda>(err, etag). Return (case err of
                Some e \<Rightarrow> Inl (wrap_err (''Cannot upload part '' @ format_nat partNumber @ '': '') e)
              | None \<Rightarrow> Inr (Some \<lparr>PartNumber = int partNumber, part_ETag = etag\<rparr>))), rm))"

text \<open>The loop over \<open>partURLs\<close>: the parts so far, and what is left of the data.\<close>

fun upload_parts :: "'r store_env \<Rightarrow> nat \<Rightarrow> (string \<times> string) list \<Rightarrow> string list \<Rightarrow> nat \<Rightarrow> bytes \<Rightarrow>
    completeMultipartUploadPart list \<Rightarrow> 'r \<times> upload_metrics \<Rightarrow>
    (completeMultipartUploadPart list \<times> bytes) result go \<times> 'r \<times> upload_metrics" where
  "upload_parts env partSize putHeaders [] i data parts rm = (Return (Inr (parts, data)), rm)"
| "upload_parts env partSize putHeaders (partURL # urls) i data parts rm =
     (case readAndUploadOnePart env partURL putHeaders (take partSize data) (Suc i) rm of
        (Panic msg, rm) \<Rightarrow> (Panic msg, rm)
      | (Return (Inl err), rm) \<Rightarrow> (Return (Inl err), rm)
      | (Return (Inr None), rm) \<Rightarrow> (Return (Inr (parts, drop partSize data)), rm)
      | (Return (Inr (Some part)), rm) \<Rightarrow>
          upload_parts env partSize putHeaders urls (Suc i) (drop partSize data) (parts @ [part]) rm)"

text \<open>
  The uploading goroutine of \<open>NewMultipart\<close>: \<open>uploadError\<close> and the ETag. A part size that is not positive
  makes \<open>io.LimitReader\<close> end at once.
\<close>

definition NewMultipart :: "'r store_env \<Rightarrow> string list \<Rightarrow> string \<Rightarrow> (string \<times> string) list \<Rightarrow> int \<Rightarrow> bytes \<Rightarrow>
    'r \<times> upload_metrics \<Rightarrow> (gerror option \<times> string) go \<times> 'r \<times> upload_metrics" where
  "NewMultipart env partURLs completeURL putHeaders partSize data rm =
     (let m = snd rm;
          rm = (fst rm, m\<lparr>uploadsOpen := uploadsOpen m + 1\<rparr>);
          (res, rem, m) =
            (case upload_parts env (nat partSize) putHeaders partURLs 0 data [] rm of
               (Panic msg, rm) \<Rightarrow> (Panic msg, rm)
             | (Return (Inl err), rm) \<Rightarrow> (Return (Some err, []), rm)
             | (Return (Inr (parts, rest)), rm) \<Rightarrow>
                 if length rest > 0 then (Return (Some ErrNotEnoughParts, []), rm)
                 else (case multipart_complete env completeURL parts (fst rm) of (res, rem) \<Rightarrow> (res, rem, snd rm)))
      in (res, rem, m\<lparr>uploadsOpen := uploadsOpen m - 1\<rparr>))"

section \<open>What a multipart upload sends\<close>

text \<open>Sending one part, and the list of parts the store is asked to assemble.\<close>

definition put_chunk :: "'r store_env \<Rightarrow> (string \<times> string) list \<Rightarrow> 'r \<Rightarrow> string \<times> bytes \<Rightarrow> 'r" where
  "put_chunk env putHeaders rem = (\<lambda>(u, c).
     case env_parse env u of Inl _ \<Rightarrow> rem | Inr u \<Rightarrow> snd (env_do env (put_request u putHeaders c (int (length c))) rem))"

fun parts_of :: "(bytes \<Rightarrow> bytes) \<Rightarrow> nat \<Rightarrow> bytes list \<Rightarrow> completeMultipartUploadPart list" where
  "parts_of md5 i [] = []"
| "parts_of md5 i (c # cs) = \<lparr>PartNumber = int (Suc i), part_ETag = hex_encode (md5 c)\<rparr> # parts_of md5 (Suc i) cs"

lemma length_parts_of [simp]: "length (parts_of md5 i cs) = length cs"
  by (induction cs arbitrary: i) simp_all

lemma part_checksums_of: "part_checksums (parts_of md5 i cs) = Some (concat (map md5 cs))"
  by (induction cs arbitrary: i) simp_all

lemma one_part:
  assumes "readAndUploadOnePart env u h src i (rem, m) = (Return (Inr res), rm')"
  shows "(src = [] \<and> res = None \<and> rm' = (rem, m)) \<or>
    (src \<noteq> [] \<and> res = Some \<lparr>PartNumber = int i, part_ETag = hex_encode (env_md5 env src)\<rparr> \<and>
     rm' = (put_chunk env h rem (u, src), m))"
proof (cases "src = []")
  case True
  then show ?thesis using assms by (simp add: readAndUploadOnePart_def split: option.splits)
next
  case src: False
  show ?thesis
  proof (cases "env_parse env u")
    case (Inl e)
    then show ?thesis using assms src
      by (simp add: readAndUploadOnePart_def newObject_def split: option.splits)
  next
    case (Inr v)
    obtain res' rem' where d: "env_do env (put_request v h src (int (length src))) rem = (res', rem')"
      by (cases "env_do env (put_request v h src (int (length src))) rem")
    then show ?thesis using assms src Inr
      by (cases res') (auto simp: readAndUploadOnePart_def newObject_def object_upload_def put_chunk_def md5Sum_def
          count_upload_def Let_def bind_go_Return split: option.splits if_splits)
  qed
qed

lemma upload_parts_success:
  assumes "upload_parts env n h urls i data parts (rem, m) = (Return (Inr (ps, rest)), rm')"
  shows "ps = parts @ parts_of (env_md5 env) i (take (length urls) (chunks n data)) \<and>
    rest = (if n = 0 then data else drop (n * length urls) data) \<and>
    rm' = (foldl (put_chunk env h) rem (zip urls (take (length urls) (chunks n data))), m)"
  using assms
proof (induction urls arbitrary: i data parts rem)
  case Nil
  then show ?case by simp
next
  case (Cons u urls)
  from Cons.prems obtain res rm1 where
    one: "readAndUploadOnePart env u h (take n data) (Suc i) (rem, m) = (Return (Inr res), rm1)"
    by (auto split: prod.splits go.splits sum.splits)
  show ?case
  proof (cases "take n data = []")
    case True
    then have "res = None" "rm1 = (rem, m)" using one_part [OF one] by simp_all
    then have "ps = parts" "rest = drop n data" "rm' = (rem, m)" using Cons.prems one by simp_all
    moreover have "chunks n data = []" using True by auto
    ultimately show ?thesis using True by (auto simp: drop_eq_Nil)
  next
    case False
    then have n: "0 < n" "data \<noteq> []" by auto
    have res: "res = Some \<lparr>PartNumber = int (Suc i), part_ETag = hex_encode (env_md5 env (take n data))\<rparr>"
      "rm1 = (put_chunk env h rem (u, take n data), m)"
      using one_part [OF one] False by simp_all
    then have "upload_parts env n h urls (Suc i) (drop n data)
        (parts @ [\<lparr>PartNumber = int (Suc i), part_ETag = hex_encode (env_md5 env (take n data))\<rparr>])
        (put_chunk env h rem (u, take n data), m) = (Return (Inr (ps, rest)), rm')"
      using Cons.prems one by simp
    from Cons.IH [OF this] n show ?thesis
      by (simp add: chunks_step [OF n] add.commute)
  qed
qed

lemma complete_success:
  assumes "multipart_complete env completeURL parts rem = (Return (None, etag), rem')"
  shows "\<exists>u body. env_parse env completeURL = Inr u \<and> env_marshal env parts = Inr body \<and>
    rem' = snd (env_do env (complete_request u body) rem) \<and> BuildMultipartUploadETag (env_md5 env) parts = Inr etag"
  using assms
  by (auto simp: multipart_complete_def verifyETag_def bind_go_Return Let_def
      split: sum.splits prod.splits if_splits complete_answer.splits)

lemma multipart_success:
  assumes "NewMultipart env urls completeURL h partSize data (rem, m) = (Return (None, etag), rem', m')"
  shows "\<exists>parts rest rem1. upload_parts env (nat partSize) h urls 0 data [] (rem, m\<lparr>uploadsOpen := uploadsOpen m + 1\<rparr>) =
      (Return (Inr (parts, rest)), rem1, m\<lparr>uploadsOpen := uploadsOpen m + 1\<rparr>) \<and> rest = [] \<and> m' = m \<and>
      multipart_complete env completeURL parts rem1 = (Return (None, etag), rem')"
proof -
  let ?m = "m\<lparr>uploadsOpen := uploadsOpen m + 1\<rparr>"
  obtain res rm1 where up: "upload_parts env (nat partSize) h urls 0 data [] (rem, ?m) = (res, rm1)"
    by (cases "upload_parts env (nat partSize) h urls 0 data [] (rem, ?m)")
  then obtain parts rest where res: "res = Return (Inr (parts, rest))"
    using assms by (auto simp: NewMultipart_def Let_def split: go.splits sum.splits prod.splits)
  then have rm1: "snd rm1 = ?m" using upload_parts_success up by fastforce
  then show ?thesis using assms up res
    by (cases rm1) (auto simp: NewMultipart_def Let_def split: if_splits prod.splits)
qed

text \<open>Every other failure is a wrapped error, so none is taken for \<open>ErrNotEnoughParts\<close>.\<close>

lemma one_part_error:
  "readAndUploadOnePart env u h src i rm = (Return (Inl e), rm') \<Longrightarrow> e \<noteq> ErrNotEnoughParts"
  by (auto simp: readAndUploadOnePart_def wrap_err_def bind_go_Return split: option.splits if_splits prod.splits)

lemma upload_parts_error:
  "upload_parts env n h urls i data parts rm = (res, rm') \<Longrightarrow> res \<noteq> Return (Inl ErrNotEnoughParts)"
proof (induction urls arbitrary: i data parts rm)
  case (Cons u urls)
  then show ?case
    by (auto split: prod.splits go.splits sum.splits option.splits dest: one_part_error)
qed auto

lemma complete_error:
  "multipart_complete env completeURL parts rem \<noteq> (Return (Some ErrNotEnoughParts, etag), rem')"
  by (auto simp: multipart_complete_def wrap_err_def bind_go_Return Let_def
      split: sum.splits prod.splits if_splits complete_answer.splits)

section \<open>Interleaving with the deadline and the clean-up\<close>

text \<open>
  The contexts and goroutines of \<open>NewMultipart\<close>: the upload's own context is done when the deadline
  passes, when the caller's context is done, or when the uploading goroutine calls \<open>cancelFn\<close>, which
  it does after it has set \<open>uploadError\<close>. \<open>cleanup\<close> waits for the context, then reads \<open>uploadError\<close> once.
\<close>

datatype clean_phase = Clean_waiting | Clean_succeeded | Clean_aborted | Clean_deleted

record multipart_sys =
  mp_uploadError :: "gerror option"
  mp_finished :: bool
  mp_ctx_done :: bool
  mp_parent_done :: bool
  mp_clean :: clean_phase

inductive cleanup_step :: "multipart_sys \<Rightarrow> multipart_sys \<Rightarrow> bool" where
  finish: "\<not> mp_finished s \<Longrightarrow> cleanup_step s (s\<lparr>mp_finished := True, mp_uploadError := err\<rparr>)"
| cancel: "mp_finished s \<Longrightarrow> cleanup_step s (s\<lparr>mp_ctx_done := True\<rparr>)"
| deadline: "cleanup_step s (s\<lparr>mp_ctx_done := True\<rparr>)"
| parent: "cleanup_step s (s\<lparr>mp_ctx_done := True, mp_parent_done := True\<rparr>)"
| cleanup_error: "mp_clean s = Clean_waiting \<Longrightarrow> mp_ctx_done s \<Longrightarrow> mp_uploadError s \<noteq> None \<Longrightarrow>
    cleanup_step s (s\<lparr>mp_clean := Clean_aborted\<rparr>)"
| cleanup_ok: "mp_clean s = Clean_waiting \<Longrightarrow> mp_ctx_done s \<Longrightarrow> mp_uploadError s = None \<Longrightarrow>
    cleanup_step s (s\<lparr>mp_clean := Clean_succeeded\<rparr>)"
| cleanup_delete: "mp_clean s = Clean_succeeded \<Longrightarrow> mp_parent_done s \<Longrightarrow>
    cleanup_step s (s\<lparr>mp_clean := Clean_deleted\<rparr>)"

definition cleanup_start :: multipart_sys where
  "cleanup_start = \<lparr>mp_uploadError = None, mp_finished = False, mp_ctx_done = False, mp_parent_done = False,
     mp_clean = Clean_waiting\<rparr>"

section \<open>Properties\<close>

text \<open>C5. A multipart upload that reports success has stored the data: the parts sent are the data cut at
  the part size, in order, one per URL; the store was then asked to assemble exactly these
  parts, numbered from one; and the ETag it answered with is the one computed from their MD5
  sums.\<close>

theorem multipart_upload_complete:
  assumes "NewMultipart env urls completeURL h partSize data (rem, m) = (Return (None, etag), rem', m')"
  shows "let cs = chunks (nat partSize) data; parts = parts_of (env_md5 env) 0 cs in
    concat cs = data \<and> length cs \<le> length urls \<and> (\<forall>c \<in> set (butlast cs). length c = nat partSize) \<and>
    (\<exists>u body. env_parse env completeURL = Inr u \<and> env_marshal env parts = Inr body \<and>
       rem' = snd (env_do env (complete_request u body) (foldl (put_chunk env h) rem (zip urls cs)))) \<and>
    etag = hex_encode (env_md5 env (concat (map (env_md5 env) cs))) @ ''-'' @ format_nat (length cs) \<and> m' = m"
proof -
  define n where "n = nat partSize"
  define cs where "cs = chunks n data"
  let ?m = "m\<lparr>uploadsOpen := uploadsOpen m + 1\<rparr>"
  obtain parts rest rem1 where
    up: "upload_parts env n h urls 0 data [] (rem, ?m) = (Return (Inr (parts, rest)), rem1, ?m)"
    and "rest = []" "m' = m" and compl: "multipart_complete env completeURL parts rem1 = (Return (None, etag), rem')"
    using multipart_success [OF assms] unfolding n_def by blast
  note sent = upload_parts_success [OF up, folded cs_def]
  have all: "concat cs = data \<and> take (length urls) cs = cs"
  proof (cases "n = 0")
    case True
    then show ?thesis using sent \<open>rest = []\<close> by (simp add: cs_def)
  next
    case False
    then have "concat cs = data" by (simp add: cs_def concat_chunks)
    moreover have "length data \<le> n * length urls" using False sent \<open>rest = []\<close> by simp
    then have "concat (take (length urls) cs) = concat cs"
      using False take_chunks [of n "length urls" data] \<open>concat cs = data\<close> by (simp add: cs_def)
    ultimately show ?thesis using concat_take_all [of "length urls" cs] chunks_nonempty [of _ n data]
      by (auto simp: cs_def)
  qed
  then have parts: "parts = parts_of (env_md5 env) 0 cs" "rem1 = foldl (put_chunk env h) rem (zip urls cs)"
    using sent by simp_all
  have "length cs \<le> length urls" using all by (metis length_take min.cobounded1 min.commute)
  moreover have "etag = hex_encode (env_md5 env (concat (map (env_md5 env) cs))) @ ''-'' @ format_nat (length cs)"
    using complete_success [OF compl] by (auto simp: parts BuildMultipartUploadETag_def part_checksums_of)
  ultimately show ?thesis
    using all complete_success [OF compl] chunks_full [of n data] \<open>m' = m\<close>
    unfolding Let_def n_def [symmetric] cs_def [symmetric] parts by auto
qed

text \<open>A small store that accepts everything, with the identity for MD5.\<close>

definition sample_store :: "nat store_env" where
  "sample_store = \<lparr>env_parse = (\<lambda>u. Inr \<lparr>url_Scheme = ''http'', url_Host = ''s3'', url_Path = u, url_RawQuery = []\<rparr>),
     env_do = (\<lambda>q n. (Inr \<lparr>rsp_Status = ''200 OK'', rsp_StatusCode = 200,
        rsp_Header = [(''Etag'', [hex_encode (stream_bytes (req_Body q))])], rsp_Body = ([], None)\<rparr>, Suc n)),
     env_md5 = (\<lambda>b. b), env_marshal = (\<lambda>ps. Inr (concat (map part_ETag ps))),
     env_decode = (\<lambda>_. Inr (Complete_result ''616263-2'')), env_tempfile = (\<lambda>_. None)\<rparr>"

definition no_uploads :: upload_metrics where
  "no_uploads = \<lparr>uploadRequests = (\<lambda>_. 0), uploadsOpen = 0\<rparr>"

theorem multipart_upload_complete_witness:
  "snd (snd (NewMultipart sample_store [''/1'', ''/2'', ''/3''] ''/c'' [] 2 ''abc'' (0, no_uploads))) = no_uploads \<and>
   concat (chunks 2 ''abc'') = ''abc'' \<and> length (chunks 2 ''abc'') \<le> 3"
proof -
  let ?r = "NewMultipart sample_store [''/1'', ''/2'', ''/3''] ''/c'' [] 2 ''abc'' (0, no_uploads)"
  have "fst ?r = Return (None, ''616263-2'')" by code_simp
  then obtain rem' m' where r: "?r = (Return (None, ''616263-2''), rem', m')" by (cases ?r) auto
  from multipart_upload_complete [OF r] show ?thesis unfolding Let_def r by simp
qed

text \<open>The capacity of a multipart upload is the part size times the number of part URLs: more data never
  ends in success, and \<open>ErrNotEnoughParts\<close> is reported only for more data.\<close>

theorem multipart_capacity:
  assumes "fst (NewMultipart env urls completeURL h partSize data (rem, m)) = Return (err, etag)"
  shows "(err = None \<longrightarrow> length data \<le> nat partSize * length urls) \<and>
    (err = Some ErrNotEnoughParts \<longrightarrow> length data > nat partSize * length urls)"
proof -
  let ?m = "m\<lparr>uploadsOpen := uploadsOpen m + 1\<rparr>"
  obtain rem' m' where r: "NewMultipart env urls completeURL h partSize data (rem, m) = (Return (err, etag), rem', m')"
    using assms by (cases "NewMultipart env urls completeURL h partSize data (rem, m)") auto
  have "length data \<le> nat partSize * length urls" if ok: "err = None"
  proof -
    obtain parts rem1 where "upload_parts env (nat partSize) h urls 0 data [] (rem, ?m) = (Return (Inr (parts, [])), rem1, ?m)"
      using multipart_success [OF r [unfolded ok]] by blast
    from upload_parts_success [OF this] show ?thesis by (auto split: if_splits)
  qed
  moreover have "length data > nat partSize * length urls" if "err = Some ErrNotEnoughParts"
  proof -
    obtain res rm1 where up: "upload_parts env (nat partSize) h urls 0 data [] (rem, ?m) = (res, rm1)"
      by (cases "upload_parts env (nat partSize) h urls 0 data [] (rem, ?m)")
    obtain rem1 m1 where rm1: "rm1 = (rem1, m1)" by (cases rm1)
    have err: "res \<noteq> Return (Inl ErrNotEnoughParts)" using upload_parts_error [OF up] .
    have "\<exists>parts rest. res = Return (Inr (parts, rest)) \<and> rest \<noteq> []"
    proof (cases res)
      case (Panic msg)
      then show ?thesis using r up by (simp add: NewMultipart_def Let_def rm1)
    next
      case (Return x)
      show ?thesis
      proof (cases x)
        case (Inl e)
        then show ?thesis using r up that err Return by (simp add: NewMultipart_def Let_def rm1)
      next
        case (Inr pr)
        obtain parts rest where pr: "pr = (parts, rest)" by (cases pr)
        obtain a b where c: "multipart_complete env completeURL parts rem1 = (a, b)"
          by (cases "multipart_complete env completeURL parts rem1")
        then have "a \<noteq> Return (Some ErrNotEnoughParts, etag)" using complete_error [of env completeURL parts rem1 etag b] by auto
        then show ?thesis using r up that Return Inr pr c by (auto simp: NewMultipart_def Let_def rm1 split: if_splits)
      qed
    qed
    then obtain parts rest where res: "res = Return (Inr (parts, rest))" "rest \<noteq> []" by blast
    from upload_parts_success [OF up [unfolded res(1)]] res(2) show ?thesis
      by (auto simp: not_less split: if_splits)
  qed
  ultimately show ?thesis by blast
qed

theorem multipart_capacity_witness:
  "fst (NewMultipart sample_store [''/1''] ''/c'' [] 2 ''abc'' (0, no_uploads)) = Return (Some ErrNotEnoughParts, []) \<and>
   length ''abc'' > nat 2 * length [''/1'']"
proof -
  have r: "fst (NewMultipart sample_store [''/1''] ''/c'' [] 2 ''abc'' (0, no_uploads)) = Return (Some ErrNotEnoughParts, [])"
    by code_simp
  from multipart_capacity [OF r] r show ?thesis by simp
qed

text \<open>\<open>extractETag\<close> takes the quotes off a quoted ETag and leaves an unquoted one alone, but an answer whose
  ETag header is a single quote makes it panic, in a goroutine that nothing recovers.\<close>

theorem extractETag_cases:
  "extractETag ([CHR 0x22] @ tag @ [CHR 0x22]) = Return tag \<and>
   (hd (tag @ ''x'') \<noteq> CHR 0x22 \<longrightarrow> extractETag tag = Return tag) \<and>
   extractETag [CHR 0x22] = Panic ''slice bounds out of range''"
  by (cases tag) (simp_all add: extractETag_def)

theorem extractETag_cases_witness:
  "extractETag ([CHR 0x22] @ ''abc'' @ [CHR 0x22]) = Return ''abc'' \<and> extractETag ''abc'' = Return ''abc''"
  using extractETag_cases [of "''abc''"] by simp

text \<open>In every run the error is set once, by the uploading goroutine.\<close>

definition cleanup_inv :: "multipart_sys \<Rightarrow> bool" where
  "cleanup_inv s \<longleftrightarrow> (\<not> mp_finished s \<longrightarrow> mp_uploadError s = None) \<and>
     (mp_clean s = Clean_aborted \<longrightarrow> mp_finished s \<and> mp_uploadError s \<noteq> None) \<and>
     (mp_clean s \<noteq> Clean_waiting \<longrightarrow> mp_ctx_done s) \<and>
     (mp_clean s \<in> {Clean_succeeded, Clean_deleted} \<and> mp_uploadError s \<noteq> None \<longrightarrow> mp_finished s)"

lemma cleanup_reach_inv: "cleanup_step\<^sup>*\<^sup>* cleanup_start s \<Longrightarrow> cleanup_inv s"
proof (induction rule: rtranclp_induct)
  case (step s t)
  from step(2,3) show ?case by (cases rule: cleanup_step.cases) (auto simp: cleanup_inv_def)
qed (simp add: cleanup_inv_def cleanup_start_def)

text \<open>\<open>NewMultipart\<close> promises an abort request after any error. An abort is indeed sent only after an
  error, but the promise is not kept: when the deadline passes, or the client goes away, before
  the uploading goroutine has stored its error, the clean-up takes the upload for a success
  and never aborts it, though the upload has failed.\<close>

theorem multipart_abort_skipped:
  "(\<forall>s. cleanup_step\<^sup>*\<^sup>* cleanup_start s \<and> mp_clean s = Clean_aborted \<longrightarrow> mp_uploadError s \<noteq> None) \<and>
   (\<exists>s. cleanup_step\<^sup>*\<^sup>* cleanup_start s \<and> mp_finished s \<and> mp_uploadError s = Some DeadlineExceeded \<and>
      mp_clean s = Clean_succeeded \<and>
      (\<forall>t. cleanup_step\<^sup>*\<^sup>* s t \<longrightarrow> mp_clean t \<noteq> Clean_aborted))"
proof -
  let ?s1 = "cleanup_start\<lparr>mp_ctx_done := True\<rparr>"
  let ?s2 = "?s1\<lparr>mp_clean := Clean_succeeded\<rparr>"
  let ?s3 = "?s2\<lparr>mp_finished := True, mp_uploadError := Some DeadlineExceeded\<rparr>"
  have "cleanup_step cleanup_start ?s1" by (rule cleanup_step.deadline)
  moreover have "cleanup_step ?s1 ?s2" by (rule cleanup_step.cleanup_ok) (simp_all add: cleanup_start_def)
  moreover have "cleanup_step ?s2 ?s3" by (rule cleanup_step.finish) (simp add: cleanup_start_def)
  ultimately have r: "cleanup_step\<^sup>*\<^sup>* cleanup_start ?s3" by (meson converse_rtranclp_into_rtranclp rtranclp.rtrancl_refl)
  have "mp_clean t \<in> {Clean_succeeded, Clean_deleted}" if "cleanup_step\<^sup>*\<^sup>* ?s3 t" for t
    using that
  proof (induction rule: rtranclp_induct)
    case (step t u)
    from step(2,3) show ?case by (cases rule: cleanup_step.cases) auto
  qed simp
  then have "\<forall>t. cleanup_step\<^sup>*\<^sup>* ?s3 t \<longrightarrow> mp_clean t \<noteq> Clean_aborted" by fastforce
  moreover have "\<forall>s. cleanup_step\<^sup>*\<^sup>* cleanup_start s \<and> mp_clean s = Clean_aborted \<longrightarrow> mp_uploadError s \<noteq> None"
    using cleanup_reach_inv unfolding cleanup_inv_def by blast
  ultimately show ?thesis using r by (intro conjI exI [of _ ?s3]) simp_all
qed

text \<open>A run in which the abort is sent: the upload fails before its context is done.\<close>

theorem multipart_abort_skipped_witness:
  "mp_uploadError (cleanup_start\<lparr>mp_finished := True, mp_uploadError := Some EOF, mp_ctx_done := True, mp_clean := Clean_aborted\<rparr>) \<noteq> None"
proof -
  let ?s1 = "cleanup_start\<lparr>mp_finished := True, mp_uploadError := Some EOF\<rparr>"
  let ?s2 = "?s1\<lparr>mp_ctx_done := True\<rparr>"
  have "cleanup_step cleanup_start ?s1" by (rule cleanup_step.finish) (simp add: cleanup_start_def)
  moreover have "cleanup_step ?s1 ?s2" by (rule cleanup_step.cancel) simp
  moreover have "cleanup_step ?s2 (?s2\<lparr>mp_clean := Clean_aborted\<rparr>)"
    by (rule cleanup_step.cleanup_error) (simp_all add: cleanup_start_def)
  ultimately have "cleanup_step\<^sup>*\<^sup>* cleanup_start (?s2\<lparr>mp_clean := Clean_aborted\<rparr>)"
    by (meson converse_rtranclp_into_rtranclp rtranclp.rtrancl_refl)
  then show ?thesis
    using multipart_abort_skipped [THEN conjunct1, rule_format, of "?s2\<lparr>mp_clean := Clean_aborted\<rparr>"] by simp
qed

end
