(* ===== verification/Form.thy ===== *)
theory Form
  imports Prelude "HOL-Library.List_Lexorder"
begin

text \<open>
  \<open>url.Values.Encode\<close>, the form body in which upload results go back to the backend, and that a
  decoder recovers every field from it. \<open>url.Values\<close> with one value per key is an association list
  here; \<open>Encode\<close> sorts by key.
\<close>

definition unreserved :: "char \<Rightarrow> bool" where
  "unreserved c \<longleftrightarrow> (let n = (of_char c :: nat) in
     48 \<le> n \<and> n \<le> 57 \<or> 65 \<le> n \<and> n \<le> 90 \<or> 97 \<le> n \<and> n \<le> 122 \<or> n = 45 \<or> n = 95 \<or> n = 46 \<or> n = 126)"

definition hex_upper :: "nat \<Rightarrow> char" where
  "hex_upper n = (if n < 10 then char_of (48 + n) else char_of (55 + n))"

definition escape_char :: "char \<Rightarrow> string" where
  "escape_char c =
     (if unreserved c then [c] else if c = CHR '' '' then ''+''
      else [CHR ''%'', hex_upper (of_char c div 16), hex_upper (of_char c mod 16)])"

definition QueryEscape :: "string \<Rightarrow> string" where
  "QueryEscape s = concat (map escape_char s)"

definition field_order :: "string \<times> string \<Rightarrow> nat list" where
  "field_order kv = map of_char (fst kv)"

definition Encode :: "(string \<times> string) list \<Rightarrow> string" where
  "Encode kvs = Join (map (\<lambda>(k, v). QueryEscape k @ ''='' @ QueryEscape v) (sort_key field_order kvs)) ''&''"

section \<open>Decoding\<close>

definition unhex :: "char \<Rightarrow> nat" where
  "unhex c = (let n = of_char c in if n \<le> 57 then n - 48 else n - 55)"

fun unescape :: "string \<Rightarrow> string" where
  "unescape [] = []"
| "unescape (c # s) =
     (if c = CHR ''+'' then CHR '' '' # unescape s
      else if c = CHR ''%'' then
        (case s of a # b # t \<Rightarrow> char_of (16 * unhex a + unhex b) # unescape (drop 2 s) | _ \<Rightarrow> c # unescape s)
      else c # unescape s)"

definition decode_field :: "string \<Rightarrow> string \<times> string" where
  "decode_field f = (case SplitN2 f (CHR ''='') of [k, v] \<Rightarrow> (unescape k, unescape v) | _ \<Rightarrow> (unescape f, []))"

definition Decode :: "string \<Rightarrow> (string \<times> string) list" where
  "Decode s = map decode_field (Split (CHR ''&'') s)"

lemma of_char_256: "(of_char c :: nat) < 256"
  by (metis of_char_mod_256 mod_less_divisor zero_less_numeral)

lemma unhex_upper: "n < 16 \<Longrightarrow> unhex (hex_upper n) = n"
  by (simp add: unhex_def hex_upper_def Let_def)

lemma unescape_escape_char: "unescape (escape_char c @ s) = c # unescape s"
proof -
  have "(of_char c :: nat) div 16 < 16" using of_char_256 [of c] by linarith
  moreover have "16 * ((of_char c :: nat) div 16) + of_char c mod 16 = of_char c" by simp
  ultimately have "unescape ([CHR ''%'', hex_upper (of_char c div 16), hex_upper (of_char c mod 16)] @ s) = c # unescape s"
    by (simp add: unhex_upper)
  moreover have "c \<noteq> CHR ''+'' \<and> c \<noteq> CHR ''%''" if "unreserved c" using that by (auto simp: unreserved_def Let_def)
  ultimately show ?thesis by (simp add: escape_char_def)
qed

lemma unescape_QueryEscape [simp]: "unescape (QueryEscape s) = s"
  by (induction s) (simp_all add: QueryEscape_def unescape_escape_char)

lemma hex_upper_range: "n < 16 \<Longrightarrow> 48 \<le> (of_char (hex_upper n) :: nat) \<and> (of_char (hex_upper n) :: nat) \<le> 70 \<and> (of_char (hex_upper n) :: nat) \<noteq> 61"
  by (auto simp: hex_upper_def)

lemma escape_char_safe: "x \<in> set (escape_char c) \<Longrightarrow> x \<noteq> CHR ''&'' \<and> x \<noteq> CHR ''=''"
proof -
  assume x: "x \<in> set (escape_char c)"
  have "(of_char c :: nat) div 16 < 16" "(of_char c :: nat) mod 16 < 16" using of_char_256 [of c] by linarith+
  note r = hex_upper_range [OF this(1)] hex_upper_range [OF this(2)]
  have "x = c \<and> unreserved c \<or> x = CHR ''+'' \<or> x = CHR ''%'' \<or>
      48 \<le> (of_char x :: nat) \<and> (of_char x :: nat) \<noteq> 61"
    using x r by (auto simp: escape_char_def split: if_splits)
  then show ?thesis by (auto simp: unreserved_def Let_def)
qed

lemma QueryEscape_safe: "CHR ''&'' \<notin> set (QueryEscape s)" "CHR ''='' \<notin> set (QueryEscape s)"
  using escape_char_safe by (fastforce simp: QueryEscape_def)+

lemma decode_field_encode: "decode_field (QueryEscape k @ ''='' @ QueryEscape v) = (k, v)"
  using SplitN2_key_value [OF QueryEscape_safe(2), of k "QueryEscape v"] by (simp add: decode_field_def)

lemma Decode_Encode:
  assumes "kvs \<noteq> []"
  shows "Decode (Encode kvs) = sort_key field_order kvs"
proof -
  let ?fs = "map (\<lambda>(k, v). QueryEscape k @ ''='' @ QueryEscape v) (sort_key field_order kvs)"
  have "?fs \<noteq> []" using assms by (metis map_is_Nil_conv set_empty set_sort)
  moreover have "\<forall>f \<in> set ?fs. CHR ''&'' \<notin> set f" by (auto simp: QueryEscape_safe)
  ultimately have "Split (CHR ''&'') (Join ?fs ''&'') = ?fs" by (rule Split_Join)
  then show ?thesis by (simp add: Decode_def Encode_def decode_field_encode [simplified] case_prod_unfold comp_def)
qed

end
