(* ===== verification/File_Store.thy ===== *)
theory File_Store
  imports Object_Store Form
begin

text \<open>
  \<open>internal/filestore\<close> and \<open>internal/lfs\<close>: an uploaded body is hashed and written to a temporary file,
  to object storage, or to both; the backend is told where it is. \<open>save_file_opts.go\<close>, \<open>multi_hash.go\<close>,
  \<open>file_handler.go\<close>, \<open>body_uploader.go\<close> and \<open>lfs.go\<close>, in this order.

  The state is the object store, its metrics and the local files. The name of a temporary file,
  the errors of creating one, the hash functions and the clock are parameters, as is whether the
  deadline passes before the upload is done. An upload that
  fails while the body is still being copied fails here after all of it was read, with the same
  error; the local file, which nobody looks at any more, then has the whole body.
\<close>

section \<open>Options\<close>

record SaveFileOpts =
  TempFilePrefix :: string
  LocalTempPath :: string
  opt_RemoteID :: string
  opt_RemoteURL :: string
  PresignedPut :: string
  PresignedDelete :: string
  PutHeaders :: "(string \<times> string) list"
  Deadline :: int
  PartSize :: int
  PresignedParts :: "string list"
  PresignedCompleteMultipart :: string
  PresignedAbortMultipart :: string

definition IsLocal :: "SaveFileOpts \<Rightarrow> bool" where
  "IsLocal s \<longleftrightarrow> LocalTempPath s \<noteq> []"

definition IsMultipart :: "SaveFileOpts \<Rightarrow> bool" where
  "IsMultipart s \<longleftrightarrow> PartSize s > 0"

definition IsRemote :: "SaveFileOpts \<Rightarrow> bool" where
  "IsRemote s \<longleftrightarrow> PresignedPut s \<noteq> [] \<or> IsMultipart s"

text \<open>Times are in nanoseconds; \<open>time.Duration\<close> is an \<open>int64\<close> and wraps.\<close>

definition DefaultObjectStoreTimeout :: int where
  "DefaultObjectStoreTimeout = 4 * 3600 * 1000000000"

definition GetOpts :: "int \<Rightarrow> Response \<Rightarrow> SaveFileOpts" where
  "GetOpts now a =
     (let ro = a_RemoteObject a;
          timeout = int64 (ro_Timeout ro * 1000000000);
          timeout = (if timeout = 0 then DefaultObjectStoreTimeout else timeout);
          opts = \<lparr>TempFilePrefix = [], LocalTempPath = a_TempPath a, opt_RemoteID = ro_ID ro,
            opt_RemoteURL = ro_GetURL ro, PresignedPut = ro_StoreURL ro, PresignedDelete = ro_DeleteURL ro,
            PutHeaders = ro_PutHeaders ro, Deadline = now + timeout, PartSize = 0, PresignedParts = [],
            PresignedCompleteMultipart = [], PresignedAbortMultipart = []\<rparr>;
          opts = (if \<not> ro_CustomPutHeaders ro
            then opts\<lparr>PutHeaders := [(''Content-Type'', ''application/octet-stream'')]\<rparr> else opts)
      in case ro_MultipartUpload ro of
           None \<Rightarrow> opts
         | Some mp \<Rightarrow> opts\<lparr>PartSize := mp_PartSize mp, PresignedCompleteMultipart := mp_CompleteURL mp,
             PresignedAbortMultipart := mp_AbortURL mp, PresignedParts := mp_PartURLs mp\<rparr>)"

section \<open>Hashes\<close>

definition hash_names :: "string list" where
  "hash_names = [''md5'', ''sha1'', ''sha256'', ''sha512'']"

type_synonym hash_factories = "string \<Rightarrow> bytes \<Rightarrow> bytes"

definition multiHash_finish :: "hash_factories \<Rightarrow> bytes \<Rightarrow> (string \<times> string) list" where
  "multiHash_finish hash data = map (\<lambda>n. (n, hex_encode (hash n data))) hash_names"

section \<open>Saving a file\<close>

record FileHandler =
  fh_LocalPath :: string
  fh_RemoteID :: string
  fh_RemoteURL :: string
  fh_Size :: int
  fh_Name :: string
  fh_hashes :: "(string \<times> string) list"

definition fh_hash :: "FileHandler \<Rightarrow> string \<Rightarrow> string" where
  "fh_hash fh name = (case map_of (fh_hashes fh) name of None \<Rightarrow> [] | Some h \<Rightarrow> h)"

abbreviation SHA256 :: "FileHandler \<Rightarrow> string" where
  "SHA256 fh \<equiv> fh_hash fh ''sha256''"

definition finalize_key :: "string \<Rightarrow> string \<Rightarrow> string" where
  "finalize_key pre field = (if pre = [] then field else pre @ ''.'' @ field)"

definition GitLabFinalizeFields :: "FileHandler \<Rightarrow> string \<Rightarrow> (string \<times> string) list" where
  "GitLabFinalizeFields fh pre =
     (let key = finalize_key pre;
          data = [];
          data = (if fh_Name fh \<noteq> [] then AList.update (key ''name'') (fh_Name fh) data else data);
          data = (if fh_LocalPath fh \<noteq> [] then AList.update (key ''path'') (fh_LocalPath fh) data else data);
          data = (if fh_RemoteURL fh \<noteq> [] then AList.update (key ''remote_url'') (fh_RemoteURL fh) data else data);
          data = (if fh_RemoteID fh \<noteq> [] then AList.update (key ''remote_id'') (fh_RemoteID fh) data else data);
          data = AList.update (key ''size'') (FormatInt (fh_Size fh)) data
      in foldl (\<lambda>d (n, h). AList.update (key n) h d) data (fh_hashes fh))"

record 'r save_env = "'r store_env" +
  env_hash :: hash_factories
  env_mkdir :: "string \<Rightarrow> gerror option"
  env_temp :: "string \<Rightarrow> string \<Rightarrow> string result"
  env_deadline :: "gerror option"

record 'r save_state =
  sv_remote :: 'r
  sv_metrics :: upload_metrics
  sv_files :: filesystem

definition uploadLocalFile :: "('r, 'z) save_env_scheme \<Rightarrow> SaveFileOpts \<Rightarrow> string result" where
  "uploadLocalFile env opts =
     (case env_mkdir env (LocalTempPath opts) of
        Some err \<Rightarrow> Inl (wrap_err (''uploadLocalFile: mkdir '' @ Quote (LocalTempPath opts) @ '': '') err)
      | None \<Rightarrow>
          (case env_temp env (LocalTempPath opts) (TempFilePrefix opts) of
             Inl err \<Rightarrow> Inl (wrap_err ''uploadLocalFile: create file: '' err)
           | Inr name \<Rightarrow> Inr name))"

text \<open>
  The remote end of the writers, for all the bytes that reach it: opened before the local file and
  closed, at the latest, when the function returns.
\<close>

definition remote_upload :: "'r save_env \<Rightarrow> SaveFileOpts \<Rightarrow> int \<Rightarrow> bytes \<Rightarrow> 'r save_state \<Rightarrow>
    (gerror option \<times> string) go \<times> 'r save_state" where
  "remote_upload env opts sz data st =
     (let senv = store_env.truncate env;
          (res, rem, m) =
            (if IsMultipart opts
             then NewMultipart senv (PresignedParts opts) (PresignedCompleteMultipart opts) (PutHeaders opts)
                    (PartSize opts) data (sv_remote st, sv_metrics st)
             else if IsRemote opts
             then newObject (env_parse env) (env_do env) (env_md5 env) True (PresignedPut opts) (PutHeaders opts) sz data
                    (sv_remote st, sv_metrics st)
             else (Return (None, []), sv_remote st, sv_metrics st))
      in (res, st\<lparr>sv_remote := rem, sv_metrics := m\<rparr>))"

definition SaveFileFromReader :: "'r save_env \<Rightarrow> stream \<Rightarrow> int \<Rightarrow> SaveFileOpts \<Rightarrow> 'r save_state \<Rightarrow>
    FileHandler result go \<times> 'r save_state" where
  "SaveFileFromReader env reader sz opts st =
     (let fh = \<lparr>fh_LocalPath = [], fh_RemoteID = opt_RemoteID opts, fh_RemoteURL = opt_RemoteURL opts, fh_Size = 0,
                fh_Name = TempFilePrefix opts, fh_hashes = []\<rparr>;
          fail = (\<lambda>data err st. (case remote_upload env opts sz data st of
             (Panic msg, st) \<Rightarrow> (Panic msg, st) | (Return _, st) \<Rightarrow> (Return (Inl err), st))) in
      case (if \<not> IsMultipart opts \<and> IsRemote opts
            then (case env_parse env (PresignedPut opts) of Inl err \<Rightarrow> Some err | Inr _ \<Rightarrow> None) else None) of
        Some err \<Rightarrow>
          (Return (Inl (wrap_err (''PUT '' @ Quote (ScrubURLParams (PresignedPut opts)) @ '': '') err)),
           st\<lparr>sv_metrics := count_upload True ''request-failed'' (sv_metrics st)\<rparr>)
      | None \<Rightarrow>
          (case (if IsLocal opts then uploadLocalFile env opts else Inr []) of
             Inl err \<Rightarrow> fail [] err st
           | Inr localPath \<Rightarrow>
               if \<not> IsRemote opts \<and> \<not> IsLocal opts then (Return (Inl (Errorf ''Missing upload destination'')), st)
               else
                 let data = stream_bytes reader;
                     fh = fh\<lparr>fh_LocalPath := localPath, fh_Size := int (length data)\<rparr>;
                     st = (if IsLocal opts then st\<lparr>sv_files := (sv_files st)(localPath \<mapsto> File data 0)\<rparr> else st)
                 in (case snd reader of
                      Some err \<Rightarrow> fail data err st
                    | None \<Rightarrow>
                        if sz \<noteq> -1 \<and> sz \<noteq> fh_Size fh
                        then fail data (Errorf (''Expected '' @ FormatInt sz @ '' bytes but got only '' @ FormatInt (fh_Size fh))) st
                        else
                          let fh = fh\<lparr>fh_hashes := multiHash_finish (env_hash env) data\<rparr> in
                          (case remote_upload env opts sz data st of
                             (Panic msg, st) \<Rightarrow> (Panic msg, st)
                           | (Return (uploadError, etag), st) \<Rightarrow>
                               if \<not> IsRemote opts then (Return (Inr fh), st)
                               else (case uploader_Close None (env_deadline env) uploadError of
                                   Some err \<Rightarrow> (Return (Inl (if err = ErrNotEnoughParts then ErrEntityTooLarge else err)), st)
                                 | None \<Rightarrow> (Return (Inr (fh\<lparr>fh_hashes := AList.update ''etag'' etag (fh_hashes fh)\<rparr>)), st))))))"

text \<open>Opening a directory succeeds and reading it fails; \<open>dirSize\<close> is the size the system reports for it.\<close>

definition SaveFileFromDisk :: "'r save_env \<Rightarrow> int \<Rightarrow> string \<Rightarrow> SaveFileOpts \<Rightarrow> 'r save_state \<Rightarrow> FileHandler result go \<times> 'r save_state" where
  "SaveFileFromDisk env dirSize fileName opts st =
     (case sv_files st fileName of
        None \<Rightarrow> (Return (Inl ErrNotExist), st)
      | Some Dir \<Rightarrow> SaveFileFromReader env ([], Some (Errorf (''read '' @ fileName @ '': is a directory''))) dirSize opts st
      | Some (File content _) \<Rightarrow> SaveFileFromReader env (reader_of content) (int (length content)) opts st)"

section \<open>Uploading request bodies\<close>

type_synonym verifier = "FileHandler \<Rightarrow> gerror option"

type_synonym preparer = "int \<Rightarrow> Response \<Rightarrow> (SaveFileOpts \<times> verifier option) result"

definition defaultPreparer :: preparer where
  "defaultPreparer now a = Inr (GetOpts now a, None)"

text \<open>The function \<open>BodyUploader\<close> passes to the pre-authorizer.\<close>

definition upload_body :: "'r save_env \<Rightarrow> int \<Rightarrow> 's writer \<Rightarrow> 's handler \<Rightarrow> preparer \<Rightarrow> request \<Rightarrow> Response \<Rightarrow>
    's \<times> 'r save_state \<Rightarrow> ('s \<times> 'r save_state) go" where
  "upload_body env now w h prepare r a ss =
     (case prepare now a of
        Inl err \<Rightarrow> Return (Fail500 w (fst ss), snd ss)
      | Inr (opts, verifier) \<Rightarrow>
          (case SaveFileFromReader env (req_Body r) (req_ContentLength r) opts (snd ss) of
             (Panic msg, _) \<Rightarrow> Panic msg
           | (Return (Inl err), st) \<Rightarrow> Return (Fail500 w (fst ss), st)
           | (Return (Inr fh), st) \<Rightarrow>
               if (case verifier of Some v \<Rightarrow> v fh \<noteq> None | None \<Rightarrow> False) then Return (Fail500 w (fst ss), st)
               else
                 let body = Encode (GitLabFinalizeFields fh ''file'');
                     r = r\<lparr>req_Body := reader_of body, req_ContentLength := int (length body),
                       req_Header := Header_Set (req_Header r) ''Content-Type'' ''application/x-www-form-urlencoded''\<rparr>
                 in Return (h r (fst ss), st)))"

definition BodyUploader :: "((request \<Rightarrow> Response \<Rightarrow> 's \<times> 'r save_state \<Rightarrow> ('s \<times> 'r save_state) go) \<Rightarrow> string \<Rightarrow> 'x) \<Rightarrow>
    'r save_env \<Rightarrow> int \<Rightarrow> 's writer \<Rightarrow> 's handler \<Rightarrow> preparer option \<Rightarrow> 'x" where
  "BodyUploader preAuthorizeHandler env now w h p =
     preAuthorizeHandler (upload_body env now w h (case p of None \<Rightarrow> defaultPreparer | Some p \<Rightarrow> p)) ''/authorize''"

section \<open>LFS\<close>

definition lfs_Verify :: "int \<Rightarrow> string \<Rightarrow> verifier" where
  "lfs_Verify sz oid fh =
     (if fh_Size fh \<noteq> sz
      then Some (Errorf (''LFSObject: expected size '' @ FormatInt sz @ '', wrote '' @ FormatInt (fh_Size fh)))
      else if SHA256 fh \<noteq> oid
      then Some (Errorf (''LFSObject: expected sha256 '' @ oid @ '', got '' @ SHA256 fh))
      else None)"

definition lfs_Prepare :: preparer where
  "lfs_Prepare now a =
     (let opts = (GetOpts now a)\<lparr>TempFilePrefix := a_LfsOid a\<rparr>
      in Inr (opts, Some (lfs_Verify (a_LfsSize a) (a_LfsOid a))))"

definition PutStore :: "((request \<Rightarrow> Response \<Rightarrow> 's \<times> 'r save_state \<Rightarrow> ('s \<times> 'r save_state) go) \<Rightarrow> string \<Rightarrow> 'x) \<Rightarrow>
    'r save_env \<Rightarrow> int \<Rightarrow> 's writer \<Rightarrow> 's handler \<Rightarrow> 'x" where
  "PutStore preAuthorizeHandler env now w h = BodyUploader preAuthorizeHandler env now w h (Some lfs_Prepare)"

section \<open>Lemmas\<close>

lemma remote_upload_files: "sv_files (snd (remote_upload env opts sz data st)) = sv_files st"
  by (simp add: remote_upload_def Let_def split_beta)

lemma hash_names_simps [simp]: "''etag'' \<notin> set hash_names" "''sha256'' \<in> set hash_names"
  by (simp_all add: hash_names_def)

lemma fh_hash_finish:
  "n \<in> set hash_names \<Longrightarrow> map_of (multiHash_finish hash data) n = Some (hex_encode (hash n data))"
  by (simp add: multiHash_finish_def map_of_map_restrict)

lemma update_not_Nil [simp]: "AList.update k v xs \<noteq> []"
  by (cases xs) auto

lemma foldl_update_not_Nil: "xs \<noteq> [] \<Longrightarrow> foldl (\<lambda>d (n, h). AList.update (f n) h d) xs ys \<noteq> []"
  by (induction ys arbitrary: xs) (simp_all add: split_beta)

lemma finalize_not_Nil: "GitLabFinalizeFields fh pre \<noteq> []"
  unfolding GitLabFinalizeFields_def Let_def by (rule foldl_update_not_Nil) simp

lemma finalize_distinct: "distinct (map fst (GitLabFinalizeFields fh pre))"
proof -
  have "distinct (map fst xs) \<Longrightarrow> distinct (map fst (foldl (\<lambda>d (n, h). AList.update (f n) h d) xs ys))"
    for f :: "string \<Rightarrow> string" and xs ys :: "(string \<times> string) list"
    by (induction ys arbitrary: xs) (simp_all add: split_beta distinct_update)
  then show ?thesis by (simp add: GitLabFinalizeFields_def Let_def distinct_update)
qed

lemma map_of_sort_key: "distinct (map fst xs) \<Longrightarrow> map_of (sort_key f xs) = map_of xs"
  by (rule map_of_inject_set [THEN iffD2]) (simp_all add: distinct_map)

lemma finalize_key_inject [simp]: "finalize_key pre a = finalize_key pre b \<longleftrightarrow> a = b"
  by (simp add: finalize_key_def)

lemma map_of_foldl_update:
  assumes "inj f" "distinct (map fst ys)"
  shows "map_of (foldl (\<lambda>d (n, h). AList.update (f n) h d) xs ys) (f k) =
    (case map_of ys k of None \<Rightarrow> map_of xs (f k) | Some h \<Rightarrow> Some h)"
  using assms
proof (induction ys arbitrary: xs)
  case (Cons y ys)
  have "f k = f (fst y) \<longleftrightarrow> k = fst y" using Cons.prems(1) by (auto dest: injD)
  moreover have "map_of ys (fst y) = None" using Cons.prems(2) by (simp add: map_of_eq_None_iff)
  ultimately show ?case using Cons by (cases y) (auto simp: update_conv' split: option.splits)
qed simp

definition finalize_field :: "FileHandler \<Rightarrow> string \<Rightarrow> string option" where
  "finalize_field fh k =
     (if k = ''size'' then Some (FormatInt (fh_Size fh))
      else if k = ''remote_id'' \<and> fh_RemoteID fh \<noteq> [] then Some (fh_RemoteID fh)
      else if k = ''remote_url'' \<and> fh_RemoteURL fh \<noteq> [] then Some (fh_RemoteURL fh)
      else if k = ''path'' \<and> fh_LocalPath fh \<noteq> [] then Some (fh_LocalPath fh)
      else if k = ''name'' \<and> fh_Name fh \<noteq> [] then Some (fh_Name fh) else None)"

lemma go_result_cases:
  obtains (panic) msg st where "x = (Panic msg, st)" | (return) e etag st where "x = (Return (e, etag), st)"
proof (cases x)
  case (Pair a st)
  then show thesis
  proof (cases a)
    case (Return p)
    then show thesis using Pair return [of "fst p" "snd p" st] by simp
  qed (use panic in blast)
qed

lemma save_file_saved:
  assumes "SaveFileFromReader env reader sz opts st = (Return (Inr fh), st')"
  shows "snd reader = None" "fh_Size fh = int (length (stream_bytes reader))" "sz = -1 \<or> sz = int (length (stream_bytes reader))"
    and "\<forall>n \<in> set hash_names. fh_hash fh n = hex_encode (env_hash env n (stream_bytes reader))"
    and "IsLocal opts \<or> IsRemote opts"
    and "IsLocal opts \<longrightarrow> sv_files st' (fh_LocalPath fh) = Some (File (stream_bytes reader) 0)"
    and "IsRemote opts \<longrightarrow> (\<exists>st1. sv_remote st1 = sv_remote st \<and> sv_metrics st1 = sv_metrics st \<and>
       remote_upload env opts sz (stream_bytes reader) st1 = (Return (None, fh_hash fh ''etag''), st'))"
proof -
  define data where "data = stream_bytes reader"
  obtain localPath where local: "(if IsLocal opts then uploadLocalFile env opts else Inr []) = Inr localPath"
    using assms by (auto simp: SaveFileFromReader_def Let_def split: option.splits sum.splits go.splits prod.splits)
  let ?st = "if IsLocal opts then st\<lparr>sv_files := (sv_files st)(localPath \<mapsto> File data 0)\<rparr> else st"
  have dest: "IsLocal opts \<or> IsRemote opts" "snd reader = None" "sz = -1 \<or> sz = int (length data)"
    using assms local
    by (auto simp: SaveFileFromReader_def Let_def data_def split: option.splits sum.splits go.splits prod.splits if_splits)
  obtain e etag st2 where up: "remote_upload env opts sz data ?st = (Return (e, etag), st2)"
    using assms local dest
    by (cases "remote_upload env opts sz data ?st" rule: go_result_cases)
      (auto simp: SaveFileFromReader_def Let_def data_def [symmetric] split: option.splits)
  let ?fh = "\<lparr>fh_LocalPath = localPath, fh_RemoteID = opt_RemoteID opts, fh_RemoteURL = opt_RemoteURL opts,
    fh_Size = int (length data), fh_Name = TempFilePrefix opts, fh_hashes = multiHash_finish (env_hash env) data\<rparr>"
  have fh: "st2 = st'" "fh = (if IsRemote opts then ?fh\<lparr>fh_hashes := AList.update ''etag'' etag (fh_hashes ?fh)\<rparr> else ?fh)"
    "IsRemote opts \<longrightarrow> e = None"
    using assms local dest up
    by (auto simp: SaveFileFromReader_def Let_def data_def [symmetric] uploader_Close_def split: option.splits if_splits)
  have hashes: "fh_hash fh n = hex_encode (env_hash env n data)" if "n \<in> set hash_names" for n
    using that fh_hash_finish [OF that, of "env_hash env" data] by (auto simp: fh(2) fh_hash_def update_conv')
  show "snd reader = None" "IsLocal opts \<or> IsRemote opts" using dest by simp_all
  show "fh_Size fh = int (length (stream_bytes reader))" "sz = -1 \<or> sz = int (length (stream_bytes reader))"
    using dest(3) by (simp_all add: fh(2) data_def)
  show "\<forall>n \<in> set hash_names. fh_hash fh n = hex_encode (env_hash env n (stream_bytes reader))"
    using hashes by (simp add: data_def)
  show "IsLocal opts \<longrightarrow> sv_files st' (fh_LocalPath fh) = Some (File (stream_bytes reader) 0)"
  proof
    assume "IsLocal opts"
    then have "sv_files (snd (remote_upload env opts sz data ?st)) localPath = Some (File data 0)"
      unfolding remote_upload_files by simp
    then show "sv_files st' (fh_LocalPath fh) = Some (File (stream_bytes reader) 0)"
      unfolding up using fh by (simp add: data_def)
  qed
  have st: "sv_remote ?st = sv_remote st" "sv_metrics ?st = sv_metrics st" by simp_all
  have "fh_hash fh ''etag'' = etag" "e = None" if "IsRemote opts"
    using that fh(3) by (simp_all add: fh(2) fh_hash_def update_conv')
  then show "IsRemote opts \<longrightarrow> (\<exists>st1. sv_remote st1 = sv_remote st \<and> sv_metrics st1 = sv_metrics st \<and>
       remote_upload env opts sz (stream_bytes reader) st1 = (Return (None, fh_hash fh ''etag''), st'))"
    using up st fh(1) unfolding data_def by blast
qed

section \<open>Properties\<close>


definition sample_save :: "nat save_env" where
  "sample_save = store_env.extend sample_store \<lparr>env_hash = (\<lambda>n b. n @ b), env_mkdir = (\<lambda>_. None),
     env_temp = (\<lambda>d p. Inr (d @ ''/'' @ p)), env_deadline = None\<rparr>"

definition sample_opts :: SaveFileOpts where
  "sample_opts = (GetOpts 0 (zero_Response\<lparr>a_TempPath := ''/tmp'',
     a_RemoteObject := (a_RemoteObject zero_Response)\<lparr>ro_StoreURL := ''/put''\<rparr>\<rparr>))\<lparr>TempFilePrefix := ''f''\<rparr>"


text \<open>C27. Through the LFS endpoint nothing reaches the backend but objects that are what they claim to be: the
  request is passed on only if the body has the size and the SHA-256 the backend authorized;
  otherwise the result does not depend on the handler behind.\<close>

theorem lfs_only_verified:
  "(\<forall>h h'. upload_body env now w h lfs_Prepare r a ss = upload_body env now w h' lfs_Prepare r a ss) \<or>
   (int (length (stream_bytes (req_Body r))) = a_LfsSize a \<and>
    hex_encode (env_hash env ''sha256'' (stream_bytes (req_Body r))) = a_LfsOid a)"
proof -
  let ?opts = "(GetOpts now a)\<lparr>TempFilePrefix := a_LfsOid a\<rparr>"
  obtain res st' where sv: "SaveFileFromReader env (req_Body r) (req_ContentLength r) ?opts (snd ss) = (res, st')"
    by (cases "SaveFileFromReader env (req_Body r) (req_ContentLength r) ?opts (snd ss)")
  show ?thesis
  proof (cases "\<exists>fh. res = Return (Inr fh)")
    case True
    then obtain fh where fh: "res = Return (Inr fh)" by blast
    note sound = save_file_saved [OF sv [unfolded fh]]
    show ?thesis
    proof (cases "lfs_Verify (a_LfsSize a) (a_LfsOid a) fh")
      case None
      then show ?thesis using sound(2,4) by (auto simp: lfs_Verify_def split: if_splits)
    next
      case (Some e)
      then show ?thesis using sv fh by (simp add: upload_body_def lfs_Prepare_def Let_def)
    qed
  next
    case False
    then show ?thesis using sv
      by (cases res) (auto simp: upload_body_def lfs_Prepare_def Let_def split: sum.splits)
  qed
qed

text \<open>C28. What the backend reads from the rewritten request is what the file handler holds: decoding the encoded
  finalize fields gives, under the prefix, the name, path, URL and identifier where there is one,
  the size, and every hash, whatever bytes are in them.\<close>

theorem finalize_fields_roundtrip:
  assumes "distinct (map fst (fh_hashes fh))"
    and "\<forall>n \<in> {''name'', ''path'', ''remote_url'', ''remote_id'', ''size''}. n \<notin> fst ` set (fh_hashes fh)"
  shows "let fields = map_of (Decode (Encode (GitLabFinalizeFields fh pre))); key = finalize_key pre;
       given = (\<lambda>s. if s = [] then None else Some s) in
     fields (key ''name'') = given (fh_Name fh) \<and> fields (key ''path'') = given (fh_LocalPath fh) \<and>
     fields (key ''remote_url'') = given (fh_RemoteURL fh) \<and> fields (key ''remote_id'') = given (fh_RemoteID fh) \<and>
     fields (key ''size'') = Some (FormatInt (fh_Size fh)) \<and>
     (\<forall>(n, h) \<in> set (fh_hashes fh). fields (key n) = Some h)"
proof -
  have inj: "inj (finalize_key pre)" by (rule injI) simp
  have fields: "map_of (Decode (Encode (GitLabFinalizeFields fh pre))) = map_of (GitLabFinalizeFields fh pre)"
    by (simp add: Decode_Encode finalize_not_Nil map_of_sort_key finalize_distinct)
  have look: "map_of (GitLabFinalizeFields fh pre) (finalize_key pre k) =
    (case map_of (fh_hashes fh) k of Some h \<Rightarrow> Some h | None \<Rightarrow> finalize_field fh k)" for k
    unfolding GitLabFinalizeFields_def Let_def map_of_foldl_update [OF inj assms(1)] finalize_field_def
    by (simp add: update_conv' split: option.split)
  have none: "map_of (fh_hashes fh) n = None" if "n \<in> {''name'', ''path'', ''remote_url'', ''remote_id'', ''size''}" for n
    using bspec [OF assms(2) that] by (simp add: map_of_eq_None_iff)
  have "map_of (fh_hashes fh) n = Some h" if "(n, h) \<in> set (fh_hashes fh)" for n h using assms(1) that by simp
  then have "\<forall>(n, h) \<in> set (fh_hashes fh). map_of (GitLabFinalizeFields fh pre) (finalize_key pre n) = Some h"
    unfolding look by auto
  moreover have "map_of (GitLabFinalizeFields fh pre) (finalize_key pre n) = finalize_field fh n"
    if "n \<in> {''name'', ''path'', ''remote_url'', ''remote_id'', ''size''}" for n
    unfolding look none [OF that] by simp
  ultimately show ?thesis unfolding fields Let_def by (simp add: finalize_field_def)
qed

theorem finalize_fields_roundtrip_witness:
  "map_of (Decode (Encode (GitLabFinalizeFields \<lparr>fh_LocalPath = ''/tmp/a b'', fh_RemoteID = [], fh_RemoteURL = [],
     fh_Size = 3, fh_Name = ''x&y'', fh_hashes = [(''md5'', ''0f'')]\<rparr> ''file''))) ''file.path'' = Some ''/tmp/a b''"
  using finalize_fields_roundtrip [of "\<lparr>fh_LocalPath = ''/tmp/a b'', fh_RemoteID = [], fh_RemoteURL = [],
     fh_Size = 3, fh_Name = ''x&y'', fh_hashes = [(''md5'', ''0f'')]\<rparr>" "''file''"]
  by (simp add: Let_def finalize_key_def)

text \<open>The deadline of an upload is the time now plus the timeout in seconds the backend gives, or four hours if
  it gives none, as long as the timeout fits a \<open>time.Duration\<close>. A timeout of more than 9223372036
  seconds wraps: the first one that does gives a deadline some 292 years ago.\<close>

theorem GetOpts_deadline:
  "(0 < ro_Timeout (a_RemoteObject a) \<and> ro_Timeout (a_RemoteObject a) \<le> 9223372036 \<longrightarrow>
     Deadline (GetOpts now a) = now + ro_Timeout (a_RemoteObject a) * 1000000000) \<and>
   (ro_Timeout (a_RemoteObject a) = 0 \<longrightarrow> Deadline (GetOpts now a) = now + 4 * 3600 * 1000000000) \<and>
   (ro_Timeout (a_RemoteObject a) = 9223372037 \<longrightarrow> Deadline (GetOpts now a) < now)"
proof -
  define t where "t = ro_Timeout (a_RemoteObject a)"
  have "Deadline (GetOpts now a) = now + (if int64 (t * 1000000000) = 0 then DefaultObjectStoreTimeout else int64 (t * 1000000000))"
    by (simp add: GetOpts_def Let_def t_def split: option.splits)
  then show ?thesis unfolding t_def [symmetric]
    by (auto simp: int64_id DefaultObjectStoreTimeout_def) (simp_all add: int64_def)
qed

theorem GetOpts_deadline_witness:
  "Deadline (GetOpts 5 (zero_Response\<lparr>a_RemoteObject := (a_RemoteObject zero_Response)\<lparr>ro_Timeout := 60\<rparr>\<rparr>)) = 60000000005"
  using GetOpts_deadline [of "zero_Response\<lparr>a_RemoteObject := (a_RemoteObject zero_Response)\<lparr>ro_Timeout := 60\<rparr>\<rparr>" 5]
  by (simp add: zero_Response_def)

end
