(* ===== verification/Upload.thy ===== *)
theory Upload
  imports File_Store
begin

text \<open>
  \<open>internal/upload\<close>: \<open>rewrite.go\<close>, \<open>uploads.go\<close>, \<open>accelerate.go\<close> and \<open>skip_rails_authorizer.go\<close>. The files of a
  multipart form are saved and their form fields replaced by what the backend needs to find them.

  \<open>mime/multipart\<close> is a parameter: \<open>mp_reader\<close> gives the parts of a request, \<open>mp_encode\<close> the bytes of
  a form, and \<open>sign\<close> is \<open>secret.JWTTokenString\<close>. The form being written is the list of its fields; writing
  to it, a \<open>bytes.Buffer\<close>, does not fail. A \<open>MultipartFormProcessor\<close> is a record of operations on a
  state of its own and on the store.
\<close>

section \<open>Forms\<close>

record part =
  p_Header :: header
  p_FormName :: string
  p_FileName :: string
  p_Body :: stream

datatype field = Field string string | Copied header bytes

record upload_counters =
  multipartUploadRequests :: "string \<Rightarrow> nat"
  multipartFileUploadBytes :: "string \<Rightarrow> int"
  multipartFiles :: "string \<Rightarrow> nat"

record ('r, 'f) rewriter =
  rew_writer :: "field list"
  rew_filter :: 'f
  rew_store :: "'r save_state"
  rew_counters :: upload_counters

record ('r, 'f) MultipartFormProcessor =
  ProcessFile :: "string \<Rightarrow> FileHandler \<Rightarrow> ('r, 'f) rewriter \<Rightarrow> gerror option go \<times> ('r, 'f) rewriter"
  ProcessField :: "string \<Rightarrow> ('r, 'f) rewriter \<Rightarrow> gerror option \<times> ('r, 'f) rewriter"
  Finalize :: "'f \<Rightarrow> request \<Rightarrow> gerror option \<times> request"
  processor_Name :: string

section \<open>Rewriting\<close>

definition WriteField :: "string \<Rightarrow> string \<Rightarrow> ('r, 'f) rewriter \<Rightarrow> ('r, 'f) rewriter" where
  "WriteField key v rew = rew\<lparr>rew_writer := rew_writer rew @ [Field key v]\<rparr>"

definition WriteFields :: "(string \<times> string) list \<Rightarrow> ('r, 'f) rewriter \<Rightarrow> ('r, 'f) rewriter" where
  "WriteFields kvs rew = foldl (\<lambda>rew (k, v). WriteField k v rew) rew kvs"

definition count_file :: "string \<Rightarrow> upload_counters \<Rightarrow> upload_counters" where
  "count_file n c = c\<lparr>multipartFiles := (multipartFiles c)(n := multipartFiles c n + 1)\<rparr>"

definition count_bytes :: "string \<Rightarrow> int \<Rightarrow> upload_counters \<Rightarrow> upload_counters" where
  "count_bytes n b c = c\<lparr>multipartFileUploadBytes := (multipartFileUploadBytes c)(n := multipartFileUploadBytes c n + b)\<rparr>"

definition count_request :: "string \<Rightarrow> upload_counters \<Rightarrow> upload_counters" where
  "count_request n c = c\<lparr>multipartUploadRequests := (multipartUploadRequests c)(n := multipartUploadRequests c n + 1)\<rparr>"

definition handleFilePart :: "'r save_env \<Rightarrow> int \<Rightarrow> Response \<Rightarrow> ('r, 'f) MultipartFormProcessor \<Rightarrow> string \<Rightarrow> part \<Rightarrow>
    ('r, 'f) rewriter \<Rightarrow> gerror option go \<times> ('r, 'f) rewriter" where
  "handleFilePart env now preauth proc name p rew =
     (let rew = rew\<lparr>rew_counters := count_file (processor_Name proc) (rew_counters rew)\<rparr>;
          filename = p_FileName p
      in if Contains filename ''/'' \<or> filename = ''.'' \<or> filename = ''..''
         then (Return (Some (Errorf (''illegal filename: '' @ Quote filename))), rew)
         else
           let opts = (GetOpts now preauth)\<lparr>TempFilePrefix := filename\<rparr> in
           (case SaveFileFromReader env (p_Body p) (-1) opts (rew_store rew) of
              (Panic m, st) \<Rightarrow> (Panic m, rew\<lparr>rew_store := st\<rparr>)
            | (Return (Inl err), st) \<Rightarrow>
                (Return (Some (if err = ErrEntityTooLarge then err else wrap_err ''Persisting multipart file: '' err)),
                 rew\<lparr>rew_store := st\<rparr>)
            | (Return (Inr fh), st) \<Rightarrow>
                let rew = WriteFields (GitLabFinalizeFields fh name) (rew\<lparr>rew_store := st\<rparr>);
                    rew = rew\<lparr>rew_counters := count_bytes (processor_Name proc) (fh_Size fh) (rew_counters rew)\<rparr>
                in ProcessFile proc name fh rew))"

definition copyPart :: "('r, 'f) MultipartFormProcessor \<Rightarrow> string \<Rightarrow> part \<Rightarrow> ('r, 'f) rewriter \<Rightarrow> gerror option \<times> ('r, 'f) rewriter" where
  "copyPart proc name p rew =
     (let rew = rew\<lparr>rew_writer := rew_writer rew @ [Copied (p_Header p) (stream_bytes (p_Body p))]\<rparr> in
      case snd (p_Body p) of
        Some err \<Rightarrow> (Some (wrap_err ''duplicate multipart field: '' err), rew)
      | None \<Rightarrow>
          (case ProcessField proc name rew of
             (Some err, rew) \<Rightarrow> (Some (wrap_err ''process multipart field: '' err), rew)
           | (None, rew) \<Rightarrow> (None, rew)))"

text \<open>The loop over the parts; \<open>e\<close> is what \<open>NextPart\<close> returns after them, nothing for the end of the form.\<close>

fun rewrite_parts :: "'r save_env \<Rightarrow> int \<Rightarrow> Response \<Rightarrow> ('r, 'f) MultipartFormProcessor \<Rightarrow> part list \<Rightarrow> gerror option \<Rightarrow>
    ('r, 'f) rewriter \<Rightarrow> gerror option go \<times> ('r, 'f) rewriter" where
  "rewrite_parts env now preauth proc [] e rew = (Return e, rew)"
| "rewrite_parts env now preauth proc (p # ps) e rew =
     (let name = p_FormName p in
      if name = [] then rewrite_parts env now preauth proc ps e rew
      else (case (if p_FileName p \<noteq> [] then handleFilePart env now preauth proc name p rew
                  else (case copyPart proc name p rew of (err, rew) \<Rightarrow> (Return err, rew))) of
          (Panic m, rew) \<Rightarrow> (Panic m, rew)
        | (Return (Some err), rew) \<Rightarrow> (Return (Some err), rew)
        | (Return None, rew) \<Rightarrow> rewrite_parts env now preauth proc ps e rew))"

type_synonym mp_reader = "request \<Rightarrow> (part list \<times> gerror option) result"

definition rewriteFormFilesFromMultipart :: "mp_reader \<Rightarrow> 'r save_env \<Rightarrow> int \<Rightarrow> request \<Rightarrow> Response \<Rightarrow>
    ('r, 'f) MultipartFormProcessor \<Rightarrow> ('r, 'f) rewriter \<Rightarrow> gerror option go \<times> ('r, 'f) rewriter" where
  "rewriteFormFilesFromMultipart reader env now r preauth proc rew =
     (case reader r of
        Inl err \<Rightarrow>
          (Return (Some (if err = ErrNotMultipart then err else wrap_err ''get multipart reader: '' err)), rew)
      | Inr (parts, e) \<Rightarrow>
          rewrite_parts env now preauth proc parts e
            (rew\<lparr>rew_counters := count_request (processor_Name proc) (rew_counters rew)\<rparr>))"

section \<open>Uploads\<close>

record upload_env =
  up_reader :: mp_reader
  up_encode :: "field list \<Rightarrow> bytes"
  up_contentType :: string

text \<open>Of the form that could not be rewritten nothing is kept but the store and the counters.\<close>

definition HandleFileUploads :: "upload_env \<Rightarrow> 'r save_env \<Rightarrow> int \<Rightarrow> 's writer \<Rightarrow> 's handler \<Rightarrow> ('r, 'f) MultipartFormProcessor \<Rightarrow>
    'f \<Rightarrow> request \<Rightarrow> Response \<Rightarrow> 's \<times> 'r save_state \<times> upload_counters \<Rightarrow> ('s \<times> 'r save_state \<times> upload_counters) go" where
  "HandleFileUploads uenv env now w h proc f r preauth x =
     (let (s, store, counters) = x; opts = GetOpts now preauth in
      if \<not> IsLocal opts \<and> \<not> IsRemote opts then Return (Fail500 w s, store, counters)
      else case rewriteFormFilesFromMultipart (up_reader uenv) env now r preauth proc
             \<lparr>rew_writer = [], rew_filter = f, rew_store = store, rew_counters = counters\<rparr> of
        (Panic m, _) \<Rightarrow> Panic m
      | (Return (Some err), rew) \<Rightarrow>
          Return (if err = ErrNotMultipart then h r s
                  else if err = ErrEntityTooLarge then RequestEntityTooLarge w s
                  else Fail500 w s, rew_store rew, rew_counters rew)
      | (Return None, rew) \<Rightarrow>
          let body = up_encode uenv (rew_writer rew);
              r = r\<lparr>req_Body := reader_of body, req_ContentLength := int (length body),
                req_Header := Header_Set (req_Header r) ''Content-Type'' (up_contentType uenv)\<rparr>
          in Return (case Finalize proc (rew_filter rew) r of
               (Some err, r) \<Rightarrow> Fail500 w s
             | (None, r) \<Rightarrow> h r s, rew_store rew, rew_counters rew))"

section \<open>Accelerated uploads\<close>

text \<open>The map of rewritten fields is nil until the first file.\<close>

type_synonym savedFileTracker = "(string \<times> string) list option"

definition tracker_ProcessFile :: "string \<Rightarrow> FileHandler \<Rightarrow> ('r, savedFileTracker) rewriter \<Rightarrow>
    gerror option go \<times> ('r, savedFileTracker) rewriter" where
  "tracker_ProcessFile fieldName fh rew =
     (let rewrittenFields = (case rew_filter rew of None \<Rightarrow> [] | Some m \<Rightarrow> m)
      in (Return None, rew\<lparr>rew_filter := Some (AList.update fieldName (fh_LocalPath fh) rewrittenFields)\<rparr>))"

definition tracker_Finalize :: "((string \<times> string) list \<Rightarrow> string result) \<Rightarrow> savedFileTracker \<Rightarrow> request \<Rightarrow> gerror option \<times> request" where
  "tracker_Finalize sign s r =
     (case s of
        None \<Rightarrow> (None, r)
      | Some rewrittenFields \<Rightarrow>
          (case sign rewrittenFields of
             Inl err \<Rightarrow> (Some (wrap_err ''savedFileTracker.Finalize: '' err), r)
           | Inr tokenString \<Rightarrow>
               (None, r\<lparr>req_Header := Header_Set (req_Header r) ''Gitlab-Workhorse-Multipart-Fields'' tokenString\<rparr>)))"

definition savedFileTracker_processor :: "((string \<times> string) list \<Rightarrow> string result) \<Rightarrow> ('r, savedFileTracker) MultipartFormProcessor" where
  "savedFileTracker_processor sign = \<lparr>ProcessFile = tracker_ProcessFile, ProcessField = (\<lambda>_ rew. (None, rew)),
     Finalize = tracker_Finalize sign, processor_Name = ''accelerate''\<rparr>"

text \<open>\<open>preAuthorizeHandler\<close> is that of the API or of \<open>SkipRailsAuthorizer\<close>.\<close>

definition Accelerate :: "((request \<Rightarrow> Response \<Rightarrow> 's \<times> 'r save_state \<times> upload_counters \<Rightarrow> ('s \<times> 'r save_state \<times> upload_counters) go) \<Rightarrow> string \<Rightarrow> 'x) \<Rightarrow>
    upload_env \<Rightarrow> 'r save_env \<Rightarrow> ((string \<times> string) list \<Rightarrow> string result) \<Rightarrow> int \<Rightarrow> 's writer \<Rightarrow> 's handler \<Rightarrow> 'x" where
  "Accelerate preAuthorizeHandler uenv env sign now w h =
     preAuthorizeHandler (HandleFileUploads uenv env now w h (savedFileTracker_processor sign) None) ''/authorize''"

definition SkipRailsAuthorizer :: "string \<Rightarrow> (request \<Rightarrow> Response \<Rightarrow> 'x) \<Rightarrow> string \<Rightarrow> request \<Rightarrow> 'x" where
  "SkipRailsAuthorizer TempPath next uri_suffix r = next r (zero_Response\<lparr>a_TempPath := TempPath\<rparr>)"

section \<open>Lemmas\<close>

lemma WriteFields_simps [simp]:
  "rew_writer (WriteFields kvs rew) = rew_writer rew @ map (\<lambda>(k, v). Field k v) kvs"
  "rew_filter (WriteFields kvs rew) = rew_filter rew"
  by (induction kvs arbitrary: rew) (auto simp: WriteFields_def WriteField_def)

definition tracked :: "savedFileTracker \<Rightarrow> (string \<times> string) list" where
  "tracked s = (case s of None \<Rightarrow> [] | Some m \<Rightarrow> m)"

definition is_file :: "part \<Rightarrow> bool" where
  "is_file p \<longleftrightarrow> p_FormName p \<noteq> [] \<and> p_FileName p \<noteq> []"

definition is_plain :: "part \<Rightarrow> bool" where
  "is_plain p \<longleftrightarrow> p_FormName p \<noteq> [] \<and> p_FileName p = []"

definition is_copied :: "field \<Rightarrow> bool" where
  "is_copied f = (case f of Copied _ _ \<Rightarrow> True | Field _ _ \<Rightarrow> False)"

text \<open>\<open>v\<close> is where some file of the form, sent as field \<open>n\<close>, was saved.\<close>

definition saved_as :: "'r save_env \<Rightarrow> int \<Rightarrow> Response \<Rightarrow> part list \<Rightarrow> string \<times> string \<Rightarrow> bool" where
  "saved_as env now preauth ps nv \<longleftrightarrow> (\<exists>p \<in> set ps. is_file p \<and> p_FormName p = fst nv \<and>
     (\<exists>st fh st'. SaveFileFromReader env (p_Body p) (-1) ((GetOpts now preauth)\<lparr>TempFilePrefix := p_FileName p\<rparr>) st =
       (Return (Inr fh), st') \<and> fh_LocalPath fh = snd nv))"

lemma filter_not_copied: "filter is_copied (map (\<lambda>(k, v). Field k v) kvs) = []"
  by (induction kvs) (auto simp: is_copied_def)

lemma handleFilePart_tracked:
  assumes "handleFilePart env now preauth (savedFileTracker_processor sign) name p rew = (Return None, rew')"
  obtains fh st' where "SaveFileFromReader env (p_Body p) (-1) ((GetOpts now preauth)\<lparr>TempFilePrefix := p_FileName p\<rparr>) (rew_store rew) =
      (Return (Inr fh), st')"
    "rew_writer rew' = rew_writer rew @ map (\<lambda>(k, v). Field k v) (GitLabFinalizeFields fh name)"
    "rew_filter rew' = Some (AList.update name (fh_LocalPath fh) (tracked (rew_filter rew)))"
  using assms
  by (auto simp: handleFilePart_def Let_def savedFileTracker_processor_def tracker_ProcessFile_def tracked_def
      split: if_splits prod.splits go.splits sum.splits)

lemma copyPart_tracked:
  assumes "copyPart (savedFileTracker_processor sign) name p rew = (None, rew')"
  shows "rew' = rew\<lparr>rew_writer := rew_writer rew @ [Copied (p_Header p) (stream_bytes (p_Body p))]\<rparr>"
  using assms by (auto simp: copyPart_def Let_def savedFileTracker_processor_def split: option.splits)

lemma set_update_subset: "set (AList.update k v al) \<subseteq> insert (k, v) (set al)"
  by (induction al) auto

lemma rewrite_parts_tracked:
  assumes "rewrite_parts env now preauth (savedFileTracker_processor sign) ps e rew = (Return None, rew')"
  shows "e = None \<and>
    filter is_copied (rew_writer rew') = filter is_copied (rew_writer rew) @
      map (\<lambda>p. Copied (p_Header p) (stream_bytes (p_Body p))) (filter is_plain ps) \<and>
    fst ` set (tracked (rew_filter rew')) = fst ` set (tracked (rew_filter rew)) \<union> p_FormName ` set (filter is_file ps) \<and>
    (rew_filter rew' = None \<longleftrightarrow> rew_filter rew = None \<and> filter is_file ps = []) \<and>
    (\<forall>nv \<in> set (tracked (rew_filter rew')). nv \<in> set (tracked (rew_filter rew)) \<or> saved_as env now preauth ps nv)"
  using assms
proof (induction ps arbitrary: rew)
  case (Cons p ps)
  have later: "saved_as env now preauth ps nv \<Longrightarrow> saved_as env now preauth (p # ps) nv" for nv by (auto simp: saved_as_def)
  consider (anon) "p_FormName p = []" | (named) "is_file p" | (plain) "is_plain p" by (auto simp: is_file_def is_plain_def)
  then show ?case
  proof cases
    case anon
    then have "\<not> is_file p" "\<not> is_plain p" "rewrite_parts env now preauth (savedFileTracker_processor sign) ps e rew = (Return None, rew')"
      using Cons.prems by (auto simp: is_file_def is_plain_def)
    then show ?thesis using Cons.IH [of rew] later by auto
  next
    case named
    then obtain rew1 where rew1: "handleFilePart env now preauth (savedFileTracker_processor sign) (p_FormName p) p rew = (Return None, rew1)"
      "rewrite_parts env now preauth (savedFileTracker_processor sign) ps e rew1 = (Return None, rew')"
      using Cons.prems by (auto simp: is_file_def Let_def split: prod.splits go.splits option.splits)
    obtain fh st' where fh: "SaveFileFromReader env (p_Body p) (-1) ((GetOpts now preauth)\<lparr>TempFilePrefix := p_FileName p\<rparr>) (rew_store rew) =
        (Return (Inr fh), st')"
      "rew_writer rew1 = rew_writer rew @ map (\<lambda>(k, v). Field k v) (GitLabFinalizeFields fh (p_FormName p))"
      "rew_filter rew1 = Some (AList.update (p_FormName p) (fh_LocalPath fh) (tracked (rew_filter rew)))"
      by (rule handleFilePart_tracked [OF rew1(1)])
    have new: "saved_as env now preauth (p # ps) (p_FormName p, fh_LocalPath fh)"
      using named fh(1) unfolding saved_as_def by (intro bexI [of _ p]) auto
    have upd: "set (tracked (rew_filter rew1)) \<subseteq> insert (p_FormName p, fh_LocalPath fh) (set (tracked (rew_filter rew)))"
      "fst ` set (tracked (rew_filter rew1)) = insert (p_FormName p) (fst ` set (tracked (rew_filter rew)))"
      by (simp_all add: fh(3) tracked_def [of "Some _"] set_update_subset dom_update)
    have "\<not> is_plain p" using named by (simp add: is_file_def is_plain_def)
    then show ?thesis using Cons.IH [OF rew1(2)] named upd new later
      by (auto simp: fh(2,3) filter_not_copied)
  next
    case plain
    then obtain rew1 where rew1: "copyPart (savedFileTracker_processor sign) (p_FormName p) p rew = (None, rew1)"
      "rewrite_parts env now preauth (savedFileTracker_processor sign) ps e rew1 = (Return None, rew')"
      using Cons.prems by (auto simp: is_plain_def Let_def split: prod.splits go.splits option.splits)
    have "\<not> is_file p" using plain by (simp add: is_file_def is_plain_def)
    then show ?thesis using Cons.IH [OF rew1(2)] plain later copyPart_tracked [OF rew1(1)]
      by (auto simp: is_copied_def)
  qed
qed (auto split: option.splits)

lemma rewrite_parts_not_ErrNotMultipart:
  assumes "rewrite_parts env now preauth proc ps e rew = (res, rew')" "e \<noteq> Some ErrNotMultipart"
    and proc: "\<And>n fh rew. fst (ProcessFile proc n fh rew) \<noteq> Return (Some ErrNotMultipart)"
  shows "res \<noteq> Return (Some ErrNotMultipart)"
  using assms(1,2)
proof (induction ps arbitrary: rew)
  case (Cons p ps)
  let ?s = "if p_FileName p \<noteq> [] then handleFilePart env now preauth proc (p_FormName p) p rew
    else (case copyPart proc (p_FormName p) p rew of (err, rew) \<Rightarrow> (Return err, rew))"
  have "fst (handleFilePart env now preauth proc n p rew) \<noteq> Return (Some ErrNotMultipart)" for n
    using proc by (auto simp: handleFilePart_def Let_def wrap_err_def split: prod.splits go.splits sum.splits)
  moreover have "fst (copyPart proc n p rew) \<noteq> Some ErrNotMultipart" for n
    by (auto simp: copyPart_def Let_def wrap_err_def split: option.splits prod.splits)
  ultimately have step: "fst ?s \<noteq> Return (Some ErrNotMultipart)" by (simp add: split_beta)
  obtain out rew1 where out: "?s = (out, rew1)" by (rule prod.exhaust)
  show ?case
  proof (cases "p_FormName p = [] \<or> out = Return None")
    case True
    then show ?thesis using Cons.IH [of rew] Cons.IH [of rew1] Cons.prems out by (auto simp: Let_def split: if_splits)
  next
    case False
    then have "res = out" using Cons.prems(1) out by (auto simp: Let_def split: if_splits go.splits option.splits)
    then show ?thesis using step out by simp
  qed
qed auto

lemma tracker_not_ErrNotMultipart:
  "fst (ProcessFile (savedFileTracker_processor sign) n fh rew) \<noteq> Return (Some ErrNotMultipart)"
  by (simp add: savedFileTracker_processor_def tracker_ProcessFile_def)

section \<open>Properties\<close>

text \<open>C30. An accelerated upload is passed on only as a faithful rewriting, otherwise it is refused with 413 or 500: the
  plain fields go through in order, byte for byte; the signed header, present exactly if the form
  has a file, names exactly the fields of the files, and gives for each the path a file of that field was
  saved under.\<close>

theorem accelerate_signs_saved_files:
  assumes "HandleFileUploads uenv env now w h (savedFileTracker_processor sign) None r preauth (s, store, c) = Return (s', x)"
    and "up_reader uenv r = Inr (parts, e)" "e \<noteq> Some ErrNotMultipart"
  shows "s' = Fail500 w s \<or> s' = RequestEntityTooLarge w s \<or>
    (\<exists>fields out q. s' = h q s \<and> req_Body q = reader_of (up_encode uenv out) \<and>
       filter is_copied out = map (\<lambda>p. Copied (p_Header p) (stream_bytes (p_Body p))) (filter is_plain parts) \<and>
       fst ` set fields = p_FormName ` set (filter is_file parts) \<and> (\<forall>nv \<in> set fields. saved_as env now preauth parts nv) \<and>
       (if filter is_file parts = [] then req_Header q = Header_Set (req_Header r) ''Content-Type'' (up_contentType uenv)
        else \<exists>token. sign fields = Inr token \<and> Header_Get (req_Header q) ''Gitlab-Workhorse-Multipart-Fields'' = token))"
proof -
  let ?proc = "savedFileTracker_processor sign"
  define rew where "rew = \<lparr>rew_writer = [], rew_filter = None :: savedFileTracker, rew_store = store,
    rew_counters = count_request ''accelerate'' c\<rparr>"
  obtain res rew' where rp: "rewrite_parts env now preauth ?proc parts e rew = (res, rew')" by fastforce
  have run: "rewriteFormFilesFromMultipart (up_reader uenv) env now r preauth ?proc
      \<lparr>rew_writer = [], rew_filter = None, rew_store = store, rew_counters = c\<rparr> = (res, rew')"
    using rp assms(2) by (simp add: rewriteFormFilesFromMultipart_def rew_def savedFileTracker_processor_def)
  show ?thesis
  proof (cases "res = Return None \<and> (IsLocal (GetOpts now preauth) \<or> IsRemote (GetOpts now preauth))")
    case False
    then show ?thesis
      using assms(1) run rewrite_parts_not_ErrNotMultipart [OF rp assms(3) tracker_not_ErrNotMultipart]
      by (auto simp: HandleFileUploads_def Let_def split: if_splits go.splits option.splits)
  next
    case True
    note t = rewrite_parts_tracked [OF rp [unfolded conjunct1 [OF True]]]
    let ?q = "r\<lparr>req_Body := reader_of (up_encode uenv (rew_writer rew')),
      req_ContentLength := int (length (up_encode uenv (rew_writer rew'))),
      req_Header := Header_Set (req_Header r) ''Content-Type'' (up_contentType uenv)\<rparr>"
    have s': "s' = (case tracker_Finalize sign (rew_filter rew') ?q of (Some err, q) \<Rightarrow> Fail500 w s | (None, q) \<Rightarrow> h q s)"
      using assms(1) run True by (auto simp: HandleFileUploads_def Let_def savedFileTracker_processor_def)
    show ?thesis
    proof (cases "s' = Fail500 w s")
      case False
      then obtain q where q: "tracker_Finalize sign (rew_filter rew') ?q = (None, q)" "s' = h q s"
        using s' by (auto split: prod.splits option.splits)
      have "req_Body q = reader_of (up_encode uenv (rew_writer rew')) \<and>
          (if rew_filter rew' = None then req_Header q = req_Header ?q
           else \<exists>token. sign (tracked (rew_filter rew')) = Inr token \<and>
             Header_Get (req_Header q) ''Gitlab-Workhorse-Multipart-Fields'' = token)"
        using q(1) by (auto simp: tracker_Finalize_def tracked_def Header_Get_Set split: option.splits sum.splits)
      then show ?thesis using t q(2)
        by (intro disjI2 exI [of _ "tracked (rew_filter rew')"] exI [of _ "rew_writer rew'"] exI [of _ q])
          (simp add: rew_def tracked_def [of None])
    qed simp
  qed
qed

definition sample_part :: "string \<Rightarrow> string \<Rightarrow> bytes \<Rightarrow> part" where
  "sample_part n f b = \<lparr>p_Header = [(''X'', [n])], p_FormName = n, p_FileName = f, p_Body = reader_of b\<rparr>"

definition sample_upload :: upload_env where
  "sample_upload = \<lparr>up_reader = (\<lambda>_. Inr ([sample_part ''token'' [] ''t'', sample_part ''file'' ''a.txt'' ''abc''], None)),
     up_encode = (\<lambda>fs. concat (map (\<lambda>f. case f of Field k v \<Rightarrow> k @ v | Copied h b \<Rightarrow> b) fs)), up_contentType = ''multipart/form-data''\<rparr>"

definition sample_state :: "nat save_state" where
  "sample_state = \<lparr>sv_remote = 0, sv_metrics = no_uploads, sv_files = (\<lambda>_. None)\<rparr>"

definition no_counts :: upload_counters where
  "no_counts = \<lparr>multipartUploadRequests = (\<lambda>_. 0), multipartFileUploadBytes = (\<lambda>_. 0), multipartFiles = (\<lambda>_. 0)\<rparr>"

theorem accelerate_signs_saved_files_witness:
  "\<exists>s x. \<exists>q :: request. HandleFileUploads sample_upload sample_save 0 net_writer (\<lambda>q s. s\<lparr>n_header := req_Header q\<rparr>)
      (savedFileTracker_processor (\<lambda>_. Inr ''signed'')) None sample_request (zero_Response\<lparr>a_TempPath := ''/tmp''\<rparr>)
      (new_response, sample_state, no_counts) = Return (s, x) \<and>
     n_header s = req_Header q \<and> Header_Get (req_Header q) ''Gitlab-Workhorse-Multipart-Fields'' = ''signed''"
proof -
  let ?run = "HandleFileUploads sample_upload sample_save 0 net_writer (\<lambda>q s. s\<lparr>n_header := req_Header q\<rparr>)
    (savedFileTracker_processor (\<lambda>_. Inr ''signed'')) None sample_request (zero_Response\<lparr>a_TempPath := ''/tmp''\<rparr>)
    (new_response, sample_state, no_counts)"
  have "(case ?run of Return (s, _) \<Rightarrow> o_status (n_out s) = 0 | _ \<Rightarrow> False)" by code_simp
  then obtain s x where run: "?run = Return (s, x)" "o_status (n_out s) = 0" by (auto split: go.splits prod.splits)
  have reader: "up_reader sample_upload sample_request = Inr ([sample_part ''token'' [] ''t'', sample_part ''file'' ''a.txt'' ''abc''], None)"
    by (simp add: sample_upload_def)
  have failed: "o_status (n_out (Fail500 net_writer new_response)) \<noteq> 0" "o_status (n_out (RequestEntityTooLarge net_writer new_response)) \<noteq> 0"
    by code_simp+
  have files: "filter is_file [sample_part ''token'' [] ''t'', sample_part ''file'' ''a.txt'' ''abc''] \<noteq> []"
    by (simp add: is_file_def sample_part_def)
  have "\<exists>q :: request. s = new_response\<lparr>n_header := req_Header q\<rparr> \<and> Header_Get (req_Header q) ''Gitlab-Workhorse-Multipart-Fields'' = ''signed''"
    using accelerate_signs_saved_files [OF run(1) reader option.distinct(1)]
  proof (elim disjE exE conjE)
    fix fields out and q :: request
    assume "s = new_response\<lparr>n_header := req_Header q\<rparr>"
      "if filter is_file [sample_part ''token'' [] ''t'', sample_part ''file'' ''a.txt'' ''abc''] = []
       then req_Header q = Header_Set (req_Header sample_request) ''Content-Type'' (up_contentType sample_upload)
       else \<exists>token. Inr ''signed'' = Inr token \<and> Header_Get (req_Header q) ''Gitlab-Workhorse-Multipart-Fields'' = token"
    then show ?thesis using files by (intro exI [of _ q]) auto
  qed (use run(2) failed in auto)
  then obtain q :: request where "s = new_response\<lparr>n_header := req_Header q\<rparr>" "Header_Get (req_Header q) ''Gitlab-Workhorse-Multipart-Fields'' = ''signed''"
    by blast
  then show ?thesis using run(1) by (intro exI [of _ s] exI [of _ x] exI [of _ q]) simp
qed

text \<open>The name of an uploaded file cannot point anywhere: whatever \<open>ioutil.TempFile\<close> would do with a name that
  contains a slash or is \<open>.\<close> or \<open>..\<close>, it makes no difference.\<close>

theorem upload_names_confined:
  assumes "\<forall>d p. CHR ''/'' \<notin> set p \<and> p \<noteq> ''.'' \<and> p \<noteq> ''..'' \<longrightarrow> temp d p = env_temp env d p"
  shows "rewrite_parts (env\<lparr>env_temp := temp\<rparr>) now preauth proc ps e rew = rewrite_parts env now preauth proc ps e rew"
proof -
  have save: "SaveFileFromReader (env\<lparr>env_temp := temp\<rparr>) body n opts st = SaveFileFromReader env body n opts st"
    if "CHR ''/'' \<notin> set (TempFilePrefix opts)" "TempFilePrefix opts \<noteq> ''.''" "TempFilePrefix opts \<noteq> ''..''" for body n opts st
  proof -
    have "store_env.truncate (env\<lparr>env_temp := temp\<rparr>) = store_env.truncate env" by (simp add: store_env.truncate_def)
    then have "remote_upload (env\<lparr>env_temp := temp\<rparr>) = remote_upload env"
      by (intro ext) (simp add: remote_upload_def)
    moreover have "uploadLocalFile (env\<lparr>env_temp := temp\<rparr>) opts = uploadLocalFile env opts"
      using assms that by (simp add: uploadLocalFile_def split: option.split)
    moreover have "env_parse (env\<lparr>env_temp := temp\<rparr>) = env_parse env" "env_hash (env\<lparr>env_temp := temp\<rparr>) = env_hash env"
      "env_deadline (env\<lparr>env_temp := temp\<rparr>) = env_deadline env" by simp_all
    ultimately show ?thesis unfolding SaveFileFromReader_def by (simp only:)
  qed
  have "handleFilePart (env\<lparr>env_temp := temp\<rparr>) now preauth proc name p rew = handleFilePart env now preauth proc name p rew" for name p rew
    by (simp add: handleFilePart_def Let_def save)
  then show ?thesis by (induction ps arbitrary: rew) (auto simp: Let_def split: prod.splits go.splits option.splits)
qed

theorem upload_names_confined_witness:
  "rewrite_parts (sample_save\<lparr>env_temp := (\<lambda>d p. if CHR ''/'' \<in> set p then Inr ''/etc/passwd'' else env_temp sample_save d p)\<rparr>) 0
     (zero_Response\<lparr>a_TempPath := ''/tmp''\<rparr>) (savedFileTracker_processor (\<lambda>_. Inr [])) [sample_part ''file'' ''../x'' ''abc''] None
     \<lparr>rew_writer = [], rew_filter = None, rew_store = sample_state, rew_counters = no_counts\<rparr> =
   rewrite_parts sample_save 0
     (zero_Response\<lparr>a_TempPath := ''/tmp''\<rparr>) (savedFileTracker_processor (\<lambda>_. Inr [])) [sample_part ''file'' ''../x'' ''abc''] None
     \<lparr>rew_writer = [], rew_filter = None, rew_store = sample_state, rew_counters = no_counts\<rparr>"
  by (rule upload_names_confined) simp

end
