(* ===== verification/Send_Data.thy ===== *)
theory Send_Data
  imports Api Codec
begin

text \<open>
  The response rewriting between the backend and the client: \<open>internal/sendfile/sendfile.go\<close>,
  \<open>internal/senddata\<close> and \<open>internal/sendurl/sendurl.go\<close>. A backend answers with a header that tells this
  proxy to send a file, or to run one of the injecters; the response the client gets is made here.

  Injecters are functions on the state below the counting writer the code hands them.
  \<open>http.ServeContent\<close>, \<open>json.Unmarshal\<close>, \<open>http.NewRequest\<close> and the HTTP client are parameters.
\<close>

section \<open>X-Sendfile\<close>

fun digits_artifacts :: "string \<Rightarrow> bool" where
  "digits_artifacts [] = False"
| "digits_artifacts (c # s) = (is_digit c \<and> (HasPrefix s ''/artifacts'' \<or> digits_artifacts s))"

text \<open>The regular expression \<open>builds/[0-9]+/artifacts\<close>, anywhere in the string.\<close>

fun artifactsSendFile :: "string \<Rightarrow> bool" where
  "artifactsSendFile [] = False"
| "artifactsSendFile (c # s) =
     (HasPrefix (c # s) ''builds/'' \<and> digits_artifacts (drop 7 (c # s)) \<or> artifactsSendFile s)"

record sendfile_metrics =
  sendFileRequests :: "string \<Rightarrow> nat"
  sendFileBytes :: "string \<Rightarrow> nat"

definition countSendFileMetrics :: "nat \<Rightarrow> request \<Rightarrow> sendfile_metrics \<Rightarrow> sendfile_metrics" where
  "countSendFileMetrics sz r m =
     (let requestType = (if artifactsSendFile (req_RequestURI r) then ''artifacts'' else ''other'')
      in m\<lparr>sendFileRequests := (sendFileRequests m)(requestType := Suc (sendFileRequests m requestType)),
           sendFileBytes := (sendFileBytes m)(requestType := sendFileBytes m requestType + sz)\<rparr>)"

record 's sendFile =
  sf_rw :: 's
  sf_status :: int
  sf_hijacked :: bool
  sf_req :: request
  sf_metrics :: sendfile_metrics

definition sendFileFromDisk :: "filesystem \<Rightarrow> serve_content \<Rightarrow> 's writer \<Rightarrow> request \<Rightarrow> string \<Rightarrow>
    's \<times> sendfile_metrics \<Rightarrow> 's \<times> sendfile_metrics" where
  "sendFileFromDisk fs serveContent w r filename sm =
     (case OpenFile fs filename of
        Inl err \<Rightarrow> (http_NotFound w (fst sm), snd sm)
      | Inr (content, modTime) \<Rightarrow>
          (exec_calls w (serveContent r [] modTime content (w_Header w (fst sm))) (fst sm),
           countSendFileMetrics (length content) r (snd sm)))"

definition sendFile_WriteHeader :: "filesystem \<Rightarrow> serve_content \<Rightarrow> 's writer \<Rightarrow> int \<Rightarrow> 's sendFile \<Rightarrow> 's sendFile" where
  "sendFile_WriteHeader fs serveContent w status x =
     (if sf_status x \<noteq> 0 then x else
      let x = x\<lparr>sf_status := status\<rparr> in
      if status \<noteq> 200 then x\<lparr>sf_rw := w_WriteHeader w status (sf_rw x)\<rparr> else
      let filename = Header_Get (w_Header w (sf_rw x)) ''X-Sendfile'' in
      if filename \<noteq> [] then
        let x = x\<lparr>sf_rw := w_Del w ''X-Sendfile'' (sf_rw x), sf_hijacked := True\<rparr>;
            x = x\<lparr>sf_rw := DisableResponseBuffering w (sf_rw x)\<rparr>;
            (s, m) = sendFileFromDisk fs serveContent w (sf_req x) filename (sf_rw x, sf_metrics x)
        in x\<lparr>sf_rw := s, sf_metrics := m\<rparr>
      else x\<lparr>sf_rw := w_WriteHeader w status (sf_rw x)\<rparr>)"

definition sendFile_Write :: "filesystem \<Rightarrow> serve_content \<Rightarrow> 's writer \<Rightarrow> bytes \<Rightarrow> 's sendFile \<Rightarrow>
    's sendFile \<times> nat \<times> gerror option" where
  "sendFile_Write fs serveContent w data x =
     (let x = (if sf_status x = 0 then sendFile_WriteHeader fs serveContent w 200 x else x) in
      if sf_hijacked x then (x, 0, None)
      else let (rw, n, err) = w_Write w data (sf_rw x) in (x\<lparr>sf_rw := rw\<rparr>, n, err))"

definition sendFile_writer :: "filesystem \<Rightarrow> serve_content \<Rightarrow> 's writer \<Rightarrow> 's sendFile writer" where
  "sendFile_writer fs serveContent w = \<lparr>w_Header = (\<lambda>x. w_Header w (sf_rw x)),
     w_putHeader = (\<lambda>h x. x\<lparr>sf_rw := w_putHeader w h (sf_rw x)\<rparr>),
     w_WriteHeader = sendFile_WriteHeader fs serveContent w, w_Write = sendFile_Write fs serveContent w\<rparr>"

definition sendFile_Flush :: "filesystem \<Rightarrow> serve_content \<Rightarrow> 's writer \<Rightarrow> 's sendFile \<Rightarrow> 's sendFile" where
  "sendFile_Flush fs serveContent w x = sendFile_WriteHeader fs serveContent w 200 x"

text \<open>\<open>SendFile\<close> also sets a header of the request, for the backend to see.\<close>

definition advertise :: "request \<Rightarrow> request" where
  "advertise req = req\<lparr>req_Header := Header_Set (req_Header req) ''X-Sendfile-Type'' ''X-Sendfile''\<rparr>"

definition SendFile :: "filesystem \<Rightarrow> serve_content \<Rightarrow> 's writer \<Rightarrow> 's sendFile handler \<Rightarrow>
    request \<Rightarrow> 's \<times> sendfile_metrics \<Rightarrow> 's \<times> sendfile_metrics" where
  "SendFile fs serveContent w h req sm =
     (let req = advertise req;
          x = sendFile_Flush fs serveContent w
            (h req \<lparr>sf_rw = fst sm, sf_status = 0, sf_hijacked = False, sf_req = req, sf_metrics = snd sm\<rparr>)
      in (sf_rw x, sf_metrics x))"

section \<open>Gitlab-Workhorse-Send-Data\<close>

definition HeaderKey :: string where
  "HeaderKey = ''Gitlab-Workhorse-Send-Data''"

definition Prefix_Match :: "string \<Rightarrow> string \<Rightarrow> bool" where
  "Prefix_Match p s = HasPrefix s p"

definition Prefix_Name :: "string \<Rightarrow> string" where
  "Prefix_Name p = TrimSuffix p '':''"

definition Unpack :: "(bytes \<Rightarrow> 'p result) \<Rightarrow> string \<Rightarrow> string \<Rightarrow> 'p result" where
  "Unpack unmarshal p sendData =
     (case b64_decode True (TrimPrefix sendData p) of
        None \<Rightarrow> Inl (Errorf ''illegal base64 data'')
      | Some jsonBytes \<Rightarrow> unmarshal jsonBytes)"

record 's injecter =
  inj_Prefix :: string
  inj_Inject :: "request \<Rightarrow> string \<Rightarrow> 's counting \<Rightarrow> 's counting"

record senddata_metrics =
  sendDataResponses :: "string \<Rightarrow> nat"
  sendDataResponseBytes :: "string \<Rightarrow> int"

record 's sendData =
  sd_rw :: 's
  sd_status :: int
  sd_hijacked :: bool
  sd_req :: request
  sd_injecters :: "'s injecter list"
  sd_metrics :: senddata_metrics

definition tryInject :: "'s writer \<Rightarrow> 's sendData \<Rightarrow> 's sendData \<times> bool" where
  "tryInject w x =
     (let header = Header_Get (w_Header w (sd_rw x)) HeaderKey;
          x = x\<lparr>sd_rw := w_Del w HeaderKey (sd_rw x)\<rparr> in
      if header = [] then (x, False) else
      case find (\<lambda>i. Prefix_Match (inj_Prefix i) header) (sd_injecters x) of
        None \<Rightarrow> (x, False)
      | Some i \<Rightarrow>
          let x = x\<lparr>sd_hijacked := True, sd_rw := DisableResponseBuffering w (sd_rw x)\<rparr>;
              crw = inj_Inject i (sd_req x) header (NewCountingResponseWriter (sd_rw x));
              m = sd_metrics x; name = Prefix_Name (inj_Prefix i)
          in (x\<lparr>sd_rw := c_rw crw, sd_metrics := m\<lparr>
                sendDataResponses := (sendDataResponses m)(name := Suc (sendDataResponses m name)),
                sendDataResponseBytes := (sendDataResponseBytes m)(name := sendDataResponseBytes m name + c_count crw)\<rparr>\<rparr>,
              True))"

definition sendData_WriteHeader :: "'s writer \<Rightarrow> int \<Rightarrow> 's sendData \<Rightarrow> 's sendData" where
  "sendData_WriteHeader w status x =
     (if sd_status x \<noteq> 0 then x else
      let x = x\<lparr>sd_status := status\<rparr>;
          (x, injected) = (if status = 200 then tryInject w x else (x, False))
      in if injected then x
         else let x = x\<lparr>sd_rw := w_Del w HeaderKey (sd_rw x)\<rparr>
              in x\<lparr>sd_rw := w_WriteHeader w (sd_status x) (sd_rw x)\<rparr>)"

definition sendData_Write :: "'s writer \<Rightarrow> bytes \<Rightarrow> 's sendData \<Rightarrow> 's sendData \<times> nat \<times> gerror option" where
  "sendData_Write w data x =
     (let x = (if sd_status x = 0 then sendData_WriteHeader w 200 x else x) in
      if sd_hijacked x then (x, 0, None)
      else let (rw, n, err) = w_Write w data (sd_rw x) in (x\<lparr>sd_rw := rw\<rparr>, n, err))"

definition sendData_writer :: "'s writer \<Rightarrow> 's sendData writer" where
  "sendData_writer w = \<lparr>w_Header = (\<lambda>x. w_Header w (sd_rw x)),
     w_putHeader = (\<lambda>h x. x\<lparr>sd_rw := w_putHeader w h (sd_rw x)\<rparr>),
     w_WriteHeader = sendData_WriteHeader w, w_Write = sendData_Write w\<rparr>"

definition sendData_Flush :: "'s writer \<Rightarrow> 's sendData \<Rightarrow> 's sendData" where
  "sendData_Flush w x = sendData_WriteHeader w 200 x"

definition SendData :: "'s writer \<Rightarrow> 's sendData handler \<Rightarrow> 's injecter list \<Rightarrow>
    request \<Rightarrow> 's \<times> senddata_metrics \<Rightarrow> 's \<times> senddata_metrics" where
  "SendData w h injecters r sm =
     (let x = sendData_Flush w (h r \<lparr>sd_rw = fst sm, sd_status = 0, sd_hijacked = False, sd_req = r,
                sd_injecters = injecters, sd_metrics = snd sm\<rparr>)
      in (sd_rw x, sd_metrics x))"

section \<open>SendURL\<close>

record entryParams =
  ep_URL :: string
  ep_AllowRedirects :: bool

record sendurl_metrics =
  sendURLRequests :: "string \<Rightarrow> nat"
  sendURLOpenRequests :: int
  sendURLBytes :: nat

definition rangeHeaderKeys :: "string list" where
  "rangeHeaderKeys = [''If-Match'', ''If-Unmodified-Since'', ''If-None-Match'', ''If-Modified-Since'', ''If-Range'', ''Range'']"

definition count_sendurl :: "string \<Rightarrow> sendurl_metrics \<Rightarrow> sendurl_metrics" where
  "count_sendurl l m = m\<lparr>sendURLRequests := (sendURLRequests m)(l := Suc (sendURLRequests m l))\<rparr>"

text \<open>
  \<open>parse\<close> is the URL parser of \<open>http.NewRequest\<close>; \<open>do\<close> and \<open>roundTrip\<close> send a request with and without
  following redirects. The gauge of open requests goes up at the start and, deferred, down.
\<close>

definition sendurl_request :: "url \<Rightarrow> request \<Rightarrow> request" where
  "sendurl_request u r =
     \<lparr>req_Method = ''GET'', req_URL = u, req_RequestURI = [],
      req_Header = foldl (\<lambda>h k. AList.update k (Header_values (req_Header r) k) h) [] rangeHeaderKeys,
      req_Body = ([], None), req_ContentLength = 0, req_Host = url_Host u, req_RemoteAddr = [],
      req_ProtoMajor = 1, req_ProtoMinor = 1\<rparr>"

definition sendurl_serve :: "(bytes \<Rightarrow> entryParams result) \<Rightarrow> (string \<Rightarrow> url result) \<Rightarrow>
    (request \<Rightarrow> http_response result) \<Rightarrow> (request \<Rightarrow> http_response result) \<Rightarrow>
    's writer \<Rightarrow> request \<Rightarrow> string \<Rightarrow> 's \<times> sendurl_metrics \<Rightarrow> 's \<times> sendurl_metrics" where
  "sendurl_serve unmarshal parse do roundTrip w r sendData sm =
     (case Unpack unmarshal ''send-url:'' sendData of
        Inl err \<Rightarrow> (Fail500 w (fst sm), snd sm)
      | Inr params \<Rightarrow>
          if ep_URL params = [] then (Fail500 w (fst sm), count_sendurl ''invalid-data'' (snd sm)) else
          case parse (ep_URL params) of
            Inl err \<Rightarrow> (Fail500 w (fst sm), count_sendurl ''invalid-data'' (snd sm))
          | Inr u \<Rightarrow>
              let newReq = sendurl_request u r in
              case (if ep_AllowRedirects params then do newReq else roundTrip newReq) of
                Inl err \<Rightarrow> (Fail500 w (fst sm), count_sendurl ''request-failed'' (snd sm))
              | Inr resp \<Rightarrow>
                  let s = foldl (\<lambda>s (k, v). w_put w k v s) (fst sm) (rsp_Header resp);
                      s = w_WriteHeader w (rsp_StatusCode resp) s;
                      (s, n, err) = io_Copy w (fst (rsp_Body resp)) (snd (rsp_Body resp)) s;
                      m = (snd sm)\<lparr>sendURLBytes := sendURLBytes (snd sm) + n\<rparr>
                  in (case err of
                      Some e \<Rightarrow> (Fail500 w s, count_sendurl ''request-failed'' m)
                    | None \<Rightarrow> (s, count_sendurl ''succeeded'' m)))"

definition sendurl_Inject :: "(bytes \<Rightarrow> entryParams result) \<Rightarrow> (string \<Rightarrow> url result) \<Rightarrow>
    (request \<Rightarrow> http_response result) \<Rightarrow> (request \<Rightarrow> http_response result) \<Rightarrow>
    's writer \<Rightarrow> request \<Rightarrow> string \<Rightarrow> 's \<times> sendurl_metrics \<Rightarrow> 's \<times> sendurl_metrics" where
  "sendurl_Inject unmarshal parse do roundTrip w r sendData sm =
     (let m = snd sm;
          m = m\<lparr>sendURLOpenRequests := sendURLOpenRequests m + 1\<rparr>;
          (s, m) = sendurl_serve unmarshal parse do roundTrip w r sendData (fst sm, m)
      in (s, m\<lparr>sendURLOpenRequests := sendURLOpenRequests m - 1\<rparr>))"

section \<open>The stack in front of the backend\<close>

text \<open>
  \<open>configureRoutes\<close> puts the three wrappers around the proxy in this order. The request is shared, so
  the injecters, which run after \<open>SendFile\<close> has set its header, see that header too.
\<close>

definition proxy_stack :: "filesystem \<Rightarrow> serve_content \<Rightarrow> 's writer \<Rightarrow> 's injecter list \<Rightarrow>
    's sendData sendFile blocker handler \<Rightarrow> sendfile_metrics \<Rightarrow> request \<Rightarrow> 's \<times> senddata_metrics \<Rightarrow> 's \<times> senddata_metrics" where
  "proxy_stack fs serveContent w injecters h m r =
     SendData w (\<lambda>r x. fst (SendFile fs serveContent (sendData_writer w)
       (Block (sendFile_writer fs serveContent (sendData_writer w)) h) r (x, m))) injecters (advertise r)"

section \<open>Both wrappers hijack\<close>

definition notfound_calls :: "header \<Rightarrow> call list" where
  "notfound_calls h =
     [Put_Header (Header_Set h ''Content-Type'' ''text/plain; charset=utf-8''),
      Put_Header (Header_Set (Header_Set h ''Content-Type'' ''text/plain; charset=utf-8'') ''X-Content-Type-Options'' ''nosniff''),
      Call_WriteHeader 404, Call_Write (''404 page not found'' @ [CHR 0x0A])]"

definition wants_file :: "int \<Rightarrow> header \<Rightarrow> bool" where
  "wants_file st h \<longleftrightarrow> st = 200 \<and> Header_Get h ''X-Sendfile'' \<noteq> []"

definition sendfile_calls :: "filesystem \<Rightarrow> serve_content \<Rightarrow> request \<Rightarrow> int \<Rightarrow> header \<Rightarrow> call list" where
  "sendfile_calls fs serveContent req st h =
     (if wants_file st h
      then let h1 = Header_Del h ''X-Sendfile''; h2 = Header_Set h1 ''X-Accel-Buffering'' ''no'' in
        [Put_Header h1, Put_Header h2] @
        (case OpenFile fs (Header_Get h ''X-Sendfile'') of
           Inl _ \<Rightarrow> notfound_calls h2 | Inr (content, t) \<Rightarrow> serveContent req [] t content h2)
      else [Call_WriteHeader st])"

text \<open>The one thing asked of \<open>http.ServeContent\<close>: it starts a response.\<close>

definition starts_response :: "serve_content \<Rightarrow> bool" where
  "starts_response sc \<longleftrightarrow> (\<forall>r n t c h. Call_WriteHeader 0 \<notin> set (sc r n t c h) \<and> \<not> list_all is_put (sc r n t c h))"

lemma sendfile_calls_ok: "starts_response sc \<Longrightarrow> calls_ok (sendfile_calls fs sc req)"
  by (auto simp: calls_ok_def sendfile_calls_def notfound_calls_def starts_response_def Let_def split: sum.split prod.split)

locale sendfile_over = header_map +
  fixes fs :: filesystem and sc :: serve_content and req :: request
begin

lemma http_NotFound_calls: "http_NotFound w s = exec_calls w (notfound_calls (w_Header w s)) s"
  by (simp add: http_NotFound_def http_Error_calls notfound_calls_def)

lemma sendFile_first:
  "sf_status x = 0 \<Longrightarrow> sf_req x = req \<Longrightarrow>
   sf_rw (sendFile_WriteHeader fs sc w st x) = exec_calls w (sendfile_calls fs sc req st (w_Header w (sf_rw x))) (sf_rw x)"
  by (simp add: sendFile_WriteHeader_def sendfile_calls_def wants_file_def sendFileFromDisk_def http_NotFound_calls
      DisableResponseBuffering_def Let_def split: sum.split prod.split)

end

lemma sendFile_state:
  "sf_status x = 0 \<Longrightarrow> sf_status (sendFile_WriteHeader fs sc w st x) = st"
  "sf_status x = 0 \<Longrightarrow> \<not> sf_hijacked x \<Longrightarrow>
     sf_hijacked (sendFile_WriteHeader fs sc w st x) = wants_file st (w_Header w (sf_rw x))"
  "sf_status x \<noteq> 0 \<Longrightarrow> sendFile_WriteHeader fs sc w st x = x"
  by (simp_all add: sendFile_WriteHeader_def wants_file_def Let_def split_beta)

sublocale sendfile_over \<subseteq> sendfile: rendering_writer w "sendFile_writer fs sc w" sf_rw sf_status sf_hijacked
  "\<lambda>x. sf_req x = req" "\<lambda>st h s. exec_calls w (sendfile_calls fs sc req st h) s" wants_file "sendfile_calls fs sc req"
  by unfold_locales
    (simp_all add: sendFile_writer_def sendFile_first sendFile_state sendFile_Write_def Let_def split_beta)

definition injecter_for :: "'s injecter list \<Rightarrow> int \<Rightarrow> header \<Rightarrow> 's injecter option" where
  "injecter_for injecters st h =
     (if st = 200 \<and> Header_Get h HeaderKey \<noteq> []
      then find (\<lambda>i. Prefix_Match (inj_Prefix i) (Header_Get h HeaderKey)) injecters else None)"

definition inject_act :: "'s writer \<Rightarrow> 's injecter list \<Rightarrow> request \<Rightarrow> int \<Rightarrow> header \<Rightarrow> 's \<Rightarrow> 's" where
  "inject_act w injecters r st h s =
     (let s = w_putHeader w (Header_Del h HeaderKey) s in
      case injecter_for injecters st h of
        Some i \<Rightarrow> c_rw (inj_Inject i r (Header_Get h HeaderKey) (NewCountingResponseWriter (DisableResponseBuffering w s)))
      | None \<Rightarrow> let s = (if st = 200 then w_Del w HeaderKey s else s) in w_WriteHeader w st s)"

locale senddata_over = header_map w for w :: "'s writer" +
  fixes injecters :: "'s injecter list" and r :: request
begin

lemma sendData_first:
  "sd_status x = 0 \<Longrightarrow> sd_req x = r \<Longrightarrow> sd_injecters x = injecters \<Longrightarrow>
   sd_rw (sendData_WriteHeader w st x) = inject_act w injecters r st (w_Header w (sd_rw x)) (sd_rw x)"
  by (auto simp: sendData_WriteHeader_def tryInject_def inject_act_def injecter_for_def Let_def split: option.split)

lemma sendData_hijacks:
  "sd_status x = 0 \<Longrightarrow> sd_injecters x = injecters \<Longrightarrow> \<not> sd_hijacked x \<Longrightarrow>
   sd_hijacked (sendData_WriteHeader w st x) = (injecter_for injecters st (w_Header w (sd_rw x)) \<noteq> None)"
  by (auto simp: sendData_WriteHeader_def tryInject_def injecter_for_def Let_def split: option.split)

end

lemma sendData_state:
  "sd_status x = 0 \<Longrightarrow> sd_status (sendData_WriteHeader w st x) = st"
  "sd_status x \<noteq> 0 \<Longrightarrow> sendData_WriteHeader w st x = x"
  by (auto simp: sendData_WriteHeader_def tryInject_def Let_def split_beta split: option.split)

sublocale senddata_over \<subseteq> senddata: hijacking_writer w "sendData_writer w" sd_rw sd_status sd_hijacked
  "\<lambda>x. sd_req x = r \<and> sd_injecters x = injecters" "inject_act w injecters r" "\<lambda>st h. injecter_for injecters st h \<noteq> None"
  by unfold_locales
    (simp_all add: sendData_writer_def sendData_first sendData_hijacks sendData_state sendData_Write_def Let_def split_beta
      del: not_None_eq)

interpretation sd_net: senddata_over net_writer injecters r for injecters r
  by unfold_locales

interpretation sd_map: header_map "sendData_writer net_writer"
  by (rule sd_net.senddata.outer.header_map_axioms)

interpretation sf_sd: sendfile_over "sendData_writer net_writer" fs sc req for fs sc req
  by unfold_locales

interpretation bl_sf: blocker_over "sendFile_writer fs sc (sendData_writer net_writer)" for fs sc
  by unfold_locales (simp add: sendFile_writer_def)

lemma advertise_idem [simp]: "advertise (advertise r) = advertise r"
proof -
  have "AList.update k v (AList.update k v xs) = AList.update k v xs" for k v and xs :: header
    by (induction xs) auto
  then show ?thesis by (simp add: advertise_def Header_Set_def)
qed

lemma inject_starts:
  "st \<noteq> 0 \<Longrightarrow> injecter_for injecters st h = None \<Longrightarrow>
   n_out (inject_act net_writer injecters r st h (fresh h)) = \<lparr>o_status = st, o_header = Header_Del h HeaderKey, o_body = []\<rparr> \<and>
   n_room (inject_act net_writer injecters r st h (fresh h)) = None"
  by (simp add: inject_act_def net_WriteHeader_def Let_def fresh_def new_response_def no_response_def)
    (simp add: Header_Del_def delete_idem)

text \<open>What the client gets for the response \<open>u\<close> of the backend.\<close>

definition stack_response :: "filesystem \<Rightarrow> serve_content \<Rightarrow> net_resp injecter list \<Rightarrow> request \<Rightarrow> wire \<Rightarrow> wire" where
  "stack_response fs sc injecters r u =
     (let u = renders block_calls (\<lambda>st h. internal_type h) u;
          u = renders (sendfile_calls fs sc r) wants_file u;
          h = Header_Del (o_header u) HeaderKey
      in case injecter_for injecters (o_status u) (o_header u) of
           None \<Rightarrow> u\<lparr>o_header := h\<rparr>
         | Some i \<Rightarrow> n_out (c_rw (inj_Inject i r (Header_Get (o_header u) HeaderKey)
             (NewCountingResponseWriter (fresh (Header_Set h ''X-Accel-Buffering'' ''no''))))))"

text \<open>The calls of the backend's proxy as they arrive at the writer of \<open>SendData\<close>.\<close>

definition stack_calls :: "filesystem \<Rightarrow> serve_content \<Rightarrow> request \<Rightarrow> call list \<Rightarrow> call list" where
  "stack_calls fs sc r cs =
     inner_calls (sendfile_calls fs sc r) wants_file [] (inner_calls block_calls (\<lambda>st h. internal_type h) [] cs)"

lemma stack_calls_response:
  assumes "starts_response sc" "Call_WriteHeader 0 \<notin> set cs"
  shows "response_of [] (stack_calls fs sc r cs) =
      renders (sendfile_calls fs sc r) wants_file (renders block_calls (\<lambda>st h. internal_type h) (response_of [] cs))"
    and "Call_WriteHeader 0 \<notin> set (stack_calls fs sc r cs)"
proof -
  note ok = sendfile_calls_ok [OF assms(1)] block_calls_ok
  show "response_of [] (stack_calls fs sc r cs) =
      renders (sendfile_calls fs sc r) wants_file (renders block_calls (\<lambda>st h. internal_type h) (response_of [] cs))"
    unfolding stack_calls_def using ok by (simp add: response_inner_calls calls_ok_def)
  show "Call_WriteHeader 0 \<notin> set (stack_calls fs sc r cs)"
    unfolding stack_calls_def by (intro inner_calls_ok(1) ok assms)
qed

lemma stack_inner:
  assumes "starts_response sc" "Call_WriteHeader 0 \<notin> set cs"
    and "w_Header (sendData_writer net_writer) x = []"
  shows "fst (SendFile fs sc (sendData_writer net_writer) (Block (sendFile_writer fs sc (sendData_writer net_writer))
      (\<lambda>_. exec_calls (blocker_writer (sendFile_writer fs sc (sendData_writer net_writer))) cs)) r (x, m)) =
    exec_calls (sendData_writer net_writer) (stack_calls fs sc (advertise r) cs) x"
proof -
  let ?sd = "sendData_writer net_writer"
  let ?sf = "sendFile_writer fs sc ?sd"
  let ?y = "\<lparr>sf_rw = x, sf_status = 0, sf_hijacked = False, sf_req = advertise r, sf_metrics = m\<rparr>"
  let ?cs1 = "inner_calls block_calls (\<lambda>st h. internal_type h) [] cs"
  have y: "w_Header ?sf ?y = []" using assms(3) by (simp add: sendFile_writer_def)
  have "Block ?sf (\<lambda>_. exec_calls (blocker_writer ?sf) cs) (advertise r) ?y = exec_calls ?sf ?cs1 ?y"
    using bl_sf.block.run_calls [of "\<lparr>b_rw = ?y, b_hijacked = False, b_status = 0\<rparr>" cs fs sc] assms(2) y
    by (simp add: Block_def blocker_Flush_def blocker_writer_def)
  moreover have "Call_WriteHeader 0 \<notin> set ?cs1" by (rule inner_calls_ok(1) [OF block_calls_ok assms(2)])
  ultimately show ?thesis
    using sf_sd.sendfile.run_calls [of ?y "advertise r" ?cs1 fs sc] assms(3)
    by (simp add: SendFile_def sendFile_Flush_def Let_def sendFile_writer_def stack_calls_def)
qed

section \<open>Properties\<close>

text \<open>C1. What a client gets through the whole stack of wrappers is a function of the backend's response:
  an internal API response becomes a plain 500; otherwise, with status 200, a file named by
  \<open>X-Sendfile\<close> is sent or an injecter answers, each with its header removed; and any other
  response passes unchanged but for the \<open>Gitlab-Workhorse-Send-Data\<close> header, which is always removed.\<close>

theorem proxy_stack_exact:
  assumes "starts_response sc" "Call_WriteHeader 0 \<notin> set cs"
  shows "n_out (fst (proxy_stack fs sc net_writer injecters
      (\<lambda>_. exec_calls (blocker_writer (sendFile_writer fs sc (sendData_writer net_writer))) cs) m r (new_response, m'))) =
    stack_response fs sc injecters (advertise r) (n_out (exec_calls net_writer (cs @ [Call_WriteHeader 200]) new_response))"
proof -
  have new: "new_response = fresh []" by (simp add: fresh_def new_response_def)
  let ?r = "advertise r"
  let ?x = "\<lparr>sd_rw = fresh [], sd_status = 0, sd_hijacked = False, sd_req = ?r, sd_injecters = injecters, sd_metrics = m'\<rparr>"
  let ?cs = "stack_calls fs sc ?r cs"
  note sc = stack_calls_response [OF assms]
  have "w_Header (sendData_writer net_writer) ?x = []" by (simp add: sendData_writer_def)
  then have "fst (proxy_stack fs sc net_writer injecters
      (\<lambda>_. exec_calls (blocker_writer (sendFile_writer fs sc (sendData_writer net_writer))) cs) m r (new_response, m')) =
      sd_rw (w_WriteHeader (sendData_writer net_writer) 200 (exec_calls (sendData_writer net_writer) ?cs ?x))"
    using stack_inner [OF assms, of ?x fs ?r m]
    by (simp add: proxy_stack_def SendData_def sendData_Flush_def sendData_writer_def Let_def new)
  moreover have "n_out (sd_rw (w_WriteHeader (sendData_writer net_writer) 200 (exec_calls (sendData_writer net_writer) ?cs ?x))) =
      (let u = response_of [] ?cs; v = n_out (inject_act net_writer injecters ?r (o_status u) (o_header u) (fresh (o_header u)))
       in if injecter_for injecters (o_status u) (o_header u) \<noteq> None then v else v\<lparr>o_body := o_body v @ o_body u\<rparr>)"
    using sd_net.senddata.run_fresh [of ?x ?r injecters ?cs] sc(2)
    by (intro net_run) (auto simp: inject_starts)
  moreover have "o_status (response_of [] ?cs) \<noteq> 0"
    using commit_status [OF sc(2), of "[]" fs ?r] by (simp add: response_of_def split_beta)
  moreover have u: "n_out (exec_calls net_writer (cs @ [Call_WriteHeader 200]) new_response) = response_of [] cs"
    unfolding new by (rule net_response_of [OF assms(2)])
  ultimately show ?thesis
    unfolding stack_response_def u sc(1) [symmetric] Let_def
    by (auto simp: inject_starts split: option.split)
      (simp add: inject_act_def Let_def DisableResponseBuffering_def fresh_def)
qed

theorem proxy_stack_exact_witness:
  "n_out (fst (proxy_stack [''/f'' \<mapsto> File ''content'' 1] plain_content net_writer []
      (\<lambda>_. exec_calls (blocker_writer (sendFile_writer [''/f'' \<mapsto> File ''content'' 1] plain_content (sendData_writer net_writer)))
        [Put_Header [(''X-Sendfile'', [''/f''])], Call_Write ''ignored''])
      \<lparr>sendFileRequests = (\<lambda>_. 0), sendFileBytes = (\<lambda>_. 0)\<rparr> sample_request
      (new_response, \<lparr>sendDataResponses = (\<lambda>_. 0), sendDataResponseBytes = (\<lambda>_. 0)\<rparr>))) =
   \<lparr>o_status = 200, o_header = [(''X-Accel-Buffering'', [''no''])], o_body = ''content''\<rparr>"
proof -
  let ?cs = "[Put_Header [(''X-Sendfile'', [''/f''])], Call_Write ''ignored'']"
  let ?u = "n_out (exec_calls net_writer (?cs @ [Call_WriteHeader 200]) new_response)"
  have u: "?u = \<lparr>o_status = 200, o_header = [(''X-Sendfile'', [''/f''])], o_body = ''ignored''\<rparr>"
    by (simp add: new_response_def no_response_def net_Write_def net_WriteHeader_def Let_def)
  have sc: "starts_response plain_content" by (simp add: starts_response_def plain_content_def)
  have cs: "Call_WriteHeader 0 \<notin> set ?cs" by simp
  have "stack_response [''/f'' \<mapsto> File ''content'' 1] plain_content [] (advertise sample_request)
      \<lparr>o_status = 200, o_header = [(''X-Sendfile'', [''/f''])], o_body = ''ignored''\<rparr> =
    \<lparr>o_status = 200, o_header = [(''X-Accel-Buffering'', [''no''])], o_body = ''content''\<rparr>"
    by code_simp
  then show ?thesis unfolding proxy_stack_exact [OF sc cs] u .
qed

text \<open>A packed instruction survives its encoding: for any payload the backend encodes after a prefix,
  \<open>Unpack\<close> with that prefix hands exactly that payload to the JSON decoder.\<close>

theorem Unpack_packed: "Unpack unmarshal p (p @ b64_encode True payload) = unmarshal payload"
  by (simp add: Unpack_def)

lemma range_headers_only:
  assumes "\<forall>k \<in> set rangeHeaderKeys. Header_values (req_Header r) k = Header_values (req_Header r') k"
  shows "sendurl_request u r = sendurl_request u r'"
  using assms by (simp add: sendurl_request_def rangeHeaderKeys_def)

text \<open>C25. \<open>SendURL\<close> gives away nothing of the client's request but its range headers: two requests that agree
  on those six headers produce the same outgoing request, response and metrics, so neither
  cookies nor tokens nor the path reach the remote server.\<close>

theorem sendurl_no_credentials:
  assumes "\<forall>k \<in> set rangeHeaderKeys. Header_values (req_Header r) k = Header_values (req_Header r') k"
  shows "sendurl_Inject unmarshal parse do roundTrip w r sendData sm = sendurl_Inject unmarshal parse do roundTrip w r' sendData sm"
  unfolding sendurl_Inject_def sendurl_serve_def range_headers_only [OF assms] ..

text \<open>A remote server that echoes the headers it is sent.\<close>

definition echo_injecter :: "request \<Rightarrow> net_resp \<times> sendurl_metrics" where
  "echo_injecter r = sendurl_Inject (\<lambda>_. Inr \<lparr>ep_URL = ''u'', ep_AllowRedirects = False\<rparr>)
     (\<lambda>_. Inr (req_URL sample_request)) (\<lambda>_. Inl EOF)
     (\<lambda>q. Inr \<lparr>rsp_Status = ''200 OK'', rsp_StatusCode = 200, rsp_Header = req_Header q, rsp_Body = ([], None)\<rparr>) net_writer r ''send-url:''
     (new_response, \<lparr>sendURLRequests = (\<lambda>_. 0), sendURLOpenRequests = 0, sendURLBytes = 0\<rparr>)"

theorem sendurl_no_credentials_witness:
  "echo_injecter (sample_request\<lparr>req_Header := [(''Cookie'', [''secret'']), (''Range'', [''bytes=0-1''])]\<rparr>) =
   echo_injecter (sample_request\<lparr>req_Header := [(''Range'', [''bytes=0-1''])]\<rparr>)"
  unfolding echo_injecter_def
  by (rule sendurl_no_credentials) (simp add: rangeHeaderKeys_def Header_values_def)

end
