(* ===== verification/Paths.thy ===== *)
theory Paths
  imports Prelude
begin

text \<open>
  Go's \<open>path\<close> and \<open>path/filepath\<close> packages as the code uses them on a Unix system, and
  \<open>internal/urlprefix/urlprefix.go\<close> on top of them.

  \<open>path.Clean\<close> is written over the list of path elements: empty elements and \<open>.\<close> are dropped,
  \<open>..\<close> removes the element before it, and at the root it is dropped.
\<close>

section \<open>path and filepath\<close>

definition push_elem :: "bool \<Rightarrow> string list \<Rightarrow> string \<Rightarrow> string list" where
  "push_elem rooted st c =
     (if c = [] \<or> c = ''.'' then st
      else if c = ''..'' then
        (case st of
           [] \<Rightarrow> if rooted then [] else [''..'']
         | t # ts \<Rightarrow> if t = ''..'' then ''..'' # st else ts)
      else c # st)"

definition clean_elems :: "bool \<Rightarrow> string \<Rightarrow> string list" where
  "clean_elems rooted p = rev (foldl (push_elem rooted) [] (Split (CHR ''/'') p))"

definition Clean :: "string \<Rightarrow> string" where
  "Clean p =
     (if p = [] then ''.''
      else if hd p = CHR ''/'' then CHR ''/'' # Join (clean_elems True p) ''/''
      else let out = Join (clean_elems False p) ''/'' in if out = [] then ''.'' else out)"

definition path_Join :: "string list \<Rightarrow> string" where
  "path_Join elems =
     (case dropWhile (\<lambda>e. e = []) elems of [] \<Rightarrow> [] | es \<Rightarrow> Clean (Join es ''/''))"

definition path_Base :: "string \<Rightarrow> string" where
  "path_Base p =
     (if p = [] then ''.'' else
      let p = rev (dropWhile (\<lambda>c. c = CHR ''/'') (rev p));
          b = rev (takeWhile (\<lambda>c. c \<noteq> CHR ''/'') (rev p))
      in if b = [] then ''/'' else b)"

definition path_Dir :: "string \<Rightarrow> string" where
  "path_Dir p = Clean (rev (dropWhile (\<lambda>c. c \<noteq> CHR ''/'') (rev p)))"

section \<open>urlprefix\<close>

definition CleanURIPath :: "string \<Rightarrow> string" where
  "CleanURIPath p =
     (if p = [] then ''/'' else
      let p = (if hd p \<noteq> CHR ''/'' then CHR ''/'' # p else p);
          np = Clean p
      in if last p = CHR ''/'' \<and> np \<noteq> ''/'' then np @ ''/'' else np)"

definition Strip :: "string \<Rightarrow> string \<Rightarrow> string" where
  "Strip pre path = CleanURIPath (TrimPrefix path pre)"

definition Match :: "string \<Rightarrow> string \<Rightarrow> bool" where
  "Match pre path \<longleftrightarrow> HasPrefix path pre \<or> path @ ''/'' = pre"

section \<open>Clean elements\<close>

text \<open>An element that names an entry of the directory it stands in.\<close>

definition plain_elem :: "string \<Rightarrow> bool" where
  "plain_elem c \<longleftrightarrow> c \<noteq> [] \<and> c \<noteq> ''.'' \<and> c \<noteq> ''..'' \<and> CHR ''/'' \<notin> set c"

lemma Split_append: "Split c (a @ c # b) = Split c a @ Split c b"
proof (induction a)
  case (Cons x a)
  then show ?case by (cases "Split c a") auto
qed simp

lemma push_rooted_plain:
  "\<forall>c \<in> set st. plain_elem c \<Longrightarrow> CHR ''/'' \<notin> set c \<Longrightarrow> \<forall>x \<in> set (push_elem True st c). plain_elem x"
  by (cases "c = [] \<or> c = ''.''"; cases "c = ''..''"; cases st) (simp_all add: push_elem_def, simp_all add: plain_elem_def)

lemma foldl_push_rooted:
  "\<forall>c \<in> set st. plain_elem c \<Longrightarrow> \<forall>c \<in> set cs. CHR ''/'' \<notin> set c \<Longrightarrow>
   \<forall>x \<in> set (foldl (push_elem True) st cs). plain_elem x"
proof (induction cs arbitrary: st)
  case (Cons c cs)
  then show ?case using push_rooted_plain [of st c] by simp
qed simp

lemma clean_elems_plain: "c \<in> set (clean_elems True p) \<Longrightarrow> plain_elem c"
  using foldl_push_rooted [of "[]" "Split (CHR ''/'') p"] Split_no_sep by (auto simp: clean_elems_def)

lemma foldl_push_plain:
  "\<forall>c \<in> set cs. plain_elem c \<Longrightarrow> foldl (push_elem r) st cs = rev cs @ st"
  by (induction cs arbitrary: st) (auto simp: push_elem_def plain_elem_def)

lemma clean_elems_Join:
  assumes "\<forall>c \<in> set cs. plain_elem c"
  shows "clean_elems r (Join cs ''/'') = cs"
proof (cases "cs = []")
  case True
  then show ?thesis by (simp add: clean_elems_def push_elem_def)
next
  case False
  then have "Split (CHR ''/'') (Join cs ''/'') = cs"
    using assms Split_Join [of cs "CHR ''/''"] by (auto simp: plain_elem_def)
  then show ?thesis using foldl_push_plain [OF assms, of r "[]"] by (simp add: clean_elems_def)
qed

lemma clean_elems_slash [simp]: "clean_elems r (CHR ''/'' # p) = clean_elems r p"
  by (simp add: clean_elems_def push_elem_def)

lemma clean_elems_trailing [simp]: "clean_elems r (p @ ''/'') = clean_elems r p"
  using Split_append [of "CHR ''/''" p "[]"] by (simp add: clean_elems_def push_elem_def)

lemma Clean_rooted: "Clean (CHR ''/'' # p) = CHR ''/'' # Join (clean_elems True p) ''/''"
  by (simp add: Clean_def)

lemma Clean_Clean_rooted: "Clean (Clean (CHR ''/'' # p)) = Clean (CHR ''/'' # p)"
  using clean_elems_plain [of _ p] by (simp add: Clean_rooted clean_elems_Join)

lemma Join_plain_ends:
  "cs \<noteq> [] \<Longrightarrow> \<forall>c \<in> set cs. plain_elem c \<Longrightarrow> Join cs ''/'' \<noteq> [] \<and> last (Join cs ''/'') \<noteq> CHR ''/''"
proof (induction cs "''/''" rule: Join.induct)
  case (2 x)
  then have "x \<noteq> []" "CHR ''/'' \<notin> set x" by (auto simp: plain_elem_def)
  then show ?case using last_in_set [of x] by (simp, metis)
next
  case (3 x y zs)
  then show ?case by simp
qed simp

text \<open>\<open>CleanURIPath\<close> by elements: a leading slash, the clean elements, the trailing slash.\<close>

lemma CleanURIPath_elems:
  "CleanURIPath p = CHR ''/'' # Join (clean_elems True p) ''/''
     @ (if p \<noteq> [] \<and> last p = CHR ''/'' \<and> clean_elems True p \<noteq> [] then ''/'' else [])"
proof (cases "p = []")
  case True
  then show ?thesis by (simp add: CleanURIPath_def clean_elems_def push_elem_def)
next
  case False
  define q where "q = (if hd p \<noteq> CHR ''/'' then CHR ''/'' # p else p)"
  have q: "clean_elems True q = clean_elems True p" "q \<noteq> []" "hd q = CHR ''/''" "last q = last p"
    using False by (auto simp: q_def)
  have "Join (clean_elems True p) ''/'' = [] \<longleftrightarrow> clean_elems True p = []"
    using Join_plain_ends [of "clean_elems True p"] clean_elems_plain by auto
  then show ?thesis
    using False q by (simp add: CleanURIPath_def Let_def q_def [symmetric] Clean_def)
qed

lemma clean_elems_CleanURIPath [simp]: "clean_elems True (CleanURIPath p) = clean_elems True p"
  using clean_elems_plain [of _ p] by (simp add: CleanURIPath_elems clean_elems_Join)

lemma CleanURIPath_idem: "CleanURIPath (CleanURIPath p) = CleanURIPath p"
proof -
  define cs where "cs = clean_elems True p"
  define q where "q = CleanURIPath p"
  have q: "q = CHR ''/'' # Join cs ''/'' @ (if p \<noteq> [] \<and> last p = CHR ''/'' \<and> cs \<noteq> [] then ''/'' else [])"
    by (simp add: q_def cs_def CleanURIPath_elems)
  have "last (CHR ''/'' # Join cs ''/'') = CHR ''/'' \<longleftrightarrow> cs = []"
    using Join_plain_ends [of cs] clean_elems_plain by (auto simp: cs_def)
  then have "q \<noteq> [] \<and> last q = CHR ''/'' \<and> cs \<noteq> [] \<longleftrightarrow> p \<noteq> [] \<and> last p = CHR ''/'' \<and> cs \<noteq> []"
    by (auto simp: q)
  moreover have "clean_elems True q = cs" by (simp add: q_def cs_def)
  ultimately have "CleanURIPath q = q" using CleanURIPath_elems [of q] q by simp
  then show ?thesis by (simp add: q_def)
qed

text \<open>
  Joining a clean directory and a path that starts with a slash: the result lies in the
  directory. \<open>dir_path root cs\<close> is the name of the entry \<open>cs\<close> below \<open>root\<close>.
\<close>

definition dir_path :: "string \<Rightarrow> string list \<Rightarrow> string" where
  "dir_path root cs =
     (if cs = [] then root else if root = ''/'' then CHR ''/'' # Join cs ''/'' else root @ ''/'' @ Join cs ''/'')"

lemma foldl_push_append_plain:
  assumes "\<forall>c \<in> set cs. plain_elem c"
  shows "foldl (push_elem r) [] (xs @ cs) = rev cs @ foldl (push_elem r) [] xs"
  using foldl_push_plain [OF assms] by simp

lemma clean_elems_append_plain:
  assumes "\<forall>c \<in> set cs. plain_elem c"
  shows "clean_elems r (a @ CHR ''/'' # Join cs ''/'') = clean_elems r a @ cs"
proof -
  have "foldl (push_elem r) st (Split (CHR ''/'') (Join cs ''/'')) = rev cs @ st" for st
  proof (cases "cs = []")
    case False
    then have "Split (CHR ''/'') (Join cs ''/'') = cs"
      using assms Split_Join [of cs "CHR ''/''"] by (auto simp: plain_elem_def)
    then show ?thesis using foldl_push_plain [OF assms] by simp
  qed (simp add: push_elem_def)
  then show ?thesis by (simp add: clean_elems_def Split_append)
qed

lemma Join_below_root:
  assumes "Clean root = root" "root \<noteq> ''.''"
  shows "path_Join [root, CleanURIPath p] = dir_path root (clean_elems True p)"
proof -
  define cs where "cs = clean_elems True p"
  have plain: "\<forall>c \<in> set cs. plain_elem c" using clean_elems_plain by (simp add: cs_def)
  have ne: "root \<noteq> []" using assms(1) by (auto simp: Clean_def)
  let ?j = "root @ CHR ''/'' # CleanURIPath p"
  have j: "clean_elems r ?j = clean_elems r root @ cs" for r
  proof -
    have *: "?j = (root @ CHR ''/'' # []) @ CHR ''/'' # Join cs ''/'' @ (if p \<noteq> [] \<and> last p = CHR ''/'' \<and> cs \<noteq> [] then ''/'' else [])"
      by (simp add: CleanURIPath_elems cs_def)
    have "clean_elems r ?j = clean_elems r ((root @ ''/'') @ CHR ''/'' # Join cs ''/'')"
      unfolding * using clean_elems_trailing [of r "(root @ ''/'') @ CHR ''/'' # Join cs ''/''"] by simp
    then show ?thesis using clean_elems_append_plain [OF plain, of r "root @ ''/''"] by simp
  qed
  have "path_Join [root, CleanURIPath p] = Clean ?j" using ne by (simp add: path_Join_def)
  moreover have "Clean ?j = dir_path root cs"
  proof (cases "hd root = CHR ''/''")
    case True
    then have root: "root = CHR ''/'' # Join (clean_elems True root) ''/''"
      using assms(1) ne by (simp add: Clean_def)
    have "Clean ?j = CHR ''/'' # Join (clean_elems True root @ cs) ''/''"
      using ne True by (simp add: Clean_def j)
    moreover have "root = ''/'' \<longleftrightarrow> clean_elems True root = []"
      using root Join_plain_ends [of "clean_elems True root"] clean_elems_plain by force
    ultimately show ?thesis using root Join_append [of "clean_elems True root" cs "''/''"]
      unfolding dir_path_def by (metis append_Cons append_Nil append_Nil2 Join.simps(1))
  next
    case False
    then have root: "root = Join (clean_elems False root) ''/''"
      using assms ne by (auto simp: Clean_def Let_def split: if_splits)
    then have "clean_elems False root \<noteq> []" using ne by auto
    then have "Join (clean_elems False root @ cs) ''/'' = dir_path root cs"
      using root False Join_append [of "clean_elems False root" cs "''/''"] by (auto simp: dir_path_def)
    then show ?thesis using ne False by (auto simp: Clean_def j Let_def dir_path_def split: if_splits)
  qed
  ultimately show ?thesis by (simp add: cs_def)
qed

lemma Join_plain_inject:
  assumes "\<forall>c \<in> set cs. plain_elem c" "\<forall>c \<in> set ds. plain_elem c" "Join cs ''/'' = Join ds ''/''"
  shows "cs = ds"
proof -
  have "cs = clean_elems True (Join cs ''/'')" by (rule clean_elems_Join [OF assms(1), symmetric])
  also have "\<dots> = ds" unfolding assms(3) by (rule clean_elems_Join [OF assms(2)])
  finally show ?thesis .
qed

lemma dir_path_inject:
  assumes "\<forall>c \<in> set cs. plain_elem c" "\<forall>c \<in> set ds. plain_elem c" "dir_path root cs = dir_path root ds"
  shows "cs = ds"
proof (cases "cs = [] \<or> ds = []")
  case True
  then show ?thesis
    using assms Join_plain_ends [of cs] Join_plain_ends [of ds] by (cases "root = ''/''") (simp_all add: dir_path_def split: if_splits)
next
  case False
  then have "Join cs ''/'' = Join ds ''/''" using assms(3) by (simp add: dir_path_def split: if_splits)
  then show ?thesis by (rule Join_plain_inject [OF assms(1,2)])
qed

lemma Join_entry: "path_Join [root, e] = path_Join [root, CHR ''/'' # e]" if "root \<noteq> []"
proof -
  have "clean_elems b (root @ CHR ''/'' # e) = clean_elems b (root @ CHR ''/'' # CHR ''/'' # e)" for b
    by (simp add: clean_elems_def Split_append push_elem_def)
  then show ?thesis using that by (simp add: path_Join_def Clean_def)
qed

section \<open>Stripping a prefix from a cleaned and from a raw path\<close>

text \<open>The prefix made of the elements \<open>P\<close>: a slash, and a slash after every element.\<close>

definition url_prefix :: "string list \<Rightarrow> string" where
  "url_prefix P = CHR ''/'' # concat (map (\<lambda>e. e @ ''/'') P)"

lemma Split_url_prefix:
  "\<forall>c \<in> set P. plain_elem c \<Longrightarrow> Split (CHR ''/'') (url_prefix P @ t) = [] # P @ Split (CHR ''/'') t"
proof -
  assume P: "\<forall>c \<in> set P. plain_elem c"
  then have "Split (CHR ''/'') (concat (map (\<lambda>e. e @ ''/'') P) @ t) = P @ Split (CHR ''/'') t"
    by (induction P) (auto simp: Split_append Split_no_sep_id plain_elem_def)
  then show ?thesis by (simp add: url_prefix_def)
qed

text \<open>Elements pushed on top of \<open>P\<close> may remove some of it, but otherwise go on top of what is left.\<close>

lemma foldl_push_above:
  assumes "\<forall>c \<in> set P. plain_elem c" "\<forall>c \<in> set xs. CHR ''/'' \<notin> set c"
  shows "\<exists>P'. prefix P' P \<and> foldl (push_elem True) (rev P) xs = foldl (push_elem True) [] xs @ rev P'"
  using assms(2)
proof (induction xs rule: rev_induct)
  case (snoc c xs)
  then obtain P' where P': "prefix P' P" "foldl (push_elem True) (rev P) xs = foldl (push_elem True) [] xs @ rev P'"
    by auto
  let ?st = "foldl (push_elem True) [] xs"
  have plain: "\<forall>x \<in> set ?st. plain_elem x" "\<forall>x \<in> set P'. plain_elem x"
    using foldl_push_rooted [of "[]" xs] snoc.prems assms(1) set_mono_prefix [OF P'(1)] by auto
  show ?case
  proof (cases "c = ''..'' \<and> ?st = []")
    case True
    have "push_elem True (rev P') ''..'' = rev (butlast P')"
      using plain(2) by (cases P' rule: rev_cases) (auto simp: push_elem_def plain_elem_def)
    moreover have "prefix (butlast P') P" using P'(1) prefix_order.trans prefixeq_butlast by blast
    moreover have "push_elem True [] ''..'' = []" by (simp add: push_elem_def)
    ultimately show ?thesis using True P' by (intro exI [of _ "butlast P'"]) simp
  next
    case False
    then have "push_elem True (?st @ rev P') c = push_elem True ?st c @ rev P'"
      using plain(1) by (cases ?st) (auto simp: push_elem_def plain_elem_def)
    then show ?thesis using P' by auto
  qed
qed (use assms in auto)

lemma clean_elems_below_prefix:
  assumes "\<forall>c \<in> set P. plain_elem c"
  shows "\<exists>P'. prefix P' P \<and> clean_elems True (url_prefix P @ t) = P' @ clean_elems True t"
proof -
  have "foldl (push_elem True) [] ([] # P @ Split (CHR ''/'') t) = foldl (push_elem True) (rev P) (Split (CHR ''/'') t)"
    using foldl_push_plain [OF assms, of True "[]"] by (simp add: push_elem_def)
  then show ?thesis
    using foldl_push_above [OF assms, of "Split (CHR ''/'') t"] Split_no_sep
    by (auto simp: clean_elems_def Split_url_prefix [OF assms])
qed

lemma clean_elems_url_prefix: "\<forall>c \<in> set P. plain_elem c \<Longrightarrow> clean_elems True (url_prefix P) = P"
  using Split_url_prefix [of P "[]"] foldl_push_plain [of P True "[]"] by (simp add: clean_elems_def push_elem_def)

lemma cleaned_below_prefix:
  assumes "\<forall>c \<in> set P. plain_elem c" "CleanURIPath p = url_prefix P @ t"
  shows "clean_elems True p = P @ clean_elems True t"
proof -
  define E where "E = clean_elems True p"
  have E: "\<forall>c \<in> set E. plain_elem c" using clean_elems_plain by (simp add: E_def)
  define e where "e = (if p \<noteq> [] \<and> last p = CHR ''/'' \<and> E \<noteq> [] then ''/'' else [])"
  have e: "CleanURIPath p = CHR ''/'' # Join E ''/'' @ e" "e = [] \<or> e = ''/'' \<and> E \<noteq> []"
    using CleanURIPath_elems [of p] unfolding E_def e_def by auto
  show ?thesis
  proof (cases "E = []")
    case True
    then have "url_prefix P @ t = ''/''" using e assms(2) by simp
    then have "P = []" "t = []" by (auto simp: url_prefix_def append_eq_Cons_conv)
    then show ?thesis using True by (simp add: E_def clean_elems_def push_elem_def)
  next
    case False
    then have "Split (CHR ''/'') (Join E ''/'') = E" using E Split_Join [of E "CHR ''/''"] by (auto simp: plain_elem_def)
    then have "Split (CHR ''/'') (CleanURIPath p) = [] # E @ (if e = [] then [] else [[]])"
      using e Split_append [of "CHR ''/''" "Join E ''/''" "[]"] by auto
    then have eq: "P @ Split (CHR ''/'') t = E @ (if e = [] then [] else [[]])"
      using Split_url_prefix [OF assms(1), of t] assms(2) by simp
    have "Split (CHR ''/'') t \<noteq> []" by (cases t) (auto split: list.split)
    then obtain F where F: "E = P @ F" "Split (CHR ''/'') t = F @ (if e = [] then [] else [[]])"
      using eq by (cases "e = []") (auto simp: append_eq_append_conv2 append_eq_Cons_conv Cons_eq_append_conv)
    have "clean_elems True t = F"
      using F E foldl_push_plain [of F True "[]"] by (simp add: clean_elems_def push_elem_def)
    then show ?thesis using F by (simp add: E_def)
  qed
qed

text \<open>
  The router strips the prefix from the cleaned path, the static file handler from the raw one.
  They may differ, by elements of the prefix at the front.
\<close>

lemma strip_raw_cleaned:
  assumes "\<forall>c \<in> set P. plain_elem c" "Match (url_prefix P) (CleanURIPath p)"
  defines "raw \<equiv> clean_elems True (TrimPrefix p (url_prefix P))"
    and "cleaned \<equiv> clean_elems True (TrimPrefix (CleanURIPath p) (url_prefix P))"
  shows "set raw \<subseteq> set P \<or> (\<exists>Q. set Q \<subseteq> set P \<and> raw = Q @ cleaned)"
proof -
  obtain P' where P': "prefix P' P" "clean_elems True p = P' @ raw"
  proof (cases "HasPrefix p (url_prefix P)")
    case True
    then obtain t where "p = url_prefix P @ t" by (auto simp: HasPrefix_iff)
    then show thesis using clean_elems_below_prefix [OF assms(1), of t] that by (auto simp: raw_def)
  next
    case False
    then show thesis using that [of "[]"] by (simp add: raw_def TrimPrefix_def)
  qed
  show ?thesis
  proof (cases "HasPrefix (CleanURIPath p) (url_prefix P)")
    case True
    then obtain t where t: "CleanURIPath p = url_prefix P @ t" by (auto simp: HasPrefix_iff)
    then have "P' @ raw = P @ cleaned"
      using cleaned_below_prefix [OF assms(1) t] P'(2) by (simp add: cleaned_def)
    then have "raw = drop (length P') P @ cleaned" using P'(1) by (auto simp: prefix_def)
    then show ?thesis using set_drop_subset by metis
  next
    case False
    then have "CleanURIPath p @ ''/'' = url_prefix P" using assms(2) by (auto simp: Match_def)
    then have "clean_elems True p = P"
      using clean_elems_trailing [of True "CleanURIPath p"] clean_elems_url_prefix [OF assms(1)] by simp
    then show ?thesis using P'(2) by auto
  qed
qed

end
