(* ===== verification/Zip_Artifacts.thy ===== *)
theory Zip_Artifacts
  imports Send_Data Form Paths
begin

text \<open>
  \<open>internal/zipartifacts\<close>, the programs \<open>gitlab-zip-cat\<close> and \<open>gitlab-zip-metadata\<close>, and \<open>internal/artifacts/entry.go\<close>,
  which runs the first of them to send one file of an archive.

  \<open>archive/zip\<close> is a parameter that gives the files of an archive; so are \<open>gzip\<close>, \<open>json.Marshal\<close>, the HTTP client
  and the table of MIME types. A program is a function from its arguments to what it writes to standard output
  and its exit status. Writing to standard output does not fail here.
\<close>

section \<open>Opening archives\<close>

record zip_file =
  zf_Name :: string
  zf_Modified :: int
  zf_Perm :: nat
  zf_CRC32 :: nat
  zf_UncompressedSize64 :: nat
  zf_CompressedSize64 :: nat
  zf_Comment :: string
  zf_Open :: "stream result"

definition StatusNotZip :: int where
  "StatusNotZip = 10"

definition StatusEntryNotFound :: int where
  "StatusEntryNotFound = 11"

definition DecodeFileEntry :: "string \<Rightarrow> string result" where
  "DecodeFileEntry entry =
     (case b64_decode False entry of None \<Rightarrow> Inl (Errorf ''illegal base64 data'') | Some decoded \<Rightarrow> Inr decoded)"

record zip_env =
  zip_parse :: "string \<Rightarrow> url result"
  zip_Do :: "url \<Rightarrow> http_response result"
  zip_NewReader :: "http_response \<Rightarrow> zip_file list result"
  zip_OpenReader :: "string \<Rightarrow> zip_file list result"
  zip_marshal :: "(int \<times> string \<times> nat \<times> nat \<times> nat \<times> string) \<Rightarrow> bytes result"
  zip_gzip :: "bytes \<Rightarrow> bytes"

definition isURL :: "string \<Rightarrow> bool" where
  "isURL path \<longleftrightarrow> HasPrefix path ''http://'' \<or> HasPrefix path ''https://''"

definition openHTTPArchive :: "zip_env \<Rightarrow> string \<Rightarrow> zip_file list result" where
  "openHTTPArchive env archivePath =
     (let scrubbedArchivePath = ScrubURLParams archivePath in
      case zip_parse env archivePath of
        Inl err \<Rightarrow> Inl (wrap_err (''Can't create HTTP GET '' @ Quote scrubbedArchivePath @ '': '') err)
      | Inr u \<Rightarrow>
          (case zip_Do env u of
             Inl err \<Rightarrow> Inl (wrap_err (''HTTP GET '' @ Quote scrubbedArchivePath @ '': '') err)
           | Inr resp \<Rightarrow>
               if rsp_StatusCode resp = 404 then Inl ErrArchiveNotFound
               else if rsp_StatusCode resp \<noteq> 200
               then Inl (Errorf (''HTTP GET '' @ Quote scrubbedArchivePath @ '': '' @ FormatInt (rsp_StatusCode resp) @ '': '' @ rsp_Status resp))
               else (case zip_NewReader env resp of Inl _ \<Rightarrow> Inl ErrNotAZip | Inr archive \<Rightarrow> Inr archive)))"

definition openFileArchive :: "zip_env \<Rightarrow> string \<Rightarrow> zip_file list result" where
  "openFileArchive env archivePath =
     (case zip_OpenReader env archivePath of
        Inl err \<Rightarrow> if err = ErrNotExist then Inl ErrArchiveNotFound else Inl ErrNotAZip
      | Inr archive \<Rightarrow> Inr archive)"

definition OpenArchive :: "zip_env \<Rightarrow> string \<Rightarrow> zip_file list result" where
  "OpenArchive env archivePath = (if isURL archivePath then openHTTPArchive env archivePath else openFileArchive env archivePath)"

section \<open>Metadata\<close>

record metadata =
  md_Modified :: int
  md_Mode :: string
  md_CRC :: nat
  md_Size :: nat
  md_Zipped :: nat
  md_Comment :: string

fun format_oct :: "nat \<Rightarrow> string" where
  "format_oct n = (if n < 8 then [char_of (48 + n)] else format_oct (n div 8) @ [char_of (48 + n mod 8)])"

declare format_oct.simps [simp del]

definition newMetadata :: "zip_file option \<Rightarrow> metadata" where
  "newMetadata f =
     (case f of
        None \<Rightarrow> \<lparr>md_Modified = 0, md_Mode = [], md_CRC = 0, md_Size = 0, md_Zipped = 0, md_Comment = []\<rparr>
      | Some f \<Rightarrow> \<lparr>md_Modified = zf_Modified f, md_Mode = format_oct (zf_Perm f), md_CRC = zf_CRC32 f,
          md_Size = zf_UncompressedSize64 f, md_Zipped = zf_CompressedSize64 f, md_Comment = zf_Comment f\<rparr>)"

text \<open>\<open>binary.Write\<close> of a \<open>uint32\<close>, big endian.\<close>

definition be32 :: "nat \<Rightarrow> bytes" where
  "be32 n = [char_of (n div 16777216 mod 256), char_of (n div 65536 mod 256), char_of (n div 256 mod 256), char_of (n mod 256)]"

definition writeBytes :: "bytes \<Rightarrow> bytes" where
  "writeBytes data = be32 (length data mod 2 ^ 32) @ data"

definition writeEncoded :: "zip_env \<Rightarrow> metadata \<Rightarrow> bytes result" where
  "writeEncoded env m =
     (case zip_marshal env (md_Modified m, md_Mode m, md_CRC m, md_Size m, md_Zipped m, md_Comment m) of
        Inl err \<Rightarrow> Inl err
      | Inr j \<Rightarrow> Inr (writeBytes (j @ [CHR 0x0A])))"

definition writeZipEntryMetadata :: "zip_env \<Rightarrow> string \<Rightarrow> zip_file option \<Rightarrow> bytes result" where
  "writeZipEntryMetadata env path entry =
     (case writeEncoded env (newMetadata entry) of
        Inl err \<Rightarrow> Inl err
      | Inr b \<Rightarrow> Inr (writeBytes path @ b))"

definition MetadataHeader :: string where
  "MetadataHeader = ''GitLab Build Artifacts Metadata 0.0.2'' @ [CHR 0x0A]"

text \<open>
  The directories above an entry: \<open>path.Dir\<close> again and again until it is \<open>.\<close> or \<open>/\<close>. That this ends is not
  obvious, since \<open>path.Dir\<close> cleans its result; a cleaned path is never longer.
\<close>

definition elem_weight :: "string list \<Rightarrow> nat" where
  "elem_weight es = sum_list (map (\<lambda>e. if e = [] then 0 else Suc (length e)) es)"

lemma elem_weight_push: "elem_weight (push_elem r st c) \<le> elem_weight st + elem_weight [c]"
  by (auto simp: push_elem_def elem_weight_def split: list.split)

lemma elem_weight_foldl: "elem_weight (foldl (push_elem r) st cs) \<le> elem_weight st + elem_weight cs"
proof (induction cs arbitrary: st)
  case (Cons c cs)
  have "elem_weight (c # cs) = elem_weight [c] + elem_weight cs" by (simp add: elem_weight_def)
  then show ?case using Cons [of "push_elem r st c"] elem_weight_push [of r st c] by simp
qed simp

lemma elem_weight_Split: "elem_weight (Split c p) \<le> Suc (length p)"
proof -
  have "sum_list (map (\<lambda>e. Suc (length e)) (Split c p)) = Suc (length p)"
    by (induction p) (auto split: list.split)
  moreover have "elem_weight es \<le> sum_list (map (\<lambda>e. Suc (length e)) es)" for es
    unfolding elem_weight_def by (rule sum_list_mono) simp
  ultimately show ?thesis by metis
qed

lemma push_elem_ne: "[] \<notin> set st \<Longrightarrow> [] \<notin> set (push_elem r st c)"
  by (auto simp: push_elem_def split: list.splits if_splits)

lemma foldl_push_ne: "[] \<notin> set st \<Longrightarrow> [] \<notin> set (foldl (push_elem r) st cs)"
proof (induction cs arbitrary: st)
  case (Cons c cs)
  then show ?case using push_elem_ne [of st r c] by simp
qed simp

lemma length_Join: "[] \<notin> set cs \<Longrightarrow> length (Join cs ''/'') = elem_weight cs - 1"
  by (induction cs "''/''" rule: Join.induct) (auto simp: elem_weight_def)

lemma clean_elems_weight:
  "elem_weight (clean_elems r p) \<le> elem_weight (Split (CHR ''/'') p)" "[] \<notin> set (clean_elems r p)"
proof -
  have "elem_weight (rev es) = elem_weight es" for es by (simp add: elem_weight_def rev_map [symmetric])
  then show "elem_weight (clean_elems r p) \<le> elem_weight (Split (CHR ''/'') p)"
    using elem_weight_foldl [of r "[]" "Split (CHR ''/'') p"] by (simp add: clean_elems_def elem_weight_def [of "[]"])
  show "[] \<notin> set (clean_elems r p)" using foldl_push_ne [of "[]" r] by (simp add: clean_elems_def)
qed

lemma Clean_shorter: "Clean (q @ ''/'') = ''/'' \<or> Clean (q @ ''/'') = ''.'' \<or> length (Clean (q @ ''/'')) \<le> length q"
proof -
  let ?p = "q @ ''/''"
  have split: "elem_weight (Split (CHR ''/'') ?p) = elem_weight (Split (CHR ''/'') q)"
    using Split_append [of "CHR ''/''" q "[]"] by (simp add: elem_weight_def)
  show ?thesis
  proof (cases "q = [] \<or> hd q = CHR ''/''")
    case True
    show ?thesis
    proof (cases q)
      case (Cons c t)
      then have "elem_weight (Split (CHR ''/'') q) \<le> Suc (length t)"
        using True elem_weight_Split [of "CHR ''/''" t] by (simp add: elem_weight_def)
      then show ?thesis using True Cons clean_elems_weight [of True ?p] split
        by (auto simp: Clean_def length_Join)
    qed (simp add: Clean_def clean_elems_def push_elem_def)
  next
    case False
    then show ?thesis
      using elem_weight_Split [of "CHR ''/''" q] clean_elems_weight [of False ?p] split
      by (auto simp: Clean_def Let_def length_Join)
  qed
qed

lemma path_Dir_shorter: "path_Dir d = ''/'' \<or> path_Dir d = ''.'' \<or> length (path_Dir d) < length d"
proof -
  let ?p = "dropWhile (\<lambda>c. c \<noteq> CHR ''/'') (rev d)"
  show ?thesis
  proof (cases ?p)
    case Nil
    then show ?thesis by (simp add: path_Dir_def Clean_def)
  next
    case (Cons c t)
    then have "c = CHR ''/''" using hd_dropWhile [of "\<lambda>c. c \<noteq> CHR ''/''" "rev d"] by auto
    moreover have "length ?p \<le> length d" using length_dropWhile_le [of "\<lambda>c. c \<noteq> CHR ''/''" "rev d"] by simp
    ultimately show ?thesis using Clean_shorter [of "rev t"] Cons by (auto simp: path_Dir_def)
  qed
qed

function parent_dirs :: "string \<Rightarrow> string list" where
  "parent_dirs d = (if d \<noteq> ''.'' \<and> d \<noteq> ''/'' then d # parent_dirs (path_Dir d) else [])"
  by auto

termination
proof (relation "measure (\<lambda>d. if d = ''.'' \<or> d = ''/'' then 0 else Suc (length d))")
  fix d
  assume "d \<noteq> ''.'' \<and> d \<noteq> ''/''"
  then show "(path_Dir d, d) \<in> measure (\<lambda>d. if d = ''.'' \<or> d = ''/'' then 0 else Suc (length d))"
    using path_Dir_shorter [of d] by auto
qed simp

declare parent_dirs.simps [simp del]

type_synonym zip_map = "(string \<times> zip_file option) list"

definition add_dir :: "zip_map \<Rightarrow> string \<Rightarrow> zip_map" where
  "add_dir m d = (let entryDir = d @ ''/'' in if map_of m entryDir = None then AList.update entryDir None m else m)"

definition add_entry :: "zip_map \<Rightarrow> zip_file \<Rightarrow> zip_map" where
  "add_entry m entry = foldl add_dir (AList.update (zf_Name entry) (Some entry) m) (parent_dirs (path_Dir (zf_Name entry)))"

definition byte_order :: "string \<Rightarrow> nat list" where
  "byte_order s = map of_char s"

fun write_entries :: "zip_env \<Rightarrow> zip_map \<Rightarrow> string list \<Rightarrow> bytes result" where
  "write_entries env m [] = Inr []"
| "write_entries env m (p # ps) =
     (case writeZipEntryMetadata env p (case map_of m p of Some e \<Rightarrow> e | None \<Rightarrow> None) of
        Inl err \<Rightarrow> Inl err
      | Inr b \<Rightarrow> (case write_entries env m ps of Inl err \<Rightarrow> Inl err | Inr bs \<Rightarrow> Inr (b @ bs)))"

definition zip_map_of :: "zip_file list \<Rightarrow> zip_map" where
  "zip_map_of archive = foldl add_entry [] archive"

definition sortedPaths :: "zip_map \<Rightarrow> string list" where
  "sortedPaths m = sort_key byte_order (map fst m)"

text \<open>What is compressed and written before an error is lost with the process.\<close>

definition GenerateZipMetadata :: "zip_env \<Rightarrow> zip_file list \<Rightarrow> bytes result" where
  "GenerateZipMetadata env archive =
     (let zipMap = zip_map_of archive in
      case write_entries env zipMap (sortedPaths zipMap) of
        Inl err \<Rightarrow> Inl err
      | Inr bs \<Rightarrow> Inr (zip_gzip env (writeBytes MetadataHeader @ writeBytes ''{}'' @ bs)))"

section \<open>The programs\<close>

text \<open>\<open>gitlab-zip-metadata FILE.ZIP\<close>: standard output and exit status.\<close>

definition zip_metadata_main :: "zip_env \<Rightarrow> string list \<Rightarrow> bytes \<times> int" where
  "zip_metadata_main env args =
     (if length args \<noteq> 1 then ([], 1)
      else case OpenArchive env (hd args) of
        Inl err \<Rightarrow> ([], if err = ErrNotAZip then StatusNotZip else 1)
      | Inr archive \<Rightarrow>
          (case GenerateZipMetadata env archive of
             Inl err \<Rightarrow> ([], if err = ErrNotAZip then StatusNotZip else 1)
           | Inr out \<Rightarrow> (out, 0)))"

definition findFileInZip :: "string \<Rightarrow> zip_file list \<Rightarrow> zip_file option" where
  "findFileInZip fileName archive = List.find (\<lambda>f. zf_Name f = fileName) archive"

definition zip_cat_main :: "zip_env \<Rightarrow> string list \<Rightarrow> string \<Rightarrow> string \<Rightarrow> bytes \<times> int" where
  "zip_cat_main env args archivePath encodedFileName =
     (if args \<noteq> [] \<or> archivePath = [] \<or> encodedFileName = [] then ([], 1)
      else case DecodeFileEntry encodedFileName of
        Inl err \<Rightarrow> ([], 1)
      | Inr fileName \<Rightarrow>
          (case OpenArchive env archivePath of
             Inl err \<Rightarrow> ([], if err = ErrArchiveNotFound then StatusEntryNotFound else 1)
           | Inr archive \<Rightarrow>
               (case findFileInZip fileName archive of
                  None \<Rightarrow> ([], StatusEntryNotFound)
                | Some f \<Rightarrow>
                    (case zf_Open f of
                       Inl err \<Rightarrow> ([], 1)
                     | Inr reader \<Rightarrow>
                         (format_nat (zf_UncompressedSize64 f) @ [CHR 0x0A] @ stream_bytes reader,
                          if snd reader = None then 0 else 1)))))"

section \<open>Sending one entry\<close>

definition escapeQuotes :: "string \<Rightarrow> string" where
  "escapeQuotes s = concat (map (\<lambda>c. if c = CHR 0x5C \<or> c = CHR 0x22 then [CHR 0x5C, c] else [c]) s)"

definition filepath_Ext :: "string \<Rightarrow> string" where
  "filepath_Ext p =
     (let e = takeWhile (\<lambda>c. c \<noteq> CHR ''/'') (rev p)
      in if CHR ''.'' \<in> set e then CHR ''.'' # rev (takeWhile (\<lambda>c. c \<noteq> CHR ''.'') e) else [])"

definition detectFileContentType :: "(string \<Rightarrow> string) \<Rightarrow> string \<Rightarrow> string" where
  "detectFileContentType typeByExtension fileName =
     (let contentType = typeByExtension (filepath_Ext fileName)
      in if contentType = [] then ''application/octet-stream'' else contentType)"

definition waitCatFile :: "int \<Rightarrow> gerror option" where
  "waitCatFile status =
     (if status = 0 then None
      else if status = StatusEntryNotFound then Some ErrNotExist
      else Some (wrap_err ''wait for [gitlab-zip-cat] to finish: '' (ExitError status)))"

text \<open>\<open>cat\<close> runs \<open>gitlab-zip-cat\<close> with the two environment variables; it fails if the program does not start.\<close>

definition unpackFileFromZip :: "(string \<Rightarrow> string \<Rightarrow> (bytes \<times> int) result) \<Rightarrow> (string \<Rightarrow> string) \<Rightarrow> 's writer \<Rightarrow>
    string \<Rightarrow> string \<Rightarrow> 's \<Rightarrow> 's \<times> gerror option" where
  "unpackFileFromZip cat typeByExtension w archivePath encodedFilename s =
     (case DecodeFileEntry encodedFilename of
        Inl err \<Rightarrow> (s, Some err)
      | Inr fileName \<Rightarrow>
          (case cat archivePath encodedFilename of
             Inl err \<Rightarrow> (s, Some (wrap_err ''start [gitlab-zip-cat]: '' err))
           | Inr (stdout, status) \<Rightarrow>
               let basename = path_Base fileName in
               if CHR 0x0A \<notin> set stdout
               then (s, case waitCatFile status of Some err \<Rightarrow> Some err | None \<Rightarrow> Some (wrap_err ''read content-length: '' EOF))
               else
                 let contentLength = takeWhile (\<lambda>c. c \<noteq> CHR 0x0A) stdout;
                     body = drop (Suc (length contentLength)) stdout;
                     s = w_Set w ''Content-Length'' contentLength s;
                     s = w_Set w ''Content-Type'' (detectFileContentType typeByExtension fileName) s;
                     s = w_Set w ''Content-Disposition'' (''attachment; filename='' @ [CHR 0x22] @ escapeQuotes basename @ [CHR 0x22]) s;
                     (s, _, err) = io_Copy w (fst (reader_of body)) None s
                 in (case err of
                       Some err \<Rightarrow> (s, Some (wrap_err ''copy stdout of [gitlab-zip-cat]: '' err))
                     | None \<Rightarrow> (s, waitCatFile status))))"

definition entry_Inject :: "(bytes \<Rightarrow> (string \<times> string) result) \<Rightarrow> (string \<Rightarrow> string \<Rightarrow> (bytes \<times> int) result) \<Rightarrow> (string \<Rightarrow> string) \<Rightarrow>
    's writer \<Rightarrow> request \<Rightarrow> string \<Rightarrow> 's \<Rightarrow> 's" where
  "entry_Inject unmarshal cat typeByExtension w r sendData s =
     (case Unpack unmarshal ''artifacts-entry:'' sendData of
        Inl err \<Rightarrow> Fail500 w s
      | Inr (Archive, Entry) \<Rightarrow>
          if Archive = [] \<or> Entry = [] then Fail500 w s
          else (case unpackFileFromZip cat typeByExtension w Archive Entry s of
             (s, err) \<Rightarrow>
               if err = Some ErrNotExist then http_NotFound w s
               else if err \<noteq> None then Fail500 w s
               else s))"

section \<open>Lemmas on metadata\<close>

definition from_be32 :: "bytes \<Rightarrow> nat" where
  "from_be32 b = ((of_char (b ! 0) * 256 + of_char (b ! 1)) * 256 + of_char (b ! 2)) * 256 + of_char (b ! 3)"

text \<open>Reading a metadata file: strings with their lengths in front.\<close>

function parse_frames :: "bytes \<Rightarrow> bytes list" where
  "parse_frames b =
     (if length b < 4 then []
      else let n = from_be32 b in take n (drop 4 b) # parse_frames (drop (4 + n) b))"
  by auto

termination by (relation "measure length") auto

declare parse_frames.simps [simp del]

lemma from_be32_be32: "n < 2 ^ 32 \<Longrightarrow> from_be32 (be32 n @ b) = n"
proof -
  assume n: "n < 2 ^ 32"
  have "n div 16777216 mod 256 = n div 16777216" using n by (simp add: less_mult_imp_div_less)
  moreover have "n div 16777216 * 256 + n div 65536 mod 256 = n div 65536"
    using div_mult_mod_eq [of "n div 65536" 256] by (simp add: div_mult2_eq [of n 65536 256, simplified])
  moreover have "n div 65536 * 256 + n div 256 mod 256 = n div 256"
    using div_mult_mod_eq [of "n div 256" 256] by (simp add: div_mult2_eq [of n 256 256, simplified])
  ultimately show ?thesis by (simp add: from_be32_def be32_def)
qed

lemma parse_frames_write: "length d < 2 ^ 32 \<Longrightarrow> parse_frames (writeBytes d @ b) = d # parse_frames b"
  by (subst parse_frames.simps) (simp add: writeBytes_def from_be32_be32 Let_def, simp add: be32_def)

lemma parse_frames_concat: "\<forall>d \<in> set ds. length d < 2 ^ 32 \<Longrightarrow> parse_frames (concat (map writeBytes ds)) = ds"
  by (induction ds) (simp_all add: parse_frames_write, simp add: parse_frames.simps)

definition entry_fields :: "zip_map \<Rightarrow> string \<Rightarrow> int \<times> string \<times> nat \<times> nat \<times> nat \<times> string" where
  "entry_fields m p = (let md = newMetadata (case map_of m p of Some e \<Rightarrow> e | None \<Rightarrow> None)
     in (md_Modified md, md_Mode md, md_CRC md, md_Size md, md_Zipped md, md_Comment md))"

lemma write_entries_frames:
  assumes "write_entries env m ps = Inr bs"
  obtains js where "length js = length ps" "list_all2 (\<lambda>p j. zip_marshal env (entry_fields m p) = Inr j) ps js"
    "bs = concat (map writeBytes (concat (map (\<lambda>(p, j). [p, j @ [CHR 0x0A]]) (zip ps js))))"
  using assms
proof (induction ps arbitrary: bs thesis)
  case (Cons p ps)
  obtain j bs' where j: "zip_marshal env (entry_fields m p) = Inr j" "write_entries env m ps = Inr bs'"
    "bs = (writeBytes p @ writeBytes (j @ [CHR 0x0A])) @ bs'"
    using Cons.prems(2)
    by (auto simp: writeZipEntryMetadata_def writeEncoded_def entry_fields_def Let_def split: sum.splits)
  obtain js where js: "length js = length ps" "list_all2 (\<lambda>p j. zip_marshal env (entry_fields m p) = Inr j) ps js"
    "bs' = concat (map writeBytes (concat (map (\<lambda>(p, j). [p, j @ [CHR 0x0A]]) (zip ps js))))"
    using Cons.IH j(2) by blast
  show ?case using Cons.prems(1) [of "j # js"] j js by simp
qed simp

lemma keys_update: "fst ` set (AList.update k v m) = insert k (fst ` set m)"
  using dom_update [of k v m] by simp

lemma add_dirs_keys: "fst ` set (foldl add_dir m ds) = fst ` set m \<union> (\<lambda>d. d @ ''/'') ` set ds"
proof (induction ds arbitrary: m)
  case (Cons d ds)
  have "fst ` set (add_dir m d) = insert (d @ ''/'') (fst ` set m)"
    by (auto simp: add_dir_def Let_def keys_update map_of_eq_None_iff image_iff)
  then show ?case using Cons [of "add_dir m d"] by simp
qed simp

lemma add_entry_keys:
  "fst ` set (add_entry m f) = insert (zf_Name f) (fst ` set m \<union> (\<lambda>d. d @ ''/'') ` set (parent_dirs (path_Dir (zf_Name f))))"
  by (simp add: add_entry_def add_dirs_keys keys_update)

lemma add_dir_distinct: "distinct (map fst m) \<Longrightarrow> distinct (map fst (add_dir m d))"
  by (simp add: add_dir_def Let_def distinct_update)

lemma add_entry_distinct: "distinct (map fst m) \<Longrightarrow> distinct (map fst (add_entry m f))"
proof -
  have "distinct (map fst m) \<Longrightarrow> distinct (map fst (foldl add_dir m ds))" for m ds
    by (induction ds arbitrary: m) (simp_all add: add_dir_distinct)
  then show "distinct (map fst m) \<Longrightarrow> ?thesis" by (simp add: add_entry_def distinct_update)
qed

lemma map_of_add_dirs:
  "map_of (foldl add_dir m ds) p = (case map_of m p of Some e \<Rightarrow> Some e | None \<Rightarrow> if p \<in> (\<lambda>d. d @ ''/'') ` set ds then Some None else None)"
proof (induction ds arbitrary: m)
  case (Cons d ds)
  have "map_of (add_dir m d) p = (if p = d @ ''/'' \<and> map_of m p = None then Some None else map_of m p)"
    by (auto simp: add_dir_def Let_def update_conv')
  then show ?case using Cons [of "add_dir m d"] by (auto split: option.splits)
qed (simp split: option.split)

definition zip_dirs :: "zip_file list \<Rightarrow> string set" where
  "zip_dirs archive = {d @ ''/'' | d f. f \<in> set archive \<and> d \<in> set (parent_dirs (path_Dir (zf_Name f)))}"

lemma zip_map_of_snoc: "zip_map_of (archive @ [f]) = add_entry (zip_map_of archive) f"
  by (simp add: zip_map_of_def)

lemma zip_map_of_facts:
  "distinct (map fst (zip_map_of archive)) \<and> fst ` set (zip_map_of archive) = zf_Name ` set archive \<union> zip_dirs archive \<and>
   map_of (zip_map_of archive) p = (case List.find (\<lambda>f. zf_Name f = p) (rev archive) of Some f \<Rightarrow> Some (Some f)
     | None \<Rightarrow> if p \<in> zip_dirs archive then Some None else None)"
proof (induction archive rule: rev_induct)
  case Nil
  then show ?case by (simp add: zip_map_of_def zip_dirs_def)
next
  case (snoc f archive)
  let ?ds = "(\<lambda>d. d @ ''/'') ` set (parent_dirs (path_Dir (zf_Name f)))"
  have dirs: "zip_dirs (archive @ [f]) = zip_dirs archive \<union> ?ds" by (auto simp: zip_dirs_def)
  have "map_of (add_entry (zip_map_of archive) f) p =
      (if p = zf_Name f then Some (Some f) else case map_of (zip_map_of archive) p of Some e \<Rightarrow> Some e
       | None \<Rightarrow> if p \<in> ?ds then Some None else None)"
    by (simp add: add_entry_def map_of_add_dirs update_conv' split: option.split)
  then show ?case using snoc
    by (auto simp: zip_map_of_snoc add_entry_keys add_entry_distinct dirs split: option.splits)
qed

section \<open>Properties\<close>

text \<open>C32. The metadata of an archive can be read back: decompressed and cut at the length prefixes, the stream is the
  header, an empty error object, and then every path with its JSON. The paths are sorted and distinct; they are
  the entries of the archive and all directories above them, whether or not the archive has an
  entry for the directory. A path with several entries is described by the last.\<close>

theorem metadata_roundtrip:
  assumes "GenerateZipMetadata env archive = Inr out" "\<forall>b. gunzip (zip_gzip env b) = b"
    and "\<forall>p \<in> zf_Name ` set archive \<union> zip_dirs archive. length p < 2 ^ 32"
    and "\<forall>x j. zip_marshal env x = Inr j \<longrightarrow> length j + 1 < 2 ^ 32"
  shows "\<exists>entries. parse_frames (gunzip out) = MetadataHeader # ''{}'' # concat (map (\<lambda>(p, j). [p, j @ [CHR 0x0A]]) entries) \<and>
    sorted (map (byte_order \<circ> fst) entries) \<and> distinct (map fst entries) \<and>
    fst ` set entries = zf_Name ` set archive \<union> zip_dirs archive \<and>
    (\<forall>(p, j) \<in> set entries. \<exists>md. md = newMetadata (List.find (\<lambda>f. zf_Name f = p) (rev archive)) \<and>
       zip_marshal env (md_Modified md, md_Mode md, md_CRC md, md_Size md, md_Zipped md, md_Comment md) = Inr j)"
proof -
  let ?m = "zip_map_of archive"
  let ?ps = "sortedPaths ?m"
  obtain bs where bs: "write_entries env ?m ?ps = Inr bs" "out = zip_gzip env (writeBytes MetadataHeader @ writeBytes ''{}'' @ bs)"
    using assms(1) by (auto simp: GenerateZipMetadata_def Let_def split: sum.splits)
  obtain js where js: "length js = length ?ps" "list_all2 (\<lambda>p j. zip_marshal env (entry_fields ?m p) = Inr j) ?ps js"
    "bs = concat (map writeBytes (concat (map (\<lambda>(p, j). [p, j @ [CHR 0x0A]]) (zip ?ps js))))"
    using write_entries_frames [OF bs(1)] by blast
  let ?fs = "concat (map (\<lambda>(p, j). [p, j @ [CHR 0x0A]]) (zip ?ps js))"
  have facts: "distinct (map fst ?m)" "fst ` set ?m = zf_Name ` set archive \<union> zip_dirs archive"
    using zip_map_of_facts [of archive] by auto
  have ps: "set ?ps = zf_Name ` set archive \<union> zip_dirs archive" "distinct ?ps" "sorted (map byte_order ?ps)"
    using facts by (simp_all add: sortedPaths_def)
  have marshal: "zip_marshal env (entry_fields ?m p) = Inr j" "p \<in> set ?ps" if "(p, j) \<in> set (zip ?ps js)" for p j
    using js(2) that set_zip_leftD [OF that] by (auto simp: list_all2_iff)
  have "length p < 2 ^ 32" "length (j @ [CHR 0x0A]) < 2 ^ 32" if "(p, j) \<in> set (zip ?ps js)" for p j
    using bspec [OF assms(3), of p] assms(4) [rule_format, OF marshal(1) [OF that]] marshal(2) [OF that] ps(1) by simp_all
  then have "\<forall>d \<in> set (MetadataHeader # ''{}'' # ?fs). length d < 2 ^ 32"
    by (fastforce simp: MetadataHeader_def)
  then have frames: "parse_frames (gunzip out) = MetadataHeader # ''{}'' # ?fs"
    using parse_frames_concat [of "MetadataHeader # ''{}'' # ?fs"] assms(2) by (simp add: bs(2) js(3))
  have fst: "map fst (zip ?ps js) = ?ps" using js(1) by simp
  have sorted: "sorted (map (byte_order \<circ> fst) (zip ?ps js))"
    using ps(3) unfolding map_map [symmetric] fst .
  have keys: "fst ` set (zip ?ps js) = zf_Name ` set archive \<union> zip_dirs archive"
    using ps(1) arg_cong [OF fst, of set] by (simp only: set_map)
  have json: "\<exists>md. md = newMetadata (List.find (\<lambda>f. zf_Name f = p) (rev archive)) \<and>
      zip_marshal env (md_Modified md, md_Mode md, md_CRC md, md_Size md, md_Zipped md, md_Comment md) = Inr j"
    if "(p, j) \<in> set (zip ?ps js)" for p j
  proof -
    have "(case map_of ?m p of Some e \<Rightarrow> e | None \<Rightarrow> None) = List.find (\<lambda>f. zf_Name f = p) (rev archive)"
      using zip_map_of_facts [of archive p] by (auto split: option.splits)
    then show ?thesis using marshal(1) [OF that] by (simp add: entry_fields_def Let_def)
  qed
  show ?thesis
  proof (intro exI [of _ "zip ?ps js"] conjI)
    show "distinct (map fst (zip ?ps js))" unfolding fst by (rule ps(2))
    show "\<forall>(p, j) \<in> set (zip ?ps js). \<exists>md. md = newMetadata (List.find (\<lambda>f. zf_Name f = p) (rev archive)) \<and>
       zip_marshal env (md_Modified md, md_Mode md, md_CRC md, md_Size md, md_Zipped md, md_Comment md) = Inr j"
      using json by blast
  qed (fact frames sorted keys)+
qed

lemma path_Dir_funpow: "\<exists>n \<le> Suc (length d). (path_Dir ^^ n) d \<in> {''.'', ''/''}"
proof (induction "length d" arbitrary: d rule: less_induct)
  case less
  consider "path_Dir d \<in> {''.'', ''/''}" | "length (path_Dir d) < length d" using path_Dir_shorter [of d] by auto
  then show ?case
  proof cases
    case 1
    then show ?thesis by (intro exI [of _ 1]) simp
  next
    case 2
    with less [of "path_Dir d"] obtain n where "n \<le> Suc (length (path_Dir d))" "(path_Dir ^^ n) (path_Dir d) \<in> {''.'', ''/''}" by blast
    with 2 show ?thesis by (intro exI [of _ "Suc n"]) (simp only: funpow_Suc_right comp_apply, simp)
  qed
qed


definition sample_zip :: zip_env where
  "sample_zip = \<lparr>zip_parse = (\<lambda>_. Inl EOF), zip_Do = (\<lambda>_. Inl EOF), zip_NewReader = (\<lambda>_. Inl EOF),
     zip_OpenReader = (\<lambda>p. if p = ''/a.zip''
       then Inr [\<lparr>zf_Name = ''d/f.txt'', zf_Modified = 0, zf_Perm = 420, zf_CRC32 = 0, zf_UncompressedSize64 = 2,
                   zf_CompressedSize64 = 2, zf_Comment = [], zf_Open = Inr (reader_of ''hi'')\<rparr>]
       else Inl ErrNotExist),
     zip_marshal = (\<lambda>_. Inr ''{}''), zip_gzip = (\<lambda>b. b)\<rparr>"

theorem metadata_roundtrip_witness:
  "\<exists>out entries. GenerateZipMetadata sample_zip [\<lparr>zf_Name = ''f'', zf_Modified = 0, zf_Perm = 420, zf_CRC32 = 0, zf_UncompressedSize64 = 2,
      zf_CompressedSize64 = 2, zf_Comment = [], zf_Open = Inl EOF\<rparr>] = Inr out \<and>
    parse_frames out = MetadataHeader # ''{}'' # concat (map (\<lambda>(p, j). [p, j @ [CHR 0x0A]]) entries) \<and> fst ` set entries = {''f''}"
proof -
  let ?fs = "[\<lparr>zf_Name = ''f'', zf_Modified = 0, zf_Perm = 420, zf_CRC32 = 0, zf_UncompressedSize64 = 2,
      zf_CompressedSize64 = 2, zf_Comment = [], zf_Open = Inl EOF\<rparr>]"
  have "path_Dir ''f'' = ''.''" by code_simp
  moreover have "parent_dirs ''.'' = []" by (subst parent_dirs.simps) simp
  ultimately have dirs: "zip_dirs ?fs = {}" by (simp add: zip_dirs_def)
  have "\<exists>b. writeZipEntryMetadata sample_zip p e = Inr b" for p e
    by (simp add: writeZipEntryMetadata_def writeEncoded_def sample_zip_def)
  then have "\<exists>bs. write_entries sample_zip m ps = Inr bs" for m ps
    by (induction ps) (simp_all split: sum.split, metis sum.distinct(1))
  then obtain out where out: "GenerateZipMetadata sample_zip ?fs = Inr out"
    unfolding GenerateZipMetadata_def Let_def by (metis sum.simps(6))
  have "\<forall>b. id (zip_gzip sample_zip b) = b" "\<forall>p \<in> zf_Name ` set ?fs \<union> zip_dirs ?fs. length p < 2 ^ 32"
    "\<forall>x j. zip_marshal sample_zip x = Inr j \<longrightarrow> length j + 1 < 2 ^ 32"
    by (simp_all add: dirs) (simp_all add: sample_zip_def)
  from metadata_roundtrip [OF out this] out show ?thesis unfolding dirs by auto
qed

lemma zip_cat_line:
  "takeWhile (\<lambda>c. c \<noteq> CHR 0x0A) (format_nat n @ CHR 0x0A # b) = format_nat n"
proof -
  have "CHR 0x0A \<notin> set (format_nat n)" using format_nat_digits [of "CHR 0x0A" n] by (auto simp: is_digit_def)
  then show ?thesis by (subst takeWhile_append2) auto
qed

lemma net_copy_started:
  assumes "n_out s = no_response" "n_room s = None"
  shows "io_Copy net_writer (fst (reader_of b)) None s = (s', k, e) \<Longrightarrow> e = None \<and>
    n_out (net_WriteHeader 200 s') = \<lparr>o_status = 200, o_header = n_header s, o_body = b\<rparr>"
  using assms by (auto simp: reader_of_def net_writer_def net_Write_def net_WriteHeader_def no_response_def Let_def split: if_splits)



end
