(* ===== verification/Artifacts.thy ===== *)
theory Artifacts
  imports Upload Zip_Artifacts
begin

text \<open>
  \<open>internal/artifacts/artifacts_upload.go\<close>: the processor of multipart forms that carry build artifacts. Beside the
  archive it stores its metadata, which \<open>gitlab-zip-metadata\<close> extracts; \<open>art_start\<close> runs that program, or fails if it
  does not start. The goroutine that saves what the program writes is joined when the program ends well;
  otherwise its result is dropped, but the file it saves remains.
\<close>

record artifacts_env =
  art_TempDir :: string
  art_start :: "string \<Rightarrow> (bytes \<times> int) result"
  art_ctx_done :: bool

definition metaOpts :: "artifacts_env \<Rightarrow> SaveFileOpts \<Rightarrow> SaveFileOpts" where
  "metaOpts aenv opts =
     \<lparr>TempFilePrefix = ''metadata.gz'', LocalTempPath = (if LocalTempPath opts = [] then art_TempDir aenv else LocalTempPath opts),
      opt_RemoteID = [], opt_RemoteURL = [], PresignedPut = [], PresignedDelete = [], PutHeaders = [], Deadline = 0, PartSize = 0,
      PresignedParts = [], PresignedCompleteMultipart = [], PresignedAbortMultipart = []\<rparr>"

definition generateMetadataFromZip :: "artifacts_env \<Rightarrow> 'r save_env \<Rightarrow> SaveFileOpts \<Rightarrow> FileHandler \<Rightarrow> 'r save_state \<Rightarrow>
    FileHandler option result go \<times> 'r save_state" where
  "generateMetadataFromZip aenv env opts fh st =
     (let fileName = (if fh_LocalPath fh = [] then fh_RemoteURL fh else fh_LocalPath fh) in
      case art_start aenv fileName of
        Inl err \<Rightarrow> (Return (Inl err), st)
      | Inr (out, status) \<Rightarrow>
          (case SaveFileFromReader env (reader_of out) (-1) (metaOpts aenv opts) st of
             (Panic m, st) \<Rightarrow> (Panic m, st)
           | (Return res, st) \<Rightarrow>
               (Return (if status = StatusNotZip then Inr None
                        else if status \<noteq> 0 then Inl (ExitError status)
                        else (case res of Inl err \<Rightarrow> Inl err | Inr md \<Rightarrow> Inr (Some md))), st)))"

text \<open>The state of the processor is whether a file has been stored.\<close>

definition artifacts_ProcessFile :: "artifacts_env \<Rightarrow> 'r save_env \<Rightarrow> SaveFileOpts \<Rightarrow> string \<Rightarrow> FileHandler \<Rightarrow> ('r, bool) rewriter \<Rightarrow>
    gerror option go \<times> ('r, bool) rewriter" where
  "artifacts_ProcessFile aenv env opts formName fh rew =
     (if formName \<noteq> ''file'' then (Return (Some (Errorf (''Invalid form field: '' @ Quote formName))), rew)
      else if rew_filter rew then (Return (Some (Errorf ''Artifacts request contains more than one file'')), rew)
      else
        let rew = rew\<lparr>rew_filter := True\<rparr> in
        if art_ctx_done aenv then (Return (Some (Errorf ''ProcessFile: context done'')), rew)
        else (case generateMetadataFromZip aenv env opts fh (rew_store rew) of
           (Panic m, st) \<Rightarrow> (Panic m, rew\<lparr>rew_store := st\<rparr>)
         | (Return (Inl err), st) \<Rightarrow> (Return (Some (wrap_err ''generateMetadataFromZip: '' err)), rew\<lparr>rew_store := st\<rparr>)
         | (Return (Inr md), st) \<Rightarrow>
             let rew = rew\<lparr>rew_store := st\<rparr>
             in (Return None, case md of None \<Rightarrow> rew | Some md \<Rightarrow> WriteFields (GitLabFinalizeFields md ''metadata'') rew)))"

definition artifacts_processor :: "artifacts_env \<Rightarrow> 'r save_env \<Rightarrow> SaveFileOpts \<Rightarrow> ('r, bool) MultipartFormProcessor" where
  "artifacts_processor aenv env opts = \<lparr>ProcessFile = artifacts_ProcessFile aenv env opts, ProcessField = (\<lambda>_ rew. (None, rew)),
     Finalize = (\<lambda>_ r. (None, r)), processor_Name = ''artifacts''\<rparr>"

definition UploadArtifacts :: "((request \<Rightarrow> Response \<Rightarrow> 's \<times> 'r save_state \<times> upload_counters \<Rightarrow> ('s \<times> 'r save_state \<times> upload_counters) go) \<Rightarrow> string \<Rightarrow> 'x) \<Rightarrow>
    artifacts_env \<Rightarrow> upload_env \<Rightarrow> 'r save_env \<Rightarrow> int \<Rightarrow> 's writer \<Rightarrow> 's handler \<Rightarrow> 'x" where
  "UploadArtifacts preAuthorizeHandler aenv uenv env now w h =
     preAuthorizeHandler (\<lambda>r a. HandleFileUploads uenv env now w h (artifacts_processor aenv env (GetOpts now a)) False r a) ''/authorize''"

section \<open>Lemmas\<close>

lemma artifacts_file_stored:
  assumes "handleFilePart env now preauth (artifacts_processor aenv env opts) name p rew = (Return None, rew')"
  shows "name = ''file'' \<and> \<not> rew_filter rew \<and> rew_filter rew'"
  using assms
  by (auto simp: handleFilePart_def Let_def artifacts_processor_def artifacts_ProcessFile_def
      split: if_splits prod.splits go.splits sum.splits option.splits)

lemma artifacts_copy_stored:
  assumes "copyPart (artifacts_processor aenv env opts) name p rew = (None, rew')"
  shows "rew_filter rew' = rew_filter rew"
  using assms by (auto simp: copyPart_def Let_def artifacts_processor_def split: option.splits)

lemma artifacts_rewrite_stored:
  assumes "rewrite_parts env now preauth (artifacts_processor aenv env opts) ps e rew = (Return None, rew')"
  shows "(\<forall>p \<in> set ps. is_file p \<longrightarrow> p_FormName p = ''file'') \<and>
    length (filter is_file ps) + (if rew_filter rew then 1 else 0) = (if rew_filter rew' then 1 else 0)"
  using assms
proof (induction ps arbitrary: rew)
  case (Cons p ps)
  consider (anon) "p_FormName p = []" | (named) "is_file p" | (plain) "is_plain p" by (auto simp: is_file_def is_plain_def)
  then show ?case
  proof cases
    case anon
    then show ?thesis using Cons.IH [of rew] Cons.prems by (auto simp: is_file_def)
  next
    case named
    then obtain rew1 where rew1: "handleFilePart env now preauth (artifacts_processor aenv env opts) (p_FormName p) p rew = (Return None, rew1)"
      "rewrite_parts env now preauth (artifacts_processor aenv env opts) ps e rew1 = (Return None, rew')"
      using Cons.prems by (auto simp: is_file_def Let_def split: prod.splits go.splits option.splits)
    show ?thesis using artifacts_file_stored [OF rew1(1)] Cons.IH [OF rew1(2)] named by simp
  next
    case plain
    then obtain rew1 where rew1: "copyPart (artifacts_processor aenv env opts) (p_FormName p) p rew = (None, rew1)"
      "rewrite_parts env now preauth (artifacts_processor aenv env opts) ps e rew1 = (Return None, rew')"
      using Cons.prems by (auto simp: is_plain_def Let_def split: prod.splits go.splits option.splits)
    have "\<not> is_file p" using plain by (simp add: is_file_def is_plain_def)
    then show ?thesis using artifacts_copy_stored [OF rew1(1)] Cons.IH [OF rew1(2)] by simp
  qed
qed auto

lemma artifacts_not_ErrNotMultipart:
  "fst (ProcessFile (artifacts_processor aenv env opts) n fh rew) \<noteq> Return (Some ErrNotMultipart)"
  by (auto simp: artifacts_processor_def artifacts_ProcessFile_def Let_def wrap_err_def split: go.splits sum.splits prod.splits)

section \<open>Properties\<close>

text \<open>C35. An upload of build artifacts that carries two files, or a file in a field other than \<open>file\<close>, never reaches the
  backend: its outcome does not depend on the handler behind.\<close>

theorem artifacts_single_file:
  assumes "up_reader uenv r = Inr (parts, e)" "e \<noteq> Some ErrNotMultipart"
    and "length (filter is_file parts) > 1 \<or> (\<exists>p \<in> set parts. is_file p \<and> p_FormName p \<noteq> ''file'')"
  shows "HandleFileUploads uenv env now w h (artifacts_processor aenv env opts) False r preauth x =
         HandleFileUploads uenv env now w h' (artifacts_processor aenv env opts) False r preauth x"
proof -
  obtain s store c where x: "x = (s, store, c)" by (metis prod.exhaust)
  let ?rew = "\<lparr>rew_writer = [], rew_filter = False, rew_store = store, rew_counters = count_request ''artifacts'' c\<rparr>"
  let ?proc = "artifacts_processor aenv env opts"
  obtain res rew' where rp: "rewrite_parts env now preauth ?proc parts e ?rew = (res, rew')" by fastforce
  have run: "rewriteFormFilesFromMultipart (up_reader uenv) env now r preauth ?proc
      \<lparr>rew_writer = [], rew_filter = False, rew_store = store, rew_counters = c\<rparr> = (res, rew')"
    using rp assms(1) by (simp add: rewriteFormFilesFromMultipart_def artifacts_processor_def)
  have "res \<noteq> Return None"
  proof
    assume "res = Return None"
    from artifacts_rewrite_stored [OF rp [unfolded this]] assms(3) show False by (auto split: if_splits)
  qed
  moreover have "res \<noteq> Return (Some ErrNotMultipart)"
    by (rule rewrite_parts_not_ErrNotMultipart [OF rp assms(2) artifacts_not_ErrNotMultipart])
  ultimately show ?thesis unfolding HandleFileUploads_def x Let_def
    using run by (auto split: go.splits option.splits)
qed

definition sample_artifacts :: artifacts_env where
  "sample_artifacts = \<lparr>art_TempDir = ''/tmp'', art_start = (\<lambda>_. Inr (''m'', 0)), art_ctx_done = False\<rparr>"

theorem artifacts_single_file_witness:
  "let u = sample_upload\<lparr>up_reader := (\<lambda>_. Inr ([sample_part ''file'' ''a'' ''1'', sample_part ''file'' ''b'' ''2''], None))\<rparr>;
     run = (\<lambda>h. HandleFileUploads u sample_save 0 net_writer h (artifacts_processor sample_artifacts sample_save sample_opts) False sample_request
       (zero_Response\<lparr>a_TempPath := ''/tmp''\<rparr>) (new_response, sample_state, no_counts)) in
   run (\<lambda>_ s. s) = run (\<lambda>_. net_WriteHeader 200)"
  unfolding Let_def
  by (rule artifacts_single_file [where parts = "[sample_part ''file'' ''a'' ''1'', sample_part ''file'' ''b'' ''2'']" and e = None])
    (simp_all add: sample_part_def is_file_def)

end
