(* ===== verification/Regex.thy ===== *)
theory Regex
  imports Prelude
begin

text \<open>
  The regular expressions of the routing table. Every pattern there starts with \<open>^\<close>, so matching
  starts at the first byte; it ends anywhere, or, after \<open>\z\<close>, at the end of the text. \<open>MatchString\<close>
  is computed with derivatives and shown equal to membership in the language of the expression.

  Texts are bytes, and \<open>.\<close> and \<open>[^/]\<close> take one byte where Go takes one character. \<open>[^/]\<close> occurs only
  repeated, where this makes no difference; \<open>.\<close> occurs in \<open>terminal.ws\<close> and \<open>register.json\<close>, and Go would also
  accept one multi-byte character there.
\<close>

datatype rx =
    Void
  | Epsilon
  | Cls bool "(char \<times> char) list"
  | Seq rx rx
  | Alt rx rx
  | Star rx

text \<open>A class \<open>[...]\<close>, or \<open>[^...]\<close> if its flag is set, is a list of ranges.\<close>

definition in_ranges :: "char \<Rightarrow> (char \<times> char) list \<Rightarrow> bool" where
  "in_ranges c rs \<longleftrightarrow> list_ex (\<lambda>(a, b). of_char a \<le> (of_char c :: nat) \<and> of_char c \<le> (of_char b :: nat)) rs"

primrec nullable :: "rx \<Rightarrow> bool" where
  "nullable Void = False"
| "nullable Epsilon = True"
| "nullable (Cls neg rs) = False"
| "nullable (Seq r s) = (nullable r \<and> nullable s)"
| "nullable (Alt r s) = (nullable r \<or> nullable s)"
| "nullable (Star r) = True"

text \<open>Smart constructors keep the derivatives small.\<close>

definition seq :: "rx \<Rightarrow> rx \<Rightarrow> rx" where
  "seq r s = (if r = Void \<or> s = Void then Void else if r = Epsilon then s else Seq r s)"

definition alt :: "rx \<Rightarrow> rx \<Rightarrow> rx" where
  "alt r s = (if r = Void then s else if s = Void \<or> r = s then r else Alt r s)"

primrec deriv :: "char \<Rightarrow> rx \<Rightarrow> rx" where
  "deriv c Void = Void"
| "deriv c Epsilon = Void"
| "deriv c (Cls neg rs) = (if in_ranges c rs \<noteq> neg then Epsilon else Void)"
| "deriv c (Seq r s) = (if nullable r then alt (seq (deriv c r) s) (deriv c s) else seq (deriv c r) s)"
| "deriv c (Alt r s) = alt (deriv c r) (deriv c s)"
| "deriv c (Star r) = seq (deriv c r) (Star r)"

fun match_all :: "rx \<Rightarrow> string \<Rightarrow> bool" where
  "match_all r [] = nullable r"
| "match_all r (c # s) = match_all (deriv c r) s"

fun match_start :: "rx \<Rightarrow> string \<Rightarrow> bool" where
  "match_start r [] = nullable r"
| "match_start r (c # s) = (nullable r \<or> match_start (deriv c r) s)"

text \<open>A compiled pattern: the expression after \<open>^\<close>, and whether \<open>\z\<close> ends it.\<close>

record regexp =
  re_body :: rx
  re_end :: bool

definition MatchString :: "regexp \<Rightarrow> string \<Rightarrow> bool" where
  "MatchString re s = (if re_end re then match_all (re_body re) s else match_start (re_body re) s)"

section \<open>Building expressions\<close>

definition literal :: "string \<Rightarrow> rx" where
  "literal s = foldr (\<lambda>c r. Seq (Cls False [(c, c)]) r) s Epsilon"

definition rx_plus :: "rx \<Rightarrow> rx" where
  "rx_plus r = Seq r (Star r)"

primrec rx_times :: "nat \<Rightarrow> rx \<Rightarrow> rx" where
  "rx_times 0 r = Epsilon"
| "rx_times (Suc n) r = Seq r (rx_times n r)"

text \<open>\<open>[^/]\<close>, \<open>[0-9]\<close>, \<open>[0-9a-f]\<close> and \<open>.\<close>\<close>

definition not_slash :: rx where
  "not_slash = Cls True [(CHR ''/'', CHR ''/'')]"

definition digit :: rx where
  "digit = Cls False [(CHR ''0'', CHR ''9'')]"

definition hex_digit :: rx where
  "hex_digit = Cls False [(CHR ''0'', CHR ''9''), (CHR ''a'', CHR ''f'')]"

definition dot :: rx where
  "dot = Cls True [(CHR 0x0A, CHR 0x0A)]"

section \<open>Languages\<close>

inductive_set star :: "string set \<Rightarrow> string set" for L where
  star_Nil: "[] \<in> star L"
| star_append: "u \<in> L \<Longrightarrow> v \<in> star L \<Longrightarrow> u @ v \<in> star L"

primrec lang :: "rx \<Rightarrow> string set" where
  "lang Void = {}"
| "lang Epsilon = {[]}"
| "lang (Cls neg rs) = {[c] | c. in_ranges c rs \<noteq> neg}"
| "lang (Seq r s) = {u @ v | u v. u \<in> lang r \<and> v \<in> lang s}"
| "lang (Alt r s) = lang r \<union> lang s"
| "lang (Star r) = star (lang r)"

lemma lang_seq [simp]: "lang (seq r s) = lang (Seq r s)"
  by (auto simp: seq_def)

lemma lang_alt [simp]: "lang (alt r s) = lang (Alt r s)"
  by (auto simp: alt_def)

lemma mem_Seq: "s \<in> lang (Seq r t) \<longleftrightarrow> (\<exists>u \<in> lang r. \<exists>v \<in> lang t. s = u @ v)"
  by auto

lemma in_Seq: "u \<in> lang r \<Longrightarrow> v \<in> lang t \<Longrightarrow> u @ v \<in> lang (Seq r t)"
  by auto

lemma nullable_lang: "nullable r \<longleftrightarrow> [] \<in> lang r"
  by (induction r) (auto intro: star.intros)

lemma star_Cons: "c # w \<in> star L \<longleftrightarrow> (\<exists>u v. w = u @ v \<and> c # u \<in> L \<and> v \<in> star L)"
proof
  have "x \<in> star L \<Longrightarrow> x = c # w \<Longrightarrow> \<exists>u v. w = u @ v \<and> c # u \<in> L \<and> v \<in> star L" for x
    by (induction rule: star.induct) (auto simp: append_eq_Cons_conv)
  then show "c # w \<in> star L \<Longrightarrow> \<exists>u v. w = u @ v \<and> c # u \<in> L \<and> v \<in> star L" by blast
qed (metis append_Cons star_append)

lemma Seq_Cons: "c # w \<in> lang (Seq r s) \<longleftrightarrow>
    (\<exists>u v. w = u @ v \<and> c # u \<in> lang r \<and> v \<in> lang s) \<or> [] \<in> lang r \<and> c # w \<in> lang s"
  by (auto simp: Cons_eq_append_conv)

lemma deriv_lang: "w \<in> lang (deriv c r) \<longleftrightarrow> c # w \<in> lang r"
proof (induction r arbitrary: w)
  case (Seq r s)
  then show ?case by (simp only: Seq_Cons) (auto simp: nullable_lang)
next
  case (Star r)
  then show ?case by (auto simp: star_Cons)
qed auto

lemma match_all_lang: "match_all r s \<longleftrightarrow> s \<in> lang r"
  by (induction r s rule: match_all.induct) (simp_all add: nullable_lang deriv_lang)

lemma match_start_lang: "match_start r s \<longleftrightarrow> (\<exists>u v. s = u @ v \<and> u \<in> lang r)"
proof (induction r s rule: match_start.induct)
  case (2 r c s)
  have "(\<exists>u v. c # s = u @ v \<and> u \<in> lang r) \<longleftrightarrow> [] \<in> lang r \<or> (\<exists>u v. s = u @ v \<and> c # u \<in> lang r)"
    by (auto simp: Cons_eq_append_conv)
  then show ?case using 2 by (simp add: nullable_lang deriv_lang)
qed (simp add: nullable_lang)

text \<open>The derivative matcher decides exactly the language of a pattern: with \<open>\z\<close> the whole text is in it, without
  it some prefix of the text is.\<close>

theorem MatchString_lang:
  "MatchString re s \<longleftrightarrow> (if re_end re then s \<in> lang (re_body re) else \<exists>u v. s = u @ v \<and> u \<in> lang (re_body re))"
  by (simp add: MatchString_def match_all_lang match_start_lang)

section \<open>The languages of the building blocks\<close>

lemma in_ranges_single [simp]: "in_ranges c [(a, a)] \<longleftrightarrow> c = a"
  by (auto simp: in_ranges_def)

lemma lang_literal [simp]: "lang (literal s) = {s}"
  by (induction s) (auto simp: literal_def)

lemma lang_Seq_literal [simp]: "lang (Seq (literal s) r) = {s @ v | v. v \<in> lang r}"
  by auto

lemma lang_plus_not_slash: "lang (rx_plus not_slash) = {s. s \<noteq> [] \<and> CHR ''/'' \<notin> set s}"
proof -
  have star: "v \<in> star (lang not_slash) \<longleftrightarrow> CHR ''/'' \<notin> set v" for v
    by (induction v) (auto simp: star_Cons not_slash_def intro: star_Nil)
  show ?thesis
  proof (rule set_eqI)
    fix s show "s \<in> lang (rx_plus not_slash) \<longleftrightarrow> s \<in> {s. s \<noteq> [] \<and> CHR ''/'' \<notin> set s}"
    proof (cases s)
      case (Cons c t)
      then show ?thesis
        by (auto simp: rx_plus_def Seq_Cons star simp del: lang.simps(4)) (auto simp: not_slash_def)
    qed (auto simp: rx_plus_def not_slash_def)
  qed
qed

lemma star_concat: "star L = {concat us | us. set us \<subseteq> L}"
proof (rule set_eqI)
  fix s
  have "s \<in> star L \<Longrightarrow> \<exists>us. s = concat us \<and> set us \<subseteq> L"
  proof (induction rule: star.induct)
    case (star_append u v)
    then obtain us where "v = concat us" "set us \<subseteq> L" by blast
    then show ?case using star_append.hyps(1) by (intro exI [of _ "u # us"]) simp
  qed (intro exI [of _ "[]"], simp)
  moreover have "set us \<subseteq> L \<Longrightarrow> concat us \<in> star L" for us
    by (induction us) (auto intro: star.intros)
  ultimately show "s \<in> star L \<longleftrightarrow> s \<in> {concat us | us. set us \<subseteq> L}" by blast
qed

lemma lang_plus_image:
  assumes "lang r = f ` N"
  shows "lang (rx_plus r) = {concat (map f ns) | ns. ns \<noteq> [] \<and> set ns \<subseteq> N}" (is "_ = ?R")
proof -
  have star: "star (f ` N) = {concat (map f ns) | ns. set ns \<subseteq> N}"
    unfolding star_concat using lists_image [of f N] by (auto simp: lists_eq_set image_iff set_eq_iff)
  show ?thesis
  proof (rule set_eqI)
    fix s
    have "s \<in> lang (rx_plus r) \<longleftrightarrow> (\<exists>n ns. n \<in> N \<and> set ns \<subseteq> N \<and> s = f n @ concat (map f ns))"
      by (auto simp: rx_plus_def assms star)
    also have "\<dots> \<longleftrightarrow> (\<exists>ns. ns \<noteq> [] \<and> set ns \<subseteq> N \<and> s = concat (map f ns))"
      by (auto simp: neq_Nil_conv) (metis concat.simps(2) insert_subset list.simps(15) list.simps(9))+
    finally show "s \<in> lang (rx_plus r) \<longleftrightarrow> s \<in> ?R" by auto
  qed
qed

lemma lang_plus_class:
  assumes "lang r = {[c] | c. c \<in> C}"
  shows "lang (rx_plus r) = {s. s \<noteq> [] \<and> set s \<subseteq> C}"
proof -
  have "concat (map (\<lambda>c. [c]) s) = s" for s :: string by (induction s) auto
  then show ?thesis using lang_plus_image [of r "\<lambda>c. [c]" C] assms by (auto simp: image_def)
qed

lemma lang_times_class:
  assumes "lang r = {[c] | c. c \<in> C}"
  shows "lang (rx_times n r) = {s. length s = n \<and> set s \<subseteq> C}"
proof (induction n)
  case (Suc n)
  have "s \<in> lang (rx_times (Suc n) r) \<longleftrightarrow> (\<exists>c v. s = c # v \<and> c \<in> C \<and> length v = n \<and> set v \<subseteq> C)" for s
    unfolding rx_times.simps mem_Seq assms Suc by auto
  then show ?case by (auto simp: length_Suc_conv)
qed auto

end
