(* ===== verification/Static_Pages.thy ===== *)
theory Static_Pages
  imports Hijack Paths
begin

text \<open>
  \<open>internal/staticpages\<close>: serving files below the document root (\<open>servefile.go\<close>), the deploy page
  (\<open>deploy_page.go\<close>) and the static error pages (\<open>error_pages.go\<close>). The file system is a function
  from names to nodes. \<open>http.ServeContent\<close>, which answers range and conditional requests, and the
  formatted expiry date are parameters.
\<close>

section \<open>Serving files and the deploy page\<close>

datatype CacheMode = CacheDisabled | CacheExpireMax

definition ServeExisting :: "serve_content \<Rightarrow> string \<Rightarrow> 's writer \<Rightarrow> filesystem \<Rightarrow> string \<Rightarrow> string \<Rightarrow> CacheMode \<Rightarrow>
    's handler option \<Rightarrow> 's handler" where
  "ServeExisting serveContent cacheUntil w fs DocumentRoot pre cache notFoundHandler r s =
     (let file = path_Join [DocumentRoot, Strip pre (url_Path (req_URL r))] in
      if \<not> HasPrefix file DocumentRoot then Fail500 w s else
      let gz = (if Contains (Header_Get (req_Header r) ''Accept-Encoding'') ''gzip''
                then Some (OpenFile fs (file @ ''.gz'')) else None);
          s = (case gz of Some (Inr _) \<Rightarrow> w_Set w ''Content-Encoding'' ''gzip'' s | _ \<Rightarrow> s);
          opened = (case gz of Some (Inr f) \<Rightarrow> Inr f | _ \<Rightarrow> OpenFile fs file)
      in case opened of
        Inl err \<Rightarrow> (case notFoundHandler of Some h \<Rightarrow> h r s | None \<Rightarrow> http_NotFound w s)
      | Inr (content, modTime) \<Rightarrow>
          let s = (case cache of
              CacheExpireMax \<Rightarrow> w_Set w ''Expires'' cacheUntil (w_Set w ''Cache-Control'' ''public'' s)
            | CacheDisabled \<Rightarrow> s)
          in exec_calls w (serveContent r (path_Base file) modTime content (w_Header w s)) s)"

definition ReadFile :: "filesystem \<Rightarrow> string \<Rightarrow> bytes result" where
  "ReadFile fs path =
     (case fs path of
        None \<Rightarrow> Inl ErrNotExist
      | Some Dir \<Rightarrow> Inl (Errorf (''read '' @ path @ '': is a directory''))
      | Some (File content _) \<Rightarrow> Inr content)"

definition DeployPage :: "'s writer \<Rightarrow> filesystem \<Rightarrow> string \<Rightarrow> 's handler \<Rightarrow> 's handler" where
  "DeployPage w fs DocumentRoot handler r s =
     (case ReadFile fs (path_Join [DocumentRoot, ''index.html'']) of
        Inl err \<Rightarrow> handler r s
      | Inr data \<Rightarrow>
          let s = w_putHeader w (SetNoCacheHeaders (w_Header w s)) s;
              s = w_Set w ''Content-Type'' ''text/html; charset=utf-8'' s;
              s = w_WriteHeader w 200 s
          in fst (w_Write w data s))"

section \<open>Error pages\<close>

record 's errorPage =
  e_rw :: 's
  e_status :: int
  e_hijacked :: bool
  e_path :: string
  staticErrorResponses :: "string \<Rightarrow> nat"

definition has_error_page :: "filesystem \<Rightarrow> string \<Rightarrow> int \<Rightarrow> header \<Rightarrow> bytes option" where
  "has_error_page fs path status h =
     (if 400 \<le> status \<and> status \<le> 599 \<and> Header_Get h ''X-GitLab-Custom-Error'' = [] \<and>
         Header_Get h ''Content-Type'' \<noteq> ''application/json''
      then (case ReadFile fs (path_Join [path, FormatInt status @ ''.html'']) of
              Inl _ \<Rightarrow> None | Inr data \<Rightarrow> Some data)
      else None)"

definition errorPage_WriteHeader :: "filesystem \<Rightarrow> 's writer \<Rightarrow> int \<Rightarrow> 's errorPage \<Rightarrow> 's errorPage" where
  "errorPage_WriteHeader fs w status e =
     (if e_status e \<noteq> 0 then e else
      let e = e\<lparr>e_status := status\<rparr> in
      case has_error_page fs (e_path e) status (w_Header w (e_rw e)) of
        Some data \<Rightarrow>
          let label = FormatInt status;
              e = e\<lparr>e_hijacked := True, staticErrorResponses :=
                (staticErrorResponses e)(label := Suc (staticErrorResponses e label))\<rparr>;
              s = e_rw e;
              s = w_putHeader w (SetNoCacheHeaders (w_Header w s)) s;
              s = w_Set w ''Content-Type'' ''text/html; charset=utf-8'' s;
              s = w_Set w ''Content-Length'' (FormatInt (int (length data))) s;
              s = w_Del w ''Transfer-Encoding'' s;
              s = w_WriteHeader w status s
          in e\<lparr>e_rw := fst (w_Write w data s)\<rparr>
      | None \<Rightarrow> e\<lparr>e_rw := w_WriteHeader w status (e_rw e)\<rparr>)"

definition errorPage_Write :: "filesystem \<Rightarrow> 's writer \<Rightarrow> bytes \<Rightarrow> 's errorPage \<Rightarrow> 's errorPage \<times> nat \<times> gerror option" where
  "errorPage_Write fs w data e =
     (let e = (if e_status e = 0 then errorPage_WriteHeader fs w 200 e else e) in
      if e_hijacked e then (e, 0, None)
      else let (rw, n, err) = w_Write w data (e_rw e) in (e\<lparr>e_rw := rw\<rparr>, n, err))"

definition errorPage_writer :: "filesystem \<Rightarrow> 's writer \<Rightarrow> 's errorPage writer" where
  "errorPage_writer fs w = \<lparr>w_Header = (\<lambda>e. w_Header w (e_rw e)),
     w_putHeader = (\<lambda>h e. e\<lparr>e_rw := w_putHeader w h (e_rw e)\<rparr>),
     w_WriteHeader = errorPage_WriteHeader fs w, w_Write = errorPage_Write fs w\<rparr>"

definition errorPage_Flush :: "filesystem \<Rightarrow> 's writer \<Rightarrow> 's errorPage \<Rightarrow> 's errorPage" where
  "errorPage_Flush fs w e = errorPage_WriteHeader fs w 200 e"

text \<open>The counters are global in the code; here they pass through the handler.\<close>

definition ErrorPagesUnless :: "bool \<Rightarrow> filesystem \<Rightarrow> string \<Rightarrow> 's writer \<Rightarrow>
    (request \<Rightarrow> 's \<Rightarrow> 's) \<Rightarrow> (request \<Rightarrow> 's errorPage \<Rightarrow> 's errorPage) \<Rightarrow>
    request \<Rightarrow> 's \<times> (string \<Rightarrow> nat) \<Rightarrow> 's \<times> (string \<Rightarrow> nat)" where
  "ErrorPagesUnless disabled fs DocumentRoot w plain wrapped r sc =
     (if disabled then (plain r (fst sc), snd sc) else
      let e = \<lparr>e_rw = fst sc, e_status = 0, e_hijacked = False, e_path = DocumentRoot,
               staticErrorResponses = snd sc\<rparr>;
          e = errorPage_Flush fs w (wrapped r e)
      in (e_rw e, staticErrorResponses e))"

section \<open>Files stay below the document root\<close>

lemma HasPrefix_dir_path: "HasPrefix (dir_path root cs) root"
  by (auto simp: dir_path_def HasPrefix_iff)

lemma ServeExisting_file:
  assumes "Clean root = root" "root \<noteq> ''.''"
  shows "path_Join [root, Strip pre p] = dir_path root (clean_elems True (TrimPrefix p pre))"
  unfolding Strip_def by (rule Join_below_root [OF assms])

lemma ServeExisting_reads:
  fixes r pre
  assumes "Clean root = root" "root \<noteq> ''.''"
  defines "f \<equiv> dir_path root (clean_elems True (TrimPrefix (url_Path (req_URL r)) pre))"
  assumes "fs f = fs' f" "fs (f @ ''.gz'') = fs' (f @ ''.gz'')"
  shows "ServeExisting sc exp w fs root pre cache nf r s = ServeExisting sc exp w fs' root pre cache nf r s"
proof -
  have opens: "OpenFile fs f = OpenFile fs' f" "OpenFile fs (f @ ''.gz'') = OpenFile fs' (f @ ''.gz'')"
    using assms(4,5) by (simp_all add: OpenFile_def)
  show ?thesis
    unfolding ServeExisting_def ServeExisting_file [OF assms(1,2)] f_def [symmetric] Let_def opens by (rule refl)
qed

text \<open>The names \<open>ServeExisting\<close> may open: entries of the root, and the same with \<open>.gz\<close>.\<close>

definition served_name :: "string \<Rightarrow> string \<Rightarrow> bool" where
  "served_name root f \<longleftrightarrow> (\<exists>cs. (\<forall>c \<in> set cs. plain_elem c) \<and> (f = dir_path root cs \<or> f = dir_path root cs @ ''.gz''))"


definition sample_fs :: filesystem where
  "sample_fs = [''/srv/public'' \<mapsto> Dir, ''/srv/public/a.txt'' \<mapsto> File ''hello'' 1,
     ''/srv/public.gz'' \<mapsto> File ''outside'' 2, ''/srv/secret'' \<mapsto> File ''secret'' 3]"


text \<open>The exception for \<open>.gz\<close> matters: for the path of the root itself, with a client that accepts
  gzip, the file served is next to the document root, not in it.\<close>

theorem ServeExisting_sibling_gz:
  "o_body (n_out (ServeExisting plain_content [] net_writer sample_fs ''/srv/public'' [] CacheDisabled None
      (sample_request\<lparr>req_Header := [(''Accept-Encoding'', [''gzip''])]\<rparr>) new_response)) = ''outside''"
  by code_simp

text \<open>The check of the file name against the document root compares a cleaned name with the root as
  configured: with a root that is not clean, like \<open>./public\<close>, every request is answered with 500.\<close>

theorem ServeExisting_uncleaned_root:
  "ServeExisting sc exp w fs ''./public'' pre cache nf r s = Fail500 w s"
proof -
  define cs where "cs = clean_elems True (TrimPrefix (url_Path (req_URL r)) pre)"
  have root: "Clean ''public'' = ''public''" "''public'' \<noteq> ''.''" by code_simp+
  have "clean_elems False (''./public'' @ CHR ''/'' # x) = clean_elems False (''public'' @ CHR ''/'' # x)" for x
    by (simp add: clean_elems_def push_elem_def)
  then have "Clean (''./public'' @ CHR ''/'' # x) = Clean (''public'' @ CHR ''/'' # x)" for x
    by (simp add: Clean_def)
  then have "path_Join [''./public'', x] = path_Join [''public'', x]" for x
    by (simp add: path_Join_def)
  then have "path_Join [''./public'', Strip pre (url_Path (req_URL r))] = dir_path ''public'' cs"
    by (simp add: ServeExisting_file [OF root] cs_def)
  then show ?thesis
    by (simp add: ServeExisting_def dir_path_def Let_def)
qed

section \<open>Error pages replace whole responses\<close>

text \<open>The header of a response that has been replaced by an error page.\<close>

definition page_header :: "bytes \<Rightarrow> header \<Rightarrow> header" where
  "page_header data h = Header_Del (Header_Set (Header_Set (SetNoCacheHeaders h) ''Content-Type'' ''text/html; charset=utf-8'')
     ''Content-Length'' (FormatInt (int (length data)))) ''Transfer-Encoding''"

text \<open>
  What goes out for the first status \<open>st\<close> a handler sets while the header map is \<open>h\<close>, followed by
  the body \<open>b\<close>.
\<close>

definition page_response :: "filesystem \<Rightarrow> string \<Rightarrow> int \<Rightarrow> header \<Rightarrow> bytes \<Rightarrow> wire" where
  "page_response fs path st h b =
     (case has_error_page fs path st h of
        Some data \<Rightarrow> \<lparr>o_status = st, o_header = page_header data h, o_body = data\<rparr>
      | None \<Rightarrow> \<lparr>o_status = st, o_header = h, o_body = b\<rparr>)"

definition page_calls :: "filesystem \<Rightarrow> string \<Rightarrow> int \<Rightarrow> header \<Rightarrow> call list" where
  "page_calls fs path st h =
     (case has_error_page fs path st h of
        None \<Rightarrow> [Call_WriteHeader st]
      | Some data \<Rightarrow> [Put_Header (page_header data h), Call_WriteHeader st, Call_Write data])"

lemma renders_page:
  "renders (page_calls fs path) (\<lambda>st h. has_error_page fs path st h \<noteq> None) u =
     page_response fs path (o_status u) (o_header u) (o_body u)"
  by (simp add: renders_def page_calls_def page_response_def response_of_def Let_def split: option.split)

lemma errorPage_first:
  assumes "e_status e = 0"
  shows "e_rw (errorPage_WriteHeader fs net_writer st e) =
      exec_calls net_writer (page_calls fs (e_path e) st (n_header (e_rw e))) (e_rw e)"
    "e_status (errorPage_WriteHeader fs net_writer st e) = st"
    "e_path (errorPage_WriteHeader fs net_writer st e) = e_path e"
    "e_hijacked (errorPage_WriteHeader fs net_writer st e) =
      (e_hijacked e \<or> has_error_page fs (e_path e) st (n_header (e_rw e)) \<noteq> None)"
  using assms
  by (simp_all add: errorPage_WriteHeader_def page_calls_def page_header_def Let_def split: option.split)

lemma errorPage_late: "e_status e \<noteq> 0 \<Longrightarrow> errorPage_WriteHeader fs w st e = e"
  by (simp add: errorPage_WriteHeader_def)

interpretation page: rendering_writer net_writer "errorPage_writer fs net_writer" e_rw e_status e_hijacked
  "\<lambda>e. e_path e = path" "\<lambda>st h s. exec_calls net_writer (page_calls fs path st h) s"
  "\<lambda>st h. has_error_page fs path st h \<noteq> None" "page_calls fs path" for fs path
  by unfold_locales
    (simp_all add: errorPage_writer_def errorPage_first errorPage_late errorPage_Write_def Let_def split_beta)



end
