(* ===== verification/Backend.thy ===== *)
theory Backend
  imports Api
begin

text \<open>
  The way to the backend: \<open>backend.go\<close>, \<open>internal/config\<close>, \<open>internal/badgateway\<close> and \<open>internal/proxy\<close>.

  \<open>url.Parse\<close> and the transport are parameters; so is \<open>httputil.ReverseProxy\<close>, as the handler that takes the
  prepared request. Of \<open>http.Transport\<close> only the address it dials is kept.
\<close>

section \<open>Configuration\<close>

definition parseAuthBackend :: "(string \<Rightarrow> url result) \<Rightarrow> string \<Rightarrow> url result" where
  "parseAuthBackend parse authBackend =
     (case parse authBackend of
        Inl err \<Rightarrow> Inl err
      | Inr backendURL \<Rightarrow>
          (case (if url_Host backendURL = [] then parse (''http://'' @ authBackend) else Inr backendURL) of
             Inl err \<Rightarrow> Inl err
           | Inr backendURL \<Rightarrow>
               if url_Scheme backendURL \<noteq> ''http''
               then Inl (Errorf (''invalid scheme, only 'http' is allowed: '' @ Quote authBackend))
               else if url_Host backendURL = []
               then Inl (Errorf (''missing host in '' @ Quote authBackend))
               else Inr backendURL))"

text \<open>\<open>url.Parse\<close> returns a nil pointer with an error, and it is dereferenced before the error is looked at.\<close>

definition TomlURL_UnmarshalText :: "(string \<Rightarrow> url result) \<Rightarrow> string \<Rightarrow> url go" where
  "TomlURL_UnmarshalText parse text =
     (case parse text of
        Inl err \<Rightarrow> Panic ''invalid memory address or nil pointer dereference''
      | Inr temp \<Rightarrow> Return temp)"

definition TomlDuration_UnmarshalTest :: "(string \<Rightarrow> int result) \<Rightarrow> string \<Rightarrow> int \<times> gerror option" where
  "TomlDuration_UnmarshalTest parseDuration text =
     (case parseDuration text of Inl err \<Rightarrow> (0, Some err) | Inr temp \<Rightarrow> (temp, None))"

record RedisConfig =
  rc_URL :: url
  rc_Sentinel :: "url list"
  rc_SentinelMaster :: string
  rc_Password :: string
  rc_DB :: "int option"
  rc_ReadTimeout :: "int option"
  rc_WriteTimeout :: "int option"
  rc_KeepAlivePeriod :: "int option"
  rc_MaxIdle :: "int option"
  rc_MaxActive :: "int option"

record Config =
  cfg_Redis :: "RedisConfig option"
  cfg_Backend :: "url option"
  cfg_Version :: string
  cfg_DocumentRoot :: string
  cfg_DevelopmentMode :: bool
  cfg_Socket :: string
  cfg_ProxyHeadersTimeout :: int
  cfg_APILimit :: nat
  cfg_APIQueueLimit :: nat
  cfg_APIQueueTimeout :: int
  cfg_APICILongPollingDuration :: int

section \<open>The transport\<close>

fun try_suffixes :: "string \<Rightarrow> string list \<Rightarrow> string option" where
  "try_suffixes address [] = None"
| "try_suffixes address (suf # sufs) =
     (let address = address @ suf in
      case SplitHostPort address of
        Some (host, port) \<Rightarrow> if host \<noteq> [] \<and> port \<noteq> [] then Some (host @ '':'' @ port) else try_suffixes address sufs
      | None \<Rightarrow> try_suffixes address sufs)"

definition mustParseAddress :: "string \<Rightarrow> string \<Rightarrow> string go" where
  "mustParseAddress address scheme =
     (if scheme = ''https'' then Panic ''TLS is not supported for backend connections''
      else case try_suffixes address ['''', '':'' @ scheme] of
        Some a \<Rightarrow> Return a
      | None \<Rightarrow> Panic (''could not parse host:port from address '' @ Quote (address @ '':'' @ scheme) @ '' and scheme '' @ Quote scheme))"

datatype dial = Dial_tcp string | Dial_unix string

record RoundTripper =
  rt_dial :: dial
  rt_ResponseHeaderTimeout :: int
  rt_developmentMode :: bool

definition NewRoundTripper :: "url option \<Rightarrow> string \<Rightarrow> int \<Rightarrow> bool \<Rightarrow> RoundTripper go" where
  "NewRoundTripper backend socket proxyHeadersTimeout developmentMode =
     (if socket \<noteq> [] then Return \<lparr>rt_dial = Dial_unix socket, rt_ResponseHeaderTimeout = proxyHeadersTimeout,
        rt_developmentMode = developmentMode\<rparr>
      else case backend of
        Some b \<Rightarrow> bind_go (mustParseAddress (url_Host b) (url_Scheme b)) (\<lambda>address.
          Return \<lparr>rt_dial = Dial_tcp address, rt_ResponseHeaderTimeout = proxyHeadersTimeout,
            rt_developmentMode = developmentMode\<rparr>)
      | None \<Rightarrow> Panic ''backend is nil and socket is empty'')"

definition RoundTrip :: "RoundTripper \<Rightarrow> (request \<Rightarrow> http_response result) \<Rightarrow> request \<Rightarrow> http_response result" where
  "RoundTrip t transport r =
     (case transport r of
        Inr res \<Rightarrow> Inr res
      | Inl err \<Rightarrow>
          let message = (if rt_developmentMode t then Error err else ''GitLab is not responding'') in
          Inr \<lparr>rsp_Status = ''Bad Gateway'', rsp_StatusCode = 502,
               rsp_Header = Header_Set [] ''Content-Type'' ''text/plain'', rsp_Body = reader_of message\<rparr>)"

section \<open>The proxy\<close>

definition defaultTarget :: url where
  "defaultTarget = \<lparr>url_Scheme = ''http'', url_Host = ''localhost'', url_Path = [], url_RawQuery = []\<rparr>"

record 's Proxy =
  p_Version :: string
  p_reverseProxy :: "'s handler"
  p_AllowResponseBuffering :: bool

text \<open>\<open>reverseProxy\<close> is \<open>httputil.NewSingleHostReverseProxy\<close> with the transport.\<close>

definition NewProxy :: "(url \<Rightarrow> RoundTripper \<Rightarrow> 's handler) \<Rightarrow> url option \<Rightarrow> string \<Rightarrow> RoundTripper \<Rightarrow> 's Proxy" where
  "NewProxy reverseProxy myURL version roundTripper =
     (let u = (case myURL of None \<Rightarrow> defaultTarget | Some u \<Rightarrow> u);
          u = u\<lparr>url_Path := []\<rparr>
      in \<lparr>p_Version = version, p_reverseProxy = reverseProxy u roundTripper, p_AllowResponseBuffering = True\<rparr>)"

definition proxy_ServeHTTP :: "'s Proxy \<Rightarrow> int \<Rightarrow> 's writer \<Rightarrow> 's handler" where
  "proxy_ServeHTTP p now w r s =
     (let req = r\<lparr>req_Header := HeaderClone (req_Header r)\<rparr>;
          req = req\<lparr>req_Header := Header_Set (req_Header req) ''Gitlab-Workhorse'' (p_Version p)\<rparr>;
          req = req\<lparr>req_Header := Header_Set (req_Header req) ''Gitlab-Workhorse-Proxy-Start'' (FormatInt now)\<rparr>;
          s = (if p_AllowResponseBuffering p then AllowResponseBuffering w s else s)
      in p_reverseProxy p req s)"

section \<open>Properties\<close>

text \<open>A backend that does not answer is a 502 for the client: the round trip never fails, whatever the transport
  does; a response passes unchanged, and the text of an error is shown in development mode only.\<close>

theorem RoundTrip_never_fails:
  "(\<forall>res. transport r = Inr res \<longrightarrow> RoundTrip t transport r = Inr res) \<and>
   (\<forall>err. transport r = Inl err \<longrightarrow> (\<exists>res. RoundTrip t transport r = Inr res \<and> rsp_StatusCode res = 502 \<and>
      rsp_Header res = [(''Content-Type'', [''text/plain''])] \<and>
      ReadAll (rsp_Body res) = Inr (if rt_developmentMode t then Error err else ''GitLab is not responding'')))"
  by (auto simp: RoundTrip_def Header_Set_def reader_of_def ReadAll_def Let_def)

theorem RoundTrip_never_fails_witness:
  "\<exists>res. RoundTrip \<lparr>rt_dial = Dial_unix ''/s'', rt_ResponseHeaderTimeout = 0, rt_developmentMode = False\<rparr> (\<lambda>_. Inl DeadlineExceeded)
     sample_request = Inr res \<and> rsp_StatusCode res = 502 \<and> ReadAll (rsp_Body res) = Inr ''GitLab is not responding''"
  using RoundTrip_never_fails [of "\<lambda>_. Inl DeadlineExceeded" sample_request
      "\<lparr>rt_dial = Dial_unix ''/s'', rt_ResponseHeaderTimeout = 0, rt_developmentMode = False\<rparr>"] by auto

lemma takeWhile_port: "CHR '':'' \<notin> set port \<Longrightarrow> rev (takeWhile (\<lambda>c. c \<noteq> CHR '':'') (rev (host @ CHR '':'' # port))) = port"
proof -
  assume "CHR '':'' \<notin> set port"
  then have "takeWhile (\<lambda>c. c \<noteq> CHR '':'') (rev port @ CHR '':'' # rev host) = rev port"
    by (subst takeWhile_append2) auto
  then show ?thesis by simp
qed

lemma SplitHostPort_plain:
  assumes "set host \<inter> {CHR '':'', CHR ''['', CHR '']''} = {}" "set port \<inter> {CHR '':'', CHR ''['', CHR '']''} = {}" "host \<noteq> []"
  shows "SplitHostPort (host @ CHR '':'' # port) = Some (host, port)"
proof -
  have port: "rev (takeWhile (\<lambda>c. c \<noteq> CHR '':'') (rev (host @ CHR '':'' # port))) = port"
    using assms(2) by (intro takeWhile_port) auto
  have "hd (host @ CHR '':'' # port) \<noteq> CHR ''[''" using assms(1,3) by (cases host) auto
  then show ?thesis unfolding SplitHostPort_def Let_def port using assms(1,2) by auto
qed

text \<open>The address the transport dials, for a backend named by a host without colons or brackets: the host and
  port given, with the scheme for a missing port. For an IPv6 literal the brackets are lost, and
  what is dialled is not an address any more.\<close>

theorem mustParseAddress_cases:
  assumes "set host \<inter> {CHR '':'', CHR ''['', CHR '']''} = {}" "host \<noteq> []"
    and "set port \<inter> {CHR '':'', CHR ''['', CHR '']''} = {}" "port \<noteq> []"
  shows "mustParseAddress (host @ '':'' @ port) ''http'' = Return (host @ '':'' @ port) \<and>
    mustParseAddress host ''http'' = Return (host @ '':http'') \<and>
    mustParseAddress ''[::1]:8080'' ''http'' = Return ''::1:8080'' \<and> SplitHostPort ''::1:8080'' = None"
proof (intro conjI)
  show "mustParseAddress (host @ '':'' @ port) ''http'' = Return (host @ '':'' @ port)"
    using SplitHostPort_plain [OF assms(1,3,2)] assms by (simp add: mustParseAddress_def)
  have "SplitHostPort host = None" using assms(1) by (auto simp: SplitHostPort_def)
  then show "mustParseAddress host ''http'' = Return (host @ '':http'')"
    using SplitHostPort_plain [OF assms(1) _ assms(2), of "''http''"] assms(2) by (simp add: mustParseAddress_def)
qed code_simp+

theorem mustParseAddress_cases_witness:
  "mustParseAddress ''localhost:8080'' ''http'' = Return ''localhost:8080'' \<and> mustParseAddress ''localhost'' ''http'' = Return ''localhost:http''"
  using mustParseAddress_cases [of "''localhost''" "''8080''"] by simp

end
