(* ===== verification/Upstream.thy ===== *)
theory Upstream
  imports Regex Static_Pages Backend
begin

text \<open>
  \<open>internal/upstream\<close>: \<open>handlers.go\<close>, \<open>notfoundunless.go\<close>, \<open>routes.go\<close> and \<open>upstream.go\<close>, in this order.

  The handlers of the other packages are fields of the record \<open>app\<close>. Each acts on the state behind
  the writer; those below \<open>static.ErrorPagesUnless\<close> also come in a version that acts through the
  error page writer. The counters of the error pages are the second component of the state, which
  every other handler leaves alone. \<open>instrumentRoute\<close>, which only measures, is in \<open>Program\<close>.
\<close>

section \<open>Small handlers\<close>

text \<open>\<open>gunzip\<close> is \<open>gzip.NewReader\<close>.\<close>

definition contentEncodingHandler :: "(stream \<Rightarrow> stream result) \<Rightarrow> 's writer \<Rightarrow> 's handler \<Rightarrow> 's handler" where
  "contentEncodingHandler gunzip w h r s =
     (let contentEncoding = Header_Get (req_Header r) ''Content-Encoding'';
          body = (if contentEncoding = '''' then Inr (req_Body r)
                  else if contentEncoding = ''gzip'' then gunzip (req_Body r)
                  else Inl (Errorf (''unsupported content encoding: '' @ contentEncoding)))
      in case body of
           Inl err \<Rightarrow> Fail500 w s
         | Inr body \<Rightarrow> h (r\<lparr>req_Body := body, req_Header := Header_Del (req_Header r) ''Content-Encoding''\<rparr>) s)"

definition NotFoundUnless :: "'s writer \<Rightarrow> bool \<Rightarrow> 's handler \<Rightarrow> 's handler" where
  "NotFoundUnless w pass handler = (if pass then handler else (\<lambda>_. http_NotFound w))"

text \<open>\<open>websocket.IsWebSocketUpgrade\<close> of the vendored package.\<close>

definition ws_space :: "char \<Rightarrow> bool" where
  "ws_space c \<longleftrightarrow> (let n = (of_char c :: nat) in n = 32 \<or> n = 9 \<or> n = 13 \<or> n = 10)"

definition ws_token :: "char \<Rightarrow> bool" where
  "ws_token c \<longleftrightarrow> (let n = (of_char c :: nat) in
     31 < n \<and> n < 127 \<and> c \<notin> set '' (),/:;<=>?@[]{}'' \<and> n \<noteq> 34 \<and> n \<noteq> 92)"

function token_list_contains :: "string \<Rightarrow> string \<Rightarrow> bool" where
  "token_list_contains v s =
     (let s1 = dropWhile ws_space s; t = takeWhile ws_token s1; s2 = dropWhile ws_space (drop (length t) s1) in
      if t = [] then False
      else if s2 \<noteq> [] \<and> hd s2 \<noteq> CHR '','' then False
      else if map ascii_lower t = v then True
      else if s2 = [] then False
      else token_list_contains v (tl s2))"
  by auto

termination
proof (relation "measure (\<lambda>(v, s). length s)")
  fix v s s1 t s2
  assume s: "s1 = dropWhile ws_space s" "t = takeWhile ws_token s1" "s2 = dropWhile ws_space (drop (length t) s1)" "s2 \<noteq> []"
  have "length s2 \<le> length (drop (length t) s1)" "length s1 \<le> length s" unfolding s by (rule length_dropWhile_le)+
  then show "((v, tl s2), v, s) \<in> measure (\<lambda>(v, s). length s)" using s(4) by (cases s2) auto
qed simp

declare token_list_contains.simps [simp del]

definition tokenListContainsValue :: "header \<Rightarrow> string \<Rightarrow> string \<Rightarrow> bool" where
  "tokenListContainsValue h name v = list_ex (token_list_contains v) (Header_values h name)"

definition IsWebSocketUpgrade :: "request \<Rightarrow> bool" where
  "IsWebSocketUpgrade r \<longleftrightarrow> tokenListContainsValue (req_Header r) ''Connection'' ''upgrade'' \<and>
     tokenListContainsValue (req_Header r) ''Upgrade'' ''websocket''"

definition denyWebsocket :: "'s writer \<Rightarrow> 's handler \<Rightarrow> 's handler" where
  "denyWebsocket w h r s =
     (if IsWebSocketUpgrade r then HTTPError w r ''websocket upgrade not allowed'' 400 s else h r s)"

section \<open>Routes\<close>

record 's routeEntry =
  ro_method :: string
  ro_regex :: "regexp option"
  ro_handler :: "'s handler"
  ro_matchers :: "(request \<Rightarrow> bool) list"

definition route :: "'s writer \<Rightarrow> string \<Rightarrow> regexp option \<Rightarrow> 's handler \<Rightarrow> (request \<Rightarrow> bool) list \<Rightarrow> 's routeEntry" where
  "route w meth re handler matchers =
     \<lparr>ro_method = meth, ro_regex = re, ro_handler = denyWebsocket w handler, ro_matchers = matchers\<rparr>"

definition wsRoute :: "regexp option \<Rightarrow> 's handler \<Rightarrow> (request \<Rightarrow> bool) list \<Rightarrow> 's routeEntry" where
  "wsRoute re handler matchers =
     \<lparr>ro_method = ''GET'', ro_regex = re, ro_handler = handler, ro_matchers = matchers @ [IsWebSocketUpgrade]\<rparr>"

definition isContentType :: "string \<Rightarrow> request \<Rightarrow> bool" where
  "isContentType contentType r = IsContentType contentType (Header_Get (req_Header r) ''Content-Type'')"

definition isMatch :: "'s routeEntry \<Rightarrow> string \<Rightarrow> request \<Rightarrow> bool" where
  "isMatch ro cleanedPath req =
     (if ro_method ro \<noteq> [] \<and> req_Method req \<noteq> ro_method ro then False
      else if (case ro_regex ro of Some re \<Rightarrow> \<not> MatchString re cleanedPath | None \<Rightarrow> False) then False
      else list_all (\<lambda>m. m req) (ro_matchers ro))"

text \<open>The patterns; \<open>until\<close> ends one with \<open>\z\<close>, \<open>anywhere\<close> leaves it open.\<close>

definition apiPattern :: rx where
  "apiPattern = literal ''/api/''"

definition ciAPIPattern :: rx where
  "ciAPIPattern = literal ''/ci/api/''"

definition gitProjectPattern :: rx where
  "gitProjectPattern = Seq (literal ''/'') (Seq (rx_plus (Seq (rx_plus not_slash) (literal ''/'')))
     (Seq (rx_plus not_slash) (literal ''.git/'')))"

definition projectPattern :: rx where
  "projectPattern = Seq (literal ''/'') (Seq (rx_plus (Seq (rx_plus not_slash) (literal ''/'')))
     (Seq (rx_plus not_slash) (literal ''/'')))"

definition until :: "rx \<Rightarrow> regexp option" where
  "until r = Some \<lparr>re_body = r, re_end = True\<rparr>"

definition anywhere :: "rx \<Rightarrow> regexp option" where
  "anywhere r = Some \<lparr>re_body = r, re_end = False\<rparr>"

section \<open>The routing table\<close>

record 's app =
  app_proxy :: "'s handler"
  app_proxy_errorPage :: "'s errorPage handler"
  app_uploadAccelerateProxy :: "'s handler"
  app_uploadAccelerateProxy_errorPage :: "'s errorPage handler"
  app_GetInfoRefsHandler :: "'s handler"
  app_UploadPack :: "'s handler"
  app_ReceivePack :: "'s handler"
  app_PutStore :: "'s handler"
  app_UploadArtifacts :: "'s handler"
  app_terminal :: "'s handler"
  app_ciAPILongPolling :: "'s handler"
  app_BodyUploader :: "'s handler"
  app_Accelerate :: "'s handler"

record upstream =
  DocumentRoot :: string
  DevelopmentMode :: bool
  URLPrefix :: string

record upstream_env =
  env_fs :: filesystem
  env_serveContent :: serve_content
  env_cacheUntil :: string
  env_gunzip :: "stream \<Rightarrow> stream result"
  env_GetRemoteAddr :: "request \<Rightarrow> string"

type_synonym 's counted = "'s \<times> (string \<Rightarrow> nat)"

definition on_fst :: "'s writer \<Rightarrow> 's counted writer" where
  "on_fst w = \<lparr>w_Header = (\<lambda>x. w_Header w (fst x)), w_putHeader = (\<lambda>h x. (w_putHeader w h (fst x), snd x)),
     w_WriteHeader = (\<lambda>st x. (w_WriteHeader w st (fst x), snd x)),
     w_Write = (\<lambda>d x. (case w_Write w d (fst x) of (s, n, e) \<Rightarrow> ((s, snd x), n, e)))\<rparr>"

definition lift_handler :: "'s handler \<Rightarrow> 's counted handler" where
  "lift_handler h r x = (h r (fst x), snd x)"

definition configureRoutes :: "upstream_env \<Rightarrow> upstream \<Rightarrow> 's app \<Rightarrow> 's writer \<Rightarrow> 's counted routeEntry list" where
  "configureRoutes env u a w =
     (let cw = on_fst w;
          proxy = lift_handler (app_proxy a);
          encoded = (\<lambda>h. contentEncodingHandler (env_gunzip env) cw (lift_handler h));
          serveExisting = (\<lambda>cache h. ServeExisting (env_serveContent env) (env_cacheUntil env) cw (env_fs env)
            (DocumentRoot u) (URLPrefix u) cache (Some h));
          errorPagesUnless = ErrorPagesUnless (DevelopmentMode u) (env_fs env) (DocumentRoot u) w
      in
      [route cw ''GET'' (until (Seq gitProjectPattern (literal ''info/refs''))) (lift_handler (app_GetInfoRefsHandler a)) [],
       route cw ''POST'' (until (Seq gitProjectPattern (literal ''git-upload-pack''))) (encoded (app_UploadPack a))
         [isContentType ''application/x-git-upload-pack-request''],
       route cw ''POST'' (until (Seq gitProjectPattern (literal ''git-receive-pack''))) (encoded (app_ReceivePack a))
         [isContentType ''application/x-git-receive-pack-request''],
       route cw ''PUT'' (until (Seq gitProjectPattern (Seq (literal ''gitlab-lfs/objects/'')
           (Seq (rx_times 64 hex_digit) (Seq (literal ''/'') (rx_plus digit))))))
         (lift_handler (app_PutStore a)) [isContentType ''application/octet-stream''],
       route cw ''POST'' (until (Seq apiPattern (Seq (literal ''v4/jobs/'') (Seq (rx_plus digit) (literal ''/artifacts'')))))
         (encoded (app_UploadArtifacts a)) [],
       route cw ''POST'' (until (Seq ciAPIPattern (Seq (literal ''v1/builds/'') (Seq (rx_plus digit) (literal ''/artifacts'')))))
         (encoded (app_UploadArtifacts a)) [],
       wsRoute (until (Seq projectPattern (Seq (literal ''environments/'') (Seq (rx_plus digit)
           (Seq (literal ''/terminal'') (Seq dot (literal ''ws''))))))) (lift_handler (app_terminal a)) [],
       wsRoute (until (Seq projectPattern (Seq (literal ''-/jobs/'') (Seq (rx_plus digit)
           (Seq (literal ''/terminal'') (Seq dot (literal ''ws''))))))) (lift_handler (app_terminal a)) [],
       route cw '''' (until (Seq apiPattern (literal ''v4/jobs/request''))) (lift_handler (app_ciAPILongPolling a)) [],
       route cw '''' (until (Seq ciAPIPattern (Seq (literal ''v1/builds/register'') (Seq dot (literal ''json'')))))
         (lift_handler (app_ciAPILongPolling a)) [],
       route cw ''PUT'' (anywhere (Seq apiPattern (Seq (literal ''v4/projects/'') (Seq (rx_plus digit) (literal ''/packages/maven/'')))))
         (lift_handler (app_BodyUploader a)) [],
       route cw '''' (anywhere apiPattern) proxy [],
       route cw '''' (anywhere ciAPIPattern) proxy [],
       route cw '''' (anywhere (literal ''/assets/'')) (serveExisting CacheExpireMax (NotFoundUnless cw (DevelopmentMode u) proxy)) [],
       route cw ''POST'' (until (Seq projectPattern (literal ''uploads''))) (lift_handler (app_Accelerate a)) [],
       route cw '''' (anywhere (literal ''/uploads/'')) (errorPagesUnless (app_proxy a) (app_proxy_errorPage a)) [],
       route cw '''' None (serveExisting CacheDisabled (DeployPage cw (env_fs env) (DocumentRoot u)
         (errorPagesUnless (app_uploadAccelerateProxy a) (app_uploadAccelerateProxy_errorPage a)))) []])"

section \<open>Serving a request\<close>

definition RewrittenFieldsHeader :: string where
  "RewrittenFieldsHeader = ''Gitlab-Workhorse-Multipart-Fields''"

definition requestHeaderBlacklist :: "string list" where
  "requestHeaderBlacklist = [RewrittenFieldsHeader]"

definition configureURLPrefix :: "string \<Rightarrow> string" where
  "configureURLPrefix relativeURLRoot =
     (if \<not> HasSuffix relativeURLRoot ''/'' then relativeURLRoot @ ''/'' else relativeURLRoot)"

definition DefaultBackend :: url where
  "DefaultBackend = \<lparr>url_Scheme = ''http'', url_Host = ''localhost:8080'', url_Path = [], url_RawQuery = []\<rparr>"

text \<open>The routes are configured when the writer is known.\<close>

definition NewUpstream :: "Config \<Rightarrow> (upstream \<times> RoundTripper) go" where
  "NewUpstream cfg =
     (let backend = (case cfg_Backend cfg of None \<Rightarrow> DefaultBackend | Some b \<Rightarrow> b) in
      bind_go (NewRoundTripper (Some backend) (cfg_Socket cfg) (cfg_ProxyHeadersTimeout cfg) (cfg_DevelopmentMode cfg)) (\<lambda>rt.
        Return (\<lparr>DocumentRoot = cfg_DocumentRoot cfg, DevelopmentMode = cfg_DevelopmentMode cfg,
                 URLPrefix = configureURLPrefix (url_Path backend)\<rparr>, rt)))"

text \<open>The loop that looks for a route.\<close>

definition find_route :: "'s routeEntry list \<Rightarrow> string \<Rightarrow> request \<Rightarrow> 's routeEntry option" where
  "find_route routes p r = List.find (\<lambda>ro. isMatch ro p r) routes"

text \<open>
  What the function does once the response is counted; the request comes back as the deferred
  \<open>RequestFinished\<close> finds it.
\<close>

definition upstream_handle :: "upstream \<Rightarrow> 's counted routeEntry list \<Rightarrow> 's writer \<Rightarrow> request \<Rightarrow> 's counted \<Rightarrow> request \<times> 's counted" where
  "upstream_handle u routes w r x =
     (let cw = on_fst w; x = DisableResponseBuffering cw x in
      if req_RequestURI r = ''*'' then (r, HTTPError cw r ''Connection upgrade not allowed'' 400 x)
      else if req_Method r = ''CONNECT'' then (r, HTTPError cw r ''CONNECT not allowed'' 400 x)
      else
        let URIPath = CleanURIPath (url_Path (req_URL r)); pre = URLPrefix u in
        if \<not> Match pre URIPath then (r, HTTPError cw r (''Not found '' @ Quote URIPath) 404 x)
        else (case find_route routes (Strip pre URIPath) r of
           None \<Rightarrow> (r, HTTPError cw r ''Forbidden'' 403 x)
         | Some ro \<Rightarrow>
             let r = r\<lparr>req_Header := Header_Dels (req_Header r) requestHeaderBlacklist\<rparr>
             in (r, ro_handler ro r x)))"

definition upstream_ServeHTTP :: "upstream_env \<Rightarrow> upstream \<Rightarrow> 's stats app \<Rightarrow> 's writer \<Rightarrow> request \<Rightarrow> 's counted \<Rightarrow>
    's counted \<times> access_log" where
  "upstream_ServeHTTP env u a ow r x =
     (let r = r\<lparr>req_RemoteAddr := env_GetRemoteAddr env r\<rparr>;
          w = stats_writer ow;
          (r, l, c) = upstream_handle u (configureRoutes env u a w) w r (NewStatsCollectingResponseWriter (fst x), snd x)
      in ((l_rw l, c), accessLogFields l r))"

section \<open>Lemmas on the table\<close>

text \<open>Whether an entry matches does not depend on its handler.\<close>

definition entry_match :: "string \<Rightarrow> regexp option \<Rightarrow> (request \<Rightarrow> bool) list \<Rightarrow> string \<Rightarrow> request \<Rightarrow> bool" where
  "entry_match meth re ms p r \<longleftrightarrow> (meth = [] \<or> req_Method r = meth) \<and>
     (case re of None \<Rightarrow> True | Some re \<Rightarrow> MatchString re p) \<and> (\<forall>m \<in> set ms. m r)"

lemma isMatch_iff: "isMatch ro p r \<longleftrightarrow> entry_match (ro_method ro) (ro_regex ro) (ro_matchers ro) p r"
  by (auto simp: isMatch_def entry_match_def list_all_iff split: option.splits)

lemma isMatch_route [simp]: "isMatch (route w meth re h ms) p r \<longleftrightarrow> entry_match meth re ms p r"
  by (simp add: isMatch_iff route_def)

lemma find_route_Some: "find_route routes p r = Some ro \<Longrightarrow> ro \<in> set routes \<and> isMatch ro p r"
  unfolding find_route_def find_Some_iff by auto

lemma find_route_append:
  "find_route (xs @ ys) p r = (case find_route xs p r of None \<Rightarrow> find_route ys p r | Some ro \<Rightarrow> Some ro)"
  by (induction xs) (auto simp: find_route_def)

lemma find_route_None: "find_route routes p r = None \<longleftrightarrow> (\<forall>ro \<in> set routes. \<not> isMatch ro p r)"
  by (auto simp: find_route_def find_None_iff)

lemma MatchString_anywhere_literal: "MatchString \<lparr>re_body = literal t, re_end = False\<rparr> p \<longleftrightarrow> HasPrefix p t"
  by (simp add: MatchString_def match_start_lang HasPrefix_iff)

lemma routes_total: "find_route (configureRoutes env u a w) p r \<noteq> None"
  unfolding find_route_None by (simp add: configureRoutes_def Let_def entry_match_def)

lemma routes_handlers:
  "ro \<in> set (configureRoutes env u a w) \<Longrightarrow>
   (\<exists>h. ro_handler ro = denyWebsocket (on_fst w) h) \<or> ro_handler ro = lift_handler (app_terminal a)"
  by (auto simp: configureRoutes_def Let_def route_def wsRoute_def)

lemma routes_matchers:
  "ro \<in> set (configureRoutes env u a w) \<Longrightarrow> m \<in> set (ro_matchers ro) \<Longrightarrow>
   m = IsWebSocketUpgrade \<or> (\<exists>t. m = isContentType t)"
  by (auto simp: configureRoutes_def Let_def route_def wsRoute_def)

lemma HTTPError_request: "req_ProtoMajor r = req_ProtoMajor r' \<Longrightarrow> req_ProtoMinor r = req_ProtoMinor r' \<Longrightarrow>
    HTTPError w r m c = HTTPError w r' m c"
  by (rule ext) (simp add: HTTPError_def ProtoAtLeast_def)

section \<open>Properties of routing\<close>

text \<open>A websocket upgrade reaches the terminal handler or nothing: every other outcome is an error response with
  status 400 or 404, whatever the other handlers do.\<close>

theorem websocket_only_terminal:
  assumes "IsWebSocketUpgrade r"
  shows "let res = snd (upstream_handle u (configureRoutes env u a w) w r x); y = DisableResponseBuffering (on_fst w) x in
    res = lift_handler (app_terminal a) (r\<lparr>req_Header := Header_Dels (req_Header r) requestHeaderBlacklist\<rparr>) y \<or>
    (\<exists>msg. \<exists>code \<in> {400, 404}. res = HTTPError (on_fst w) r msg code y)"
proof -
  let ?r = "r\<lparr>req_Header := Header_Dels (req_Header r) requestHeaderBlacklist\<rparr>"
  let ?y = "DisableResponseBuffering (on_fst w) x"
  have ws: "IsWebSocketUpgrade ?r"
    using assms by (simp add: IsWebSocketUpgrade_def tokenListContainsValue_def Header_Dels_def requestHeaderBlacklist_def
        RewrittenFieldsHeader_def Header_values_Del)
  have err: "HTTPError (on_fst w) ?r m c = HTTPError (on_fst w) r m c" for m c by (rule HTTPError_request) simp_all
  obtain ro where ro: "find_route (configureRoutes env u a w) (Strip (URLPrefix u) (CleanURIPath (url_Path (req_URL r)))) r = Some ro"
    using routes_total by blast
  have "ro_handler ro ?r ?y = lift_handler (app_terminal a) ?r ?y \<or>
      ro_handler ro ?r ?y = HTTPError (on_fst w) r ''websocket upgrade not allowed'' 400 ?y"
    using routes_handlers [OF find_route_Some [OF ro, THEN conjunct1]] ws by (auto simp: denyWebsocket_def err)
  then show ?thesis unfolding upstream_handle_def Let_def ro by (auto simp del: not_None_eq)
qed

definition sample_app :: "net_resp app" where
  "sample_app = \<lparr>app_proxy = (\<lambda>_. w_WriteHeader net_writer 201), app_proxy_errorPage = (\<lambda>_ e. e),
     app_uploadAccelerateProxy = (\<lambda>_. w_WriteHeader net_writer 202), app_uploadAccelerateProxy_errorPage = (\<lambda>_ e. e),
     app_GetInfoRefsHandler = (\<lambda>_ s. s), app_UploadPack = (\<lambda>_ s. s), app_ReceivePack = (\<lambda>_ s. s), app_PutStore = (\<lambda>_ s. s),
     app_UploadArtifacts = (\<lambda>_ s. s), app_terminal = (\<lambda>_ s. s), app_ciAPILongPolling = (\<lambda>_ s. s),
     app_BodyUploader = (\<lambda>_ s. s), app_Accelerate = (\<lambda>_ s. s)\<rparr>"

definition sample_env :: upstream_env where
  "sample_env = \<lparr>env_fs = sample_fs, env_serveContent = plain_content, env_cacheUntil = [], env_gunzip = Inr,
     env_GetRemoteAddr = req_RemoteAddr\<rparr>"

definition sample_upstream :: upstream where
  "sample_upstream = \<lparr>DocumentRoot = ''/srv/public'', DevelopmentMode = False, URLPrefix = ''/''\<rparr>"

definition upgrade_request :: request where
  "upgrade_request = sample_request\<lparr>req_Header := [(''Connection'', [''keep-alive, Upgrade'']), (''Upgrade'', [''WebSocket''])]\<rparr>"

theorem websocket_only_terminal_witness:
  "let res = snd (upstream_handle sample_upstream (configureRoutes sample_env sample_upstream sample_app net_writer) net_writer
       upgrade_request (new_response, \<lambda>_. 0));
     y = DisableResponseBuffering (on_fst net_writer) (new_response, \<lambda>_. 0) in
   res = lift_handler (app_terminal sample_app)
     (upgrade_request\<lparr>req_Header := Header_Dels (req_Header upgrade_request) requestHeaderBlacklist\<rparr>) y \<or>
   (\<exists>msg. \<exists>code \<in> {400, 404}. res = HTTPError (on_fst net_writer) upgrade_request msg code y)"
proof -
  have "IsWebSocketUpgrade upgrade_request" by code_simp
  then show ?thesis by (rule websocket_only_terminal)
qed

text \<open>C31. The header that vouches for rewritten multipart fields cannot be forged: no response depends on whether the
  client sent it.\<close>

theorem forged_header_ignored:
  "snd (upstream_handle u (configureRoutes env u a w) w (r\<lparr>req_Header := Header_Del (req_Header r) RewrittenFieldsHeader\<rparr>) x) =
   snd (upstream_handle u (configureRoutes env u a w) w r x)"
proof -
  let ?r = "r\<lparr>req_Header := Header_Del (req_Header r) RewrittenFieldsHeader\<rparr>"
  have "m ?r = m r" if "ro \<in> set (configureRoutes env u a w)" "m \<in> set (ro_matchers ro)" for ro m
    using routes_matchers [OF that]
    by (auto simp: isContentType_def IsWebSocketUpgrade_def tokenListContainsValue_def RewrittenFieldsHeader_def
        Header_values_Del Header_Get_Del)
  then have "isMatch ro p ?r = isMatch ro p r" if "ro \<in> set (configureRoutes env u a w)" for ro p
    using that by (auto simp: isMatch_iff entry_match_def)
  then have "find_route (configureRoutes env u a w) p ?r = find_route (configureRoutes env u a w) p r" for p
    unfolding find_route_def by (intro find_cong) auto
  moreover have "HTTPError (on_fst w) ?r m c = HTTPError (on_fst w) r m c" for m c by (rule HTTPError_request) simp_all
  moreover have "Header_Dels (req_Header ?r) requestHeaderBlacklist = Header_Dels (req_Header r) requestHeaderBlacklist"
    by (simp add: Header_Dels_def requestHeaderBlacklist_def Header_Del_def delete_idem)
  ultimately show ?thesis unfolding upstream_handle_def Let_def by (simp split: option.split)
qed

section \<open>User uploads\<close>

text \<open>The names of files in \<open>uploads\<close> below the document root, at any depth.\<close>

definition upload_name :: "string \<Rightarrow> string \<Rightarrow> bool" where
  "upload_name root f \<longleftrightarrow> (\<exists>cs. cs \<noteq> [] \<and> (\<forall>c \<in> set cs. plain_elem c) \<and> f = dir_path root (''uploads'' # cs))"

lemma plain_uploads: "plain_elem ''uploads''" "plain_elem ''index.html''"
  by (simp_all add: plain_elem_def)

lemma upload_name_entry:
  assumes "upload_name root (dir_path root cs)" "\<forall>c \<in> set cs. plain_elem c"
  shows "\<exists>e es. cs = ''uploads'' # e # es"
proof -
  obtain ds where ds: "ds \<noteq> []" "\<forall>c \<in> set ds. plain_elem c" "dir_path root cs = dir_path root (''uploads'' # ds)"
    using assms(1) by (auto simp: upload_name_def)
  then have "cs = ''uploads'' # ds" using dir_path_inject [OF assms(2) _ ds(3)] plain_uploads by simp
  then show ?thesis using ds(1) by (cases ds) auto
qed

lemma upload_name_gz:
  assumes "upload_name root (dir_path root cs @ ''.gz'')" "\<forall>c \<in> set cs. plain_elem c"
  shows "\<exists>e es. cs = ''uploads'' # e # es"
proof (cases cs rule: rev_cases)
  case Nil
  then show ?thesis using assms(1) by (auto simp: upload_name_def dir_path_def neq_Nil_conv split: if_splits)
next
  case (snoc bs b)
  have "Join (bs @ [b]) ''/'' @ ''.gz'' = Join (bs @ [b @ ''.gz'']) ''/''"
    by (cases "bs = []") (simp_all add: Join_append)
  then have "dir_path root cs @ ''.gz'' = dir_path root (bs @ [b @ ''.gz''])" by (auto simp: dir_path_def snoc)
  moreover have "\<forall>c \<in> set (bs @ [b @ ''.gz'']). plain_elem c"
    using assms(2) by (auto simp: snoc plain_elem_def append_eq_Cons_conv)
  ultimately obtain e es where "bs @ [b @ ''.gz''] = ''uploads'' # e # es"
    using assms(1) upload_name_entry by metis
  then show ?thesis by (cases bs) (auto simp: snoc neq_Nil_conv append_eq_Cons_conv)
qed

lemma uploads_routed:
  assumes "\<forall>c \<in> set P. plain_elem c" "''uploads'' \<notin> set P" "Match (url_prefix P) (CleanURIPath p)"
    and "clean_elems True (TrimPrefix p (url_prefix P)) = ''uploads'' # e # es"
  shows "HasPrefix (Strip (url_prefix P) (CleanURIPath p)) ''/uploads/''"
proof -
  let ?q = "TrimPrefix (CleanURIPath p) (url_prefix P)"
  obtain Q where "set Q \<subseteq> set P" "''uploads'' # e # es = Q @ clean_elems True ?q"
    using strip_raw_cleaned [OF assms(1,3)] assms(2,4) by auto
  then have "clean_elems True ?q = ''uploads'' # e # es" using assms(2) by (cases Q) auto
  then show ?thesis by (simp add: Strip_def CleanURIPath_elems)
qed

lemma uploads_not_assets: "HasPrefix p ''/uploads/'' \<Longrightarrow> \<not> HasPrefix p ''/assets/''"
  by (auto simp: HasPrefix_iff)

text \<open>Two tables that differ in how they serve static files.\<close>

lemma find_route_static:
  assumes "list_all2 (\<lambda>ro ro'. isMatch ro p r = isMatch ro' p r \<and> (isMatch ro p r \<longrightarrow> ro_handler ro r' x = ro_handler ro' r' x)) xs ys"
  shows "map_option (\<lambda>ro. ro_handler ro r' x) (find_route xs p r) = map_option (\<lambda>ro. ro_handler ro r' x) (find_route ys p r)"
  using assms by (induction rule: list_all2_induct) (auto simp: find_route_def)

lemma errorPage_Flush_fs: "errorPage_Flush fs w e = errorPage_Flush fs' w e"
  by (simp add: errorPage_Flush_def errorPage_WriteHeader_def has_error_page_def)

lemma ErrorPagesUnless_fs: "ErrorPagesUnless dis fs root w plain wrapped = ErrorPagesUnless dis fs' root w plain wrapped"
  by (intro ext) (simp add: ErrorPagesUnless_def errorPage_Flush_fs [of fs w _ fs'])

lemma DeployPage_fs:
  assumes "Clean root = root" "root \<noteq> ''.''" "\<forall>f. \<not> upload_name root f \<longrightarrow> fs f = fs' f"
  shows "DeployPage w fs root h = DeployPage w fs' root h"
proof -
  have index: "CleanURIPath ''index.html'' = ''/index.html''" "clean_elems True ''index.html'' = [''index.html'']"
    by code_simp+
  have ne: "root \<noteq> []" using assms(1) by (auto simp: Clean_def)
  have "path_Join [root, ''index.html''] = dir_path root [''index.html'']"
    unfolding Join_entry [OF ne, of "''index.html''"] using Join_below_root [OF assms(1,2), of "''index.html''"]
    unfolding index .
  then have "fs (path_Join [root, ''index.html'']) = fs' (path_Join [root, ''index.html''])"
    using upload_name_entry [of root "[''index.html'']"] assms(3) plain_uploads by auto
  then show ?thesis by (intro ext) (simp add: DeployPage_def ReadFile_def)
qed

text \<open>A static file handler does not see \<open>uploads\<close> for a path the router does not take there.\<close>

lemma ServeExisting_skips_uploads:
  assumes "Clean root = root" "root \<noteq> ''.''" "\<forall>f. \<not> upload_name root f \<longrightarrow> fs f = fs' f"
    and "\<forall>c \<in> set P. plain_elem c" "''uploads'' \<notin> set P" "Match (url_prefix P) (CleanURIPath (url_Path (req_URL r)))"
    and "\<not> HasPrefix (Strip (url_prefix P) (CleanURIPath (url_Path (req_URL r)))) ''/uploads/''"
    and "url_Path (req_URL r') = url_Path (req_URL r)"
  shows "ServeExisting sc exp w fs root (url_prefix P) cache nf r' s = ServeExisting sc exp w fs' root (url_prefix P) cache nf r' s"
proof -
  let ?cs = "clean_elems True (TrimPrefix (url_Path (req_URL r')) (url_prefix P))"
  have "\<nexists>e es. ?cs = ''uploads'' # e # es" using uploads_routed [OF assms(4-6)] assms(7,8) by metis
  then have "\<not> upload_name root (dir_path root ?cs)" "\<not> upload_name root (dir_path root ?cs @ ''.gz'')"
    using upload_name_entry upload_name_gz clean_elems_plain by blast+
  then show ?thesis using assms(3) by (intro ServeExisting_reads [OF assms(1,2)]) auto
qed

text \<open>C29. Uploads of users below the document root cannot be fetched as static files: no response to any request
  depends on a file in \<open>uploads\<close>, provided the document root is clean and no element of the relative
  URL root is called \<open>uploads\<close>.\<close>

theorem uploads_protected:
  assumes "Clean (DocumentRoot u) = DocumentRoot u" "DocumentRoot u \<noteq> ''.''"
    and "URLPrefix u = url_prefix P" "\<forall>c \<in> set P. plain_elem c" "''uploads'' \<notin> set P"
    and "\<forall>f. \<not> upload_name (DocumentRoot u) f \<longrightarrow> fs f = fs' f"
  shows "upstream_handle u (configureRoutes (env\<lparr>env_fs := fs\<rparr>) u a w) w r x =
         upstream_handle u (configureRoutes (env\<lparr>env_fs := fs'\<rparr>) u a w) w r x"
proof -
  let ?p = "Strip (URLPrefix u) (CleanURIPath (url_Path (req_URL r)))"
  let ?r = "r\<lparr>req_Header := Header_Dels (req_Header r) requestHeaderBlacklist\<rparr>"
  let ?y = "DisableResponseBuffering (on_fst w) x"
  let ?t = "\<lambda>fs. configureRoutes (env\<lparr>env_fs := fs\<rparr>) u a w"
  have len0: "?t fs \<noteq> []" for fs by (simp add: configureRoutes_def Let_def)
  have serve: "ServeExisting sc exp (on_fst w) fs (DocumentRoot u) (URLPrefix u) cache nf ?r y =
      ServeExisting sc exp (on_fst w) fs' (DocumentRoot u) (URLPrefix u) cache nf ?r y"
    if "Match (URLPrefix u) (CleanURIPath (url_Path (req_URL r)))" "\<not> HasPrefix ?p ''/uploads/''"
    for sc exp cache nf y
    using that unfolding assms(3) by (intro ServeExisting_skips_uploads [OF assms(1,2,6,4,5)]) simp_all
  have "map_option (\<lambda>ro. ro_handler ro ?r ?y) (find_route (?t fs) ?p r) = map_option (\<lambda>ro. ro_handler ro ?r ?y) (find_route (?t fs') ?p r)"
    if m: "Match (URLPrefix u) (CleanURIPath (url_Path (req_URL r)))"
  proof (cases "HasPrefix ?p ''/uploads/''")
    case True
    have all: "list_all2 (\<lambda>ro ro'. isMatch ro ?p r = isMatch ro' ?p r \<and> (isMatch ro ?p r \<longrightarrow> ro_handler ro ?r ?y = ro_handler ro' ?r ?y))
        (butlast (?t fs)) (butlast (?t fs'))"
      using uploads_not_assets [OF True]
      by (simp add: configureRoutes_def Let_def route_def wsRoute_def isMatch_iff ErrorPagesUnless_fs [of _ fs _ _ _ _ fs']
          entry_match_def anywhere_def MatchString_anywhere_literal)
    have some: "find_route (butlast (?t fs)) ?p r \<noteq> None" for fs
      unfolding find_route_None using True
      by (simp add: configureRoutes_def Let_def entry_match_def anywhere_def MatchString_anywhere_literal)
    have "find_route (butlast (?t fs)) ?p r = find_route (?t fs) ?p r" for fs
      using some [of fs] append_butlast_last_id [of "?t fs"] find_route_append [of "butlast (?t fs)" "[last (?t fs)]" ?p r] len0 [of fs]
      by (auto split: option.splits)
    then show ?thesis using find_route_static [OF all] by simp
  next
    case False
    have "list_all2 (\<lambda>ro ro'. isMatch ro ?p r = isMatch ro' ?p r \<and> (isMatch ro ?p r \<longrightarrow> ro_handler ro ?r ?y = ro_handler ro' ?r ?y)) (?t fs) (?t fs')"
      using serve [OF m False]
      by (simp add: configureRoutes_def Let_def route_def wsRoute_def isMatch_iff ErrorPagesUnless_fs [of _ fs _ _ _ _ fs']
          DeployPage_fs [OF assms(1,2,6)] denyWebsocket_def)
    then show ?thesis by (rule find_route_static)
  qed
  then show ?thesis unfolding upstream_handle_def Let_def
    by (auto split: option.splits)
qed

theorem uploads_protected_witness:
  "let r = sample_request\<lparr>req_URL := \<lparr>url_Scheme = [], url_Host = [], url_Path = ''//x/../uploads/secret'', url_RawQuery = []\<rparr>\<rparr>;
     t = (\<lambda>fs. configureRoutes (sample_env\<lparr>env_fs := fs\<rparr>) sample_upstream sample_app net_writer) in
   upstream_handle sample_upstream (t sample_fs) net_writer r (new_response, \<lambda>_. 0) =
   upstream_handle sample_upstream (t (sample_fs(''/srv/public/uploads/secret'' \<mapsto> File ''secret'' 7))) net_writer r (new_response, \<lambda>_. 0)"
proof -
  have root: "Clean (DocumentRoot sample_upstream) = DocumentRoot sample_upstream" "DocumentRoot sample_upstream \<noteq> ''.''"
    by code_simp+
  have "upload_name (DocumentRoot sample_upstream) ''/srv/public/uploads/secret''"
    unfolding upload_name_def
    by (intro exI [of _ "[''secret'']"]) (simp add: sample_upstream_def dir_path_def plain_elem_def)
  then have "\<forall>f. \<not> upload_name (DocumentRoot sample_upstream) f \<longrightarrow>
      sample_fs f = (sample_fs(''/srv/public/uploads/secret'' \<mapsto> File ''secret'' 7)) f" by auto
  then show ?thesis unfolding Let_def
    by (intro uploads_protected [OF root, where P = "[]"]) (simp_all add: sample_upstream_def url_prefix_def)
qed

text \<open>The condition on the relative URL root matters: with \<open>/uploads\<close> as relative root, the router strips one
  \<open>uploads\<close> from the cleaned path and the file handler another from the raw one, and the upload is
  sent to anyone.\<close>

theorem uploads_exposed:
  "o_body (n_out (fst (snd (upstream_handle (sample_upstream\<lparr>URLPrefix := configureURLPrefix ''/uploads''\<rparr>)
     (configureRoutes (sample_env\<lparr>env_fs := [''/srv/public/uploads/secret'' \<mapsto> File ''secret'' 7]\<rparr>)
        (sample_upstream\<lparr>URLPrefix := configureURLPrefix ''/uploads''\<rparr>) sample_app net_writer) net_writer
     (sample_request\<lparr>req_URL := \<lparr>url_Scheme = [], url_Host = [], url_Path = ''/uploads/../uploads/secret'', url_RawQuery = []\<rparr>\<rparr>)
     (new_response, \<lambda>_. 0))))) = ''secret''"
  by code_simp

section \<open>Git paths\<close>

text \<open>\<open>/namespace/.../project.git/service\<close>, with at least one namespace.\<close>

definition git_path :: "string set \<Rightarrow> string \<Rightarrow> bool" where
  "git_path services p \<longleftrightarrow> (\<exists>ns project service. ns \<noteq> [] \<and> (\<forall>n \<in> set (project # ns). n \<noteq> [] \<and> CHR ''/'' \<notin> set n) \<and>
     service \<in> services \<and> p = url_prefix ns @ project @ ''.git/'' @ service)"

lemma lang_names: "lang (rx_plus (Seq (rx_plus not_slash) (literal ''/''))) =
    {concat (map (\<lambda>n. n @ ''/'') ns) | ns. ns \<noteq> [] \<and> (\<forall>n \<in> set ns. n \<noteq> [] \<and> CHR ''/'' \<notin> set n)}"
proof -
  have "lang (Seq (rx_plus not_slash) (literal ''/'')) = (\<lambda>n. n @ ''/'') ` {s. s \<noteq> [] \<and> CHR ''/'' \<notin> set s}"
    by (auto simp: lang_plus_not_slash)
  from lang_plus_image [OF this] show ?thesis by (simp only: subset_eq mem_Collect_eq)
qed

lemma lang_git: "s \<in> lang (Seq gitProjectPattern rest) \<longleftrightarrow> git_path (lang rest) s"
proof
  assume "s \<in> lang (Seq gitProjectPattern rest)"
  then obtain names project service where *: "names \<in> lang (rx_plus (Seq (rx_plus not_slash) (literal ''/'')))"
    "project \<in> lang (rx_plus not_slash)" "service \<in> lang rest" "s = (''/'' @ names @ project @ ''.git/'') @ service"
    by (auto simp: gitProjectPattern_def mem_Seq simp del: lang.simps lang_Seq_literal)
  from *(1) obtain ns where "names = concat (map (\<lambda>n. n @ ''/'') ns)" "ns \<noteq> []" "\<forall>n \<in> set ns. n \<noteq> [] \<and> CHR ''/'' \<notin> set n"
    unfolding lang_names by blast
  with *(2-4) [unfolded lang_plus_not_slash] show "git_path (lang rest) s"
    unfolding git_path_def url_prefix_def by (intro exI [of _ ns] exI [of _ project] exI [of _ service]) simp
next
  assume "git_path (lang rest) s"
  then obtain ns project service where *: "ns \<noteq> []" "\<forall>n \<in> set (project # ns). n \<noteq> [] \<and> CHR ''/'' \<notin> set n" "service \<in> lang rest"
    "s = url_prefix ns @ project @ ''.git/'' @ service"
    unfolding git_path_def by blast
  let ?names = "concat (map (\<lambda>n. n @ ''/'') ns)"
  have "?names \<in> lang (rx_plus (Seq (rx_plus not_slash) (literal ''/'')))" "project \<in> lang (rx_plus not_slash)"
    unfolding lang_names lang_plus_not_slash using * by auto
  then have "''/'' @ ?names @ project @ ''.git/'' \<in> lang gitProjectPattern"
    unfolding gitProjectPattern_def by (intro in_Seq) (simp_all only: lang_literal singletonI)
  from in_Seq [OF this *(3)] show "s \<in> lang (Seq gitProjectPattern rest)"
    using *(4) by (simp add: url_prefix_def del: lang.simps)
qed

lemma lang_digits: "lang (rx_plus digit) = {s. s \<noteq> [] \<and> (\<forall>c \<in> set s. is_digit c)}"
proof -
  have "lang digit = {[c] | c. c \<in> {c. is_digit c}}" by (auto simp: digit_def in_ranges_def is_digit_def)
  from lang_plus_class [OF this] show ?thesis by auto
qed

definition is_hex :: "char \<Rightarrow> bool" where
  "is_hex c \<longleftrightarrow> is_digit c \<or> 97 \<le> (of_char c :: nat) \<and> of_char c \<le> (102 :: nat)"

lemma lang_hex: "lang (rx_times n hex_digit) = {s. length s = n \<and> (\<forall>c \<in> set s. is_hex c)}"
proof -
  have "lang hex_digit = {[c] | c. c \<in> {c. is_hex c}}"
    by (auto simp: hex_digit_def in_ranges_def is_digit_def is_hex_def)
  from lang_times_class [OF this] show ?thesis by auto
qed

text \<open>C34. The four Git routes, which come first in the table, are taken by exactly the paths they are meant for: the
  project path ends in \<open>.git\<close> below at least one namespace, and what follows is the service; for LFS it is
  an object identifier of 64 hexadecimal digits and a size.\<close>

theorem git_routes_exact:
  "let routes = configureRoutes env u a w in
   (isMatch (routes ! 0) p r \<longleftrightarrow> req_Method r = ''GET'' \<and> git_path {''info/refs''} p) \<and>
   (isMatch (routes ! 1) p r \<longleftrightarrow> req_Method r = ''POST'' \<and> git_path {''git-upload-pack''} p \<and>
      isContentType ''application/x-git-upload-pack-request'' r) \<and>
   (isMatch (routes ! 2) p r \<longleftrightarrow> req_Method r = ''POST'' \<and> git_path {''git-receive-pack''} p \<and>
      isContentType ''application/x-git-receive-pack-request'' r) \<and>
   (isMatch (routes ! 3) p r \<longleftrightarrow> req_Method r = ''PUT'' \<and>
      git_path {''gitlab-lfs/objects/'' @ oid @ ''/'' @ sz | oid sz. length oid = 64 \<and> (\<forall>c \<in> set oid. is_hex c) \<and>
        sz \<noteq> [] \<and> (\<forall>c \<in> set sz. is_digit c)} p \<and> isContentType ''application/octet-stream'' r)"
proof -
  have lfs: "lang (Seq (literal ''gitlab-lfs/objects/'') (Seq (rx_times 64 hex_digit) (Seq (literal ''/'') (rx_plus digit)))) =
      {''gitlab-lfs/objects/'' @ oid @ ''/'' @ sz | oid sz. length oid = 64 \<and> (\<forall>c \<in> set oid. is_hex c) \<and>
        sz \<noteq> [] \<and> (\<forall>c \<in> set sz. is_digit c)}"
    unfolding lang.simps(4) lang_hex lang_digits lang_literal by blast
  have all: "MatchString \<lparr>re_body = Seq gitProjectPattern rest, re_end = True\<rparr> p \<longleftrightarrow> git_path (lang rest) p" for rest
    by (simp add: MatchString_def match_all_lang lang_git del: lang.simps)
  show ?thesis
    unfolding configureRoutes_def Let_def
    by (simp add: entry_match_def until_def all lfs del: lang.simps(4) lang_Seq_literal)
qed

theorem git_routes_exact_witness:
  "isMatch (configureRoutes sample_env sample_upstream sample_app net_writer ! 0) ''/group/project.git/info/refs'' sample_request"
proof -
  have "git_path {''info/refs''} ''/group/project.git/info/refs''"
    unfolding git_path_def by (intro exI [of _ "[''group'']"] exI [of _ "''project''"] exI [of _ "''info/refs''"])
      (simp add: url_prefix_def)
  moreover have "req_Method sample_request = ''GET''" by (simp add: sample_request_def)
  ultimately show ?thesis
    using git_routes_exact [of sample_env sample_upstream sample_app net_writer "''/group/project.git/info/refs''" sample_request]
    unfolding Let_def by blast
qed

end
