(* ===== verification/Queueing.thy ===== *)
theory Queueing
  imports Channel Helper Complex_Main
begin

text \<open>
  The package \<open>internal/queueing\<close>: the bounded queue in front of the CI API
  (\<open>queue.go\<close>) and the handler that uses it (\<open>requests.go\<close>).

  \<open>Acquire\<close> and \<open>Release\<close> block and run in one goroutine per request, so each is cut at
  its channel operations: one definition per piece, together with the bookkeeping of the
  metrics that follows it, and \<open>queue_step\<close> interleaves the pieces of any number of requests.
  The phase of a request is the point of the code it has reached. Time is an integer argument.
\<close>

section \<open>Queue and metrics\<close>

record queueMetrics =
  queueingLimit :: nat
  queueingQueueLimit :: nat
  queueingQueueTimeout :: int
  queueingBusy :: int
  queueingWaiting :: int
  queueingWaitingTime :: "int list"
  queueingErrors :: "string \<Rightarrow> nat"
  waitingTimeBuckets :: "rat list"

definition newQueueMetrics :: "string \<Rightarrow> int \<Rightarrow> queueMetrics" where
  "newQueueMetrics name timeout =
     (let seconds = rat_of_int timeout / 1000000000 in
      \<lparr>queueingLimit = 0, queueingQueueLimit = 0, queueingQueueTimeout = 0, queueingBusy = 0,
       queueingWaiting = 0, queueingWaitingTime = [], queueingErrors = (\<lambda>_. 0),
       waitingTimeBuckets =
         [seconds * (1 / 100), seconds * (5 / 100), seconds * (10 / 100), seconds * (25 / 100),
          seconds * (50 / 100), seconds * (75 / 100), seconds * (90 / 100), seconds * (95 / 100),
          seconds * (99 / 100), seconds]\<rparr>)"

record Queue =
  q_metrics :: queueMetrics
  q_name :: string
  busyCh :: "unit chan"
  waitingCh :: "int chan"
  q_timeout :: int

definition newQueue :: "string \<Rightarrow> nat \<Rightarrow> nat \<Rightarrow> int \<Rightarrow> Queue" where
  "newQueue name limit queueLimit timeout =
     \<lparr>q_metrics = (newQueueMetrics name timeout)\<lparr>queueingLimit := limit,
        queueingQueueLimit := queueLimit, queueingQueueTimeout := timeout\<rparr>,
      q_name = name, busyCh = make_chan limit, waitingCh = make_chan (limit + queueLimit),
      q_timeout = timeout\<rparr>"

definition count_error :: "string \<Rightarrow> Queue \<Rightarrow> Queue" where
  "count_error label q = q\<lparr>q_metrics := (q_metrics q)\<lparr>queueingErrors :=
     (queueingErrors (q_metrics q))(label := Suc (queueingErrors (q_metrics q) label))\<rparr>\<rparr>"

section \<open>Acquire and Release, piece by piece\<close>

text \<open>The non-blocking push to \<open>waitingCh\<close> that claims a slot.\<close>

definition acquire_claim :: "int \<Rightarrow> Queue \<Rightarrow> Queue \<times> gerror option" where
  "acquire_claim now q =
     (case ch_send now (waitingCh q) of
        Some c \<Rightarrow> (q\<lparr>waitingCh := c, q_metrics := (q_metrics q)\<lparr>queueingWaiting :=
            queueingWaiting (q_metrics q) + 1\<rparr>\<rparr>, None)
      | None \<Rightarrow> (count_error ''too_many_requests'' q, Some ErrTooManyRequests))"

text \<open>The push to \<open>busyCh\<close>, on the fast path and in the blocking \<open>select\<close>.\<close>

definition acquire_busy :: "Queue \<Rightarrow> Queue option" where
  "acquire_busy q =
     (case ch_send () (busyCh q) of
        Some c \<Rightarrow> Some (q\<lparr>busyCh := c, q_metrics := (q_metrics q)\<lparr>queueingBusy :=
            queueingBusy (q_metrics q) + 1\<rparr>\<rparr>)
      | None \<Rightarrow> None)"

text \<open>The timer fires: the error is counted, and the deferred function runs after it.\<close>

definition acquire_timedout :: "Queue \<Rightarrow> Queue \<times> gerror" where
  "acquire_timedout q = (count_error ''queueing_timedout'' q, ErrQueueingTimedout)"

text \<open>
  Giving the slot of \<open>waitingCh\<close> back: the deferred function of \<open>Acquire\<close> on an error, and
  the first half of \<open>Release\<close>. \<open>None\<close>: the receive blocks.
\<close>

definition dequeue_waiting :: "int \<Rightarrow> Queue \<Rightarrow> Queue option" where
  "dequeue_waiting now q =
     (case ch_recv (waitingCh q) of
        Some (waitStarted, c) \<Rightarrow> Some (q\<lparr>waitingCh := c, q_metrics := (q_metrics q)\<lparr>
            queueingWaiting := queueingWaiting (q_metrics q) - 1,
            queueingWaitingTime := queueingWaitingTime (q_metrics q) @ [now - waitStarted]\<rparr>\<rparr>)
      | None \<Rightarrow> None)"

definition release_busy :: "Queue \<Rightarrow> Queue option" where
  "release_busy q =
     (case ch_recv (busyCh q) of
        Some (_, c) \<Rightarrow> Some (q\<lparr>busyCh := c, q_metrics := (q_metrics q)\<lparr>queueingBusy :=
            queueingBusy (q_metrics q) - 1\<rparr>\<rparr>)
      | None \<Rightarrow> None)"

section \<open>Requests in flight\<close>

datatype phase =
    Outside
  | Claimed    \<comment> \<open>has a slot in \<open>waitingCh\<close>, tries the fast path next\<close>
  | Blocked    \<comment> \<open>in the blocking \<open>select\<close>\<close>
  | TimedOut   \<comment> \<open>the timer won, the deferred function is still to run\<close>
  | Serving    \<comment> \<open>\<open>Acquire\<close> returned \<open>nil\<close>, the handler runs\<close>
  | Releasing  \<comment> \<open>between the two receives of \<open>Release\<close>\<close>

record qsys =
  sq :: Queue
  phases :: "nat \<Rightarrow> phase"

inductive queue_step :: "qsys \<Rightarrow> qsys \<Rightarrow> bool" where
  claim: "phases s i = Outside \<Longrightarrow> acquire_claim now (sq s) = (q, None) \<Longrightarrow>
    queue_step s (s\<lparr>sq := q, phases := (phases s)(i := Claimed)\<rparr>)"
| reject: "phases s i = Outside \<Longrightarrow> acquire_claim now (sq s) = (q, Some e) \<Longrightarrow>
    queue_step s (s\<lparr>sq := q\<rparr>)"
| fast: "phases s i = Claimed \<Longrightarrow> acquire_busy (sq s) = Some q \<Longrightarrow>
    queue_step s (s\<lparr>sq := q, phases := (phases s)(i := Serving)\<rparr>)"
| slow: "phases s i = Claimed \<Longrightarrow> acquire_busy (sq s) = None \<Longrightarrow>
    queue_step s (s\<lparr>phases := (phases s)(i := Blocked)\<rparr>)"
| unblock: "phases s i = Blocked \<Longrightarrow> acquire_busy (sq s) = Some q \<Longrightarrow>
    queue_step s (s\<lparr>sq := q, phases := (phases s)(i := Serving)\<rparr>)"
| timeout: "phases s i = Blocked \<Longrightarrow> acquire_timedout (sq s) = (q, e) \<Longrightarrow>
    queue_step s (s\<lparr>sq := q, phases := (phases s)(i := TimedOut)\<rparr>)"
| give_up: "phases s i = TimedOut \<Longrightarrow> dequeue_waiting now (sq s) = Some q \<Longrightarrow>
    queue_step s (s\<lparr>sq := q, phases := (phases s)(i := Outside)\<rparr>)"
| release: "phases s i = Serving \<Longrightarrow> dequeue_waiting now (sq s) = Some q \<Longrightarrow>
    queue_step s (s\<lparr>sq := q, phases := (phases s)(i := Releasing)\<rparr>)"
| released: "phases s i = Releasing \<Longrightarrow> release_busy (sq s) = Some q \<Longrightarrow>
    queue_step s (s\<lparr>sq := q, phases := (phases s)(i := Outside)\<rparr>)"

definition start_queue :: "string \<Rightarrow> nat \<Rightarrow> nat \<Rightarrow> int \<Rightarrow> qsys" where
  "start_queue name limit queueLimit timeout =
     \<lparr>sq = newQueue name limit queueLimit timeout, phases = (\<lambda>_. Outside)\<rparr>"

definition queue_reach :: "nat \<Rightarrow> nat \<Rightarrow> qsys \<Rightarrow> bool" where
  "queue_reach limit queueLimit s \<longleftrightarrow>
     (\<exists>name timeout. queue_step\<^sup>*\<^sup>* (start_queue name limit queueLimit timeout) s)"

fun holds_waiting :: "phase \<Rightarrow> bool" where
  "holds_waiting Claimed = True"
| "holds_waiting Blocked = True"
| "holds_waiting TimedOut = True"
| "holds_waiting Serving = True"
| "holds_waiting _ = False"

fun holds_busy :: "phase \<Rightarrow> bool" where
  "holds_busy Serving = True"
| "holds_busy Releasing = True"
| "holds_busy _ = False"

section \<open>The handler\<close>

definition DefaultTimeout :: int where
  "DefaultTimeout = 30 * 1000000000"

text \<open>\<open>err\<close> is what \<open>Acquire\<close> returned; \<open>None\<close> also covers the deferred \<open>Release\<close>.\<close>

definition serve_queued :: "'s writer \<Rightarrow> 's handler \<Rightarrow> gerror option \<Rightarrow> 's handler" where
  "serve_queued w h err r s =
     (case err of
        None \<Rightarrow> h r s
      | Some ErrTooManyRequests \<Rightarrow> http_Error w ''Too Many Requests'' 429 s
      | Some ErrQueueingTimedout \<Rightarrow> http_Error w ''Service Unavailable'' 503 s
      | Some e \<Rightarrow> Fail500 w s)"

definition QueueRequests :: "'s writer \<Rightarrow> 's handler \<Rightarrow> nat \<Rightarrow> nat \<Rightarrow> int \<Rightarrow>
    (nat \<Rightarrow> nat \<Rightarrow> int \<Rightarrow> gerror option) \<Rightarrow> 's handler" where
  "QueueRequests w h limit queueLimit queueTimeout acquire =
     (if limit = 0 then h
      else let queueTimeout = (if queueTimeout = 0 then DefaultTimeout else queueTimeout)
           in serve_queued w h (acquire limit queueLimit queueTimeout))"

section \<open>The channels as pools of slots\<close>

lemmas queue_pieces = acquire_claim_def acquire_busy_def acquire_timedout_def dequeue_waiting_def
  release_busy_def count_error_def

inductive_cases queue_stepE: "queue_step s t"

lemma waiting_slots:
  "queue_step s t \<Longrightarrow> \<exists>i p. phases t = (phases s)(i := p) \<and>
      (holds_waiting p = holds_waiting (phases s i) \<and> waitingCh (sq t) = waitingCh (sq s) \<or>
       \<not> holds_waiting (phases s i) \<and> holds_waiting p \<and>
         (\<exists>v. ch_send v (waitingCh (sq s)) = Some (waitingCh (sq t))) \<or>
       holds_waiting (phases s i) \<and> \<not> holds_waiting p \<and>
         (\<exists>v. ch_recv (waitingCh (sq s)) = Some (v, waitingCh (sq t))))"
proof (induction rule: queue_step.induct)
  case (reject s i now q e)
  then show ?case
    by (intro exI [of _ i] exI [of _ Outside]) (auto simp: queue_pieces split: option.splits)
qed (rule exI, rule exI, rule conjI, simp, force simp: queue_pieces split: option.splits)+

lemma busy_slots:
  "queue_step s t \<Longrightarrow> \<exists>i p. phases t = (phases s)(i := p) \<and>
      (holds_busy p = holds_busy (phases s i) \<and> busyCh (sq t) = busyCh (sq s) \<or>
       \<not> holds_busy (phases s i) \<and> holds_busy p \<and>
         (\<exists>v. ch_send v (busyCh (sq s)) = Some (busyCh (sq t))) \<or>
       holds_busy (phases s i) \<and> \<not> holds_busy p \<and>
         (\<exists>v. ch_recv (busyCh (sq s)) = Some (v, busyCh (sq t))))"
proof (induction rule: queue_step.induct)
  case (reject s i now q e)
  then show ?case
    by (intro exI [of _ i] exI [of _ Outside]) (auto simp: queue_pieces split: option.splits)
qed (rule exI, rule exI, rule conjI, simp, force simp: queue_pieces split: option.splits)+

definition is_start :: "qsys \<Rightarrow> bool" where
  "is_start s \<longleftrightarrow> (\<exists>name limit queueLimit timeout. s = start_queue name limit queueLimit timeout)"

interpretation waiting: slot_protocol is_start queue_step "\<lambda>s. waitingCh (sq s)" phases holds_waiting Outside
  by unfold_locales (auto simp: is_start_def start_queue_def newQueue_def intro: waiting_slots)

interpretation busy: slot_protocol is_start queue_step "\<lambda>s. busyCh (sq s)" phases holds_busy Outside
proof unfold_locales
  fix s t
  show "queue_step s t \<Longrightarrow> \<exists>i p. phases t = (phases s)(i := p) \<and>
      (holds_busy p = holds_busy (phases s i) \<and> busyCh (sq t) = busyCh (sq s) \<or>
       \<not> holds_busy (phases s i) \<and> holds_busy p \<and>
         (\<exists>v. ch_send v (busyCh (sq s)) = Some (busyCh (sq t))) \<or>
       holds_busy (phases s i) \<and> \<not> holds_busy p \<and>
         (\<exists>v. ch_recv (busyCh (sq s)) = Some (v, busyCh (sq t))))"
    by (rule busy_slots)
qed (auto simp: is_start_def start_queue_def newQueue_def)

lemma reach_start: "queue_reach limit queueLimit s \<Longrightarrow> \<exists>s0. is_start s0 \<and> queue_step\<^sup>*\<^sup>* s0 s"
  unfolding queue_reach_def is_start_def by blast

text \<open>What else every step keeps: the capacities, and the gauges that mirror the channels.\<close>

definition gauges_ok :: "nat \<Rightarrow> nat \<Rightarrow> qsys \<Rightarrow> bool" where
  "gauges_ok limit queueLimit s \<longleftrightarrow>
     ch_cap (busyCh (sq s)) = limit \<and> ch_cap (waitingCh (sq s)) = limit + queueLimit \<and>
     queueingBusy (q_metrics (sq s)) = int (length (ch_buf (busyCh (sq s)))) \<and>
     queueingWaiting (q_metrics (sq s)) = int (length (ch_buf (waitingCh (sq s))))"

lemma queue_step_gauges: "queue_step s t \<Longrightarrow> gauges_ok limit queueLimit s \<Longrightarrow> gauges_ok limit queueLimit t"
  by (induction rule: queue_step.induct)
    (auto simp: gauges_ok_def queue_pieces split: option.splits dest!: ch_send_SomeD ch_recv_SomeD)

lemma reach_gauges: "queue_reach limit queueLimit s \<Longrightarrow> gauges_ok limit queueLimit s"
proof -
  assume "queue_reach limit queueLimit s"
  then obtain name timeout where "queue_step\<^sup>*\<^sup>* (start_queue name limit queueLimit timeout) s"
    by (auto simp: queue_reach_def)
  then show ?thesis
  proof (induction rule: rtranclp_induct)
    case base
    then show ?case by (simp add: gauges_ok_def start_queue_def newQueue_def newQueueMetrics_def Let_def)
  next
    case (step s t)
    then show ?case by (blast intro: queue_step_gauges)
  qed
qed

lemma reach_step: "queue_reach limit queueLimit s \<Longrightarrow> queue_step s t \<Longrightarrow> queue_reach limit queueLimit t"
  by (auto simp: queue_reach_def intro: rtranclp.rtrancl_into_rtrancl)

lemma queue_reach_start [simp]: "queue_reach l q (start_queue n l q t)"
  by (auto simp: queue_reach_def)

lemma waiting_phases: "{i. f i \<in> {Claimed, Blocked, TimedOut, Serving}} = holders holds_waiting f"
  by (auto simp: holders_def elim: holds_waiting.elims)

lemma busy_phases: "{i. f i \<in> {Serving, Releasing}} = holders holds_busy f"
  by (auto simp: holders_def elim: holds_busy.elims)

text \<open>Two runs with one place and no queue: a request that is served, and a second one that arrives
  between the two receives of the first one's \<open>Release\<close>.\<close>

definition one_serving :: qsys where
  "one_serving = \<lparr>sq = the (acquire_busy (fst (acquire_claim 5 (newQueue ''q'' 1 0 30)))),
     phases = (\<lambda>_. Outside)(0 := Serving)\<rparr>"

definition one_blocked :: qsys where
  "one_blocked = \<lparr>sq = fst (acquire_claim 8 (the (dequeue_waiting 7 (sq one_serving)))),
     phases = (\<lambda>_. Outside)(0 := Releasing, 1 := Blocked)\<rparr>"

lemmas queue_eval = queue_pieces newQueue_def make_chan_def ch_send_def ch_recv_def start_queue_def

lemma one_serving_reach: "queue_reach 1 0 one_serving"
proof -
  have "queue_step (start_queue ''q'' 1 0 30)
      \<lparr>sq = fst (acquire_claim 5 (newQueue ''q'' 1 0 30)), phases = (\<lambda>_. Outside)(0 := Claimed)\<rparr>"
    using queue_step.claim [of "start_queue ''q'' 1 0 30" 0 5] by (simp add: queue_eval)
  moreover have "queue_step \<lparr>sq = fst (acquire_claim 5 (newQueue ''q'' 1 0 30)),
      phases = (\<lambda>_. Outside)(0 := Claimed)\<rparr> one_serving"
    using queue_step.fast [of "\<lparr>sq = fst (acquire_claim 5 (newQueue ''q'' 1 0 30)),
      phases = (\<lambda>_. Outside)(0 := Claimed)\<rparr>" 0] by (simp add: one_serving_def queue_eval)
  ultimately show ?thesis by (blast intro: reach_step queue_reach_start)
qed

lemma one_blocked_reach: "queue_reach 1 0 one_blocked"
proof -
  let ?r = "\<lparr>sq = the (dequeue_waiting 7 (sq one_serving)), phases = (\<lambda>_. Outside)(0 := Releasing)\<rparr>"
  let ?c = "\<lparr>sq = sq one_blocked, phases = (\<lambda>_. Outside)(0 := Releasing, 1 := Claimed)\<rparr>"
  have "queue_step one_serving ?r"
    using queue_step.release [of one_serving 0 7] by (simp add: one_serving_def queue_eval)
  moreover have "queue_step ?r ?c"
    using queue_step.claim [of ?r 1 8] by (simp add: one_blocked_def one_serving_def queue_eval)
  moreover have "queue_step ?c one_blocked"
    using queue_step.slow [of ?c 1] by (simp add: one_blocked_def one_serving_def queue_eval)
  ultimately show ?thesis by (blast intro: reach_step one_serving_reach)
qed

section \<open>Properties\<close>

text \<open>C2. However requests interleave, at most \<open>limit\<close> of them are inside the handler at a time, and
  at most \<open>limit + queueLimit\<close> hold a place in the queue.\<close>

theorem queue_capacity:
  assumes "queue_reach limit queueLimit s"
  shows "card {i. phases s i = Serving} \<le> limit \<and>
    card {i. phases s i \<in> {Claimed, Blocked, TimedOut, Serving}} \<le> limit + queueLimit"
proof -
  from assms obtain s0 where s0: "is_start s0" "queue_step\<^sup>*\<^sup>* s0 s" using reach_start by blast
  note caps = reach_gauges [OF assms, unfolded gauges_ok_def]
  have "{i. phases s i = Serving} \<subseteq> holders holds_busy (phases s)" by (auto simp: holders_def)
  moreover have "finite (holders holds_busy (phases s))"
    by (rule finite_holders [OF busy.run_finite [OF s0]]) simp
  ultimately have "card {i. phases s i = Serving} \<le> limit"
    using busy.run_bounded [OF s0] caps by (metis card_mono order_trans)
  then show ?thesis unfolding waiting_phases using waiting.run_bounded [OF s0] caps by simp
qed

text \<open>\<open>Release\<close> and the clean-up after a timeout never block: a request that reaches one of the
  channel receives always finds an element there.\<close>

theorem release_never_blocks:
  assumes "queue_reach limit queueLimit s"
  shows "(phases s i \<in> {Serving, TimedOut} \<longrightarrow> dequeue_waiting now (sq s) \<noteq> None) \<and>
    (phases s i = Releasing \<longrightarrow> release_busy (sq s) \<noteq> None)"
proof -
  from assms obtain s0 where s0: "is_start s0" "queue_step\<^sup>*\<^sup>* s0 s" using reach_start by blast
  have "phases s i \<in> {Serving, TimedOut} \<Longrightarrow> holds_waiting (phases s i)" by auto
  then show ?thesis
    using waiting.holder_can_recv [OF s0, of i] busy.holder_can_recv [OF s0, of i]
    by (auto simp: dequeue_waiting_def release_busy_def)
qed

text \<open>No slot leaks: once every request has left, both channels are empty and the gauges read
  zero again, and in every state the gauges count the requests that hold a slot.\<close>

theorem queue_no_leak:
  assumes "queue_reach limit queueLimit s"
  shows "queueingBusy (q_metrics (sq s)) = int (card {i. phases s i \<in> {Serving, Releasing}}) \<and>
    queueingWaiting (q_metrics (sq s)) = int (card {i. phases s i \<in> {Claimed, Blocked, TimedOut, Serving}}) \<and>
    ((\<forall>i. phases s i = Outside) \<longrightarrow> ch_buf (busyCh (sq s)) = [] \<and> ch_buf (waitingCh (sq s)) = [])"
proof -
  from assms obtain s0 where s0: "is_start s0" "queue_step\<^sup>*\<^sup>* s0 s" using reach_start by blast
  show ?thesis
    unfolding waiting_phases busy_phases using waiting.run_buffer [OF s0] busy.run_buffer [OF s0] reach_gauges [OF assms]
    by (auto simp: gauges_ok_def holders_def)
qed

text \<open>C22. A request is turned away with \<open>ErrTooManyRequests\<close> exactly when \<open>limit + queueLimit\<close> requests
  hold a slot, and a request that waits is let through as soon as fewer than \<open>limit\<close> are being
  processed: it can only be kept waiting by \<open>limit\<close> others.\<close>

theorem queue_admission:
  assumes "queue_reach limit queueLimit s"
  shows "(snd (acquire_claim now (sq s)) = Some ErrTooManyRequests \<longleftrightarrow>
      card {i. phases s i \<in> {Claimed, Blocked, TimedOut, Serving}} = limit + queueLimit) \<and>
    (acquire_busy (sq s) = None \<longleftrightarrow> card {i. phases s i \<in> {Serving, Releasing}} = limit)"
proof -
  from assms obtain s0 where s0: "is_start s0" "queue_step\<^sup>*\<^sup>* s0 s" using reach_start by blast
  have "ch_send now (waitingCh (sq s)) = None \<longleftrightarrow> card (holders holds_waiting (phases s)) = limit + queueLimit"
    using waiting.run_buffer [OF s0] waiting.run_bounded [OF s0] reach_gauges [OF assms]
    by (auto simp: ch_send_None gauges_ok_def)
  moreover have "ch_send () (busyCh (sq s)) = None \<longleftrightarrow> card (holders holds_busy (phases s)) = limit"
    using busy.run_buffer [OF s0] busy.run_bounded [OF s0] reach_gauges [OF assms]
    by (auto simp: ch_send_None gauges_ok_def)
  ultimately show ?thesis
    unfolding waiting_phases busy_phases by (auto simp: acquire_claim_def acquire_busy_def split: option.splits)
qed


theorem queue_capacity_witness:
  "phases one_serving 0 = Serving \<and> card {i. phases one_serving i = Serving} \<le> 1"
  using queue_capacity [OF one_serving_reach] by (simp add: one_serving_def)

theorem release_never_blocks_witness:
  "phases one_serving 0 = Serving \<and> dequeue_waiting 9 (sq one_serving) \<noteq> None \<and>
   phases one_blocked 0 = Releasing \<and> release_busy (sq one_blocked) \<noteq> None"
  using release_never_blocks [OF one_serving_reach, of 0 9] release_never_blocks [OF one_blocked_reach, of 0]
  by (simp add: one_serving_def one_blocked_def)

theorem queue_no_leak_witness:
  "queueingBusy (q_metrics (sq one_serving)) = 1 \<and>
   int (card {i. phases one_serving i \<in> {Serving, Releasing}}) = 1"
proof -
  have "queueingBusy (q_metrics (sq one_serving)) = 1"
    by (simp add: one_serving_def queue_eval newQueueMetrics_def Let_def)
  then show ?thesis using queue_no_leak [OF one_serving_reach] by simp
qed

theorem queue_admission_witness:
  "snd (acquire_claim 9 (sq one_serving)) = Some ErrTooManyRequests \<and>
   card {i. phases one_serving i \<in> {Claimed, Blocked, TimedOut, Serving}} = 1"
proof -
  have "snd (acquire_claim 9 (sq one_serving)) = Some ErrTooManyRequests"
    by (simp add: one_serving_def queue_eval)
  then show ?thesis using queue_admission [OF one_serving_reach, of 9] by simp
qed

text \<open>The documented meaning of \<open>queueLimit\<close>, the maximum number of requests that can be queued, is
  exceeded for a moment: \<open>Release\<close> frees the place in \<open>waitingCh\<close> before the one in \<open>busyCh\<close>, so
  with one place and no queue a request can be found waiting in the queue.\<close>

theorem queue_limit_exceeded:
  "\<exists>s. queue_reach 1 0 s \<and> card {i. phases s i = Blocked} = 1"
proof -
  have "{i. phases one_blocked i = Blocked} = {1}" by (auto simp: one_blocked_def)
  then show ?thesis using one_blocked_reach by auto
qed

end
