(* ===== verification/Redis.thy ===== *)
theory Redis
  imports Backend Key_Watcher
begin

text \<open>
  \<open>internal/redis/redis.go\<close>: how Redis is dialled, directly or through Sentinel, and the pool; and the loop of
  \<open>keywatcher.go\<close> that connects again and again. The Redis and
  Sentinel libraries and the network are parameters; durations are in nanoseconds. A dialler in Go is a
  closure that captures its options; here it is a value that a call returns changed.
\<close>

section \<open>Options\<close>

datatype DialOption =
    DialConnectTimeout int
  | DialReadTimeout int
  | DialWriteTimeout int
  | DialPassword string
  | DialDatabase int
  | DialNetDial int  \<comment> \<open>the keep-alive dialler, with its period\<close>

definition defaultMaxIdle :: int where
  "defaultMaxIdle = 1"

definition defaultMaxActive :: int where
  "defaultMaxActive = 1"

definition defaultReadTimeout :: int where
  "defaultReadTimeout = 1000000000"

definition defaultWriteTimeout :: int where
  "defaultWriteTimeout = 1000000000"

definition defaultIdleTimeout :: int where
  "defaultIdleTimeout = 3 * 60 * 1000000000"

definition defaultKeepAlivePeriod :: int where
  "defaultKeepAlivePeriod = 5 * 60 * 1000000000"

definition timeoutDialOptions :: "RedisConfig option \<Rightarrow> DialOption list" where
  "timeoutDialOptions cfg =
     (let readTimeout = (case cfg of None \<Rightarrow> defaultReadTimeout
            | Some c \<Rightarrow> (case rc_ReadTimeout c of None \<Rightarrow> defaultReadTimeout | Some t \<Rightarrow> t));
          writeTimeout = (case cfg of None \<Rightarrow> defaultWriteTimeout
            | Some c \<Rightarrow> (case rc_WriteTimeout c of None \<Rightarrow> defaultWriteTimeout | Some t \<Rightarrow> t))
      in [DialReadTimeout readTimeout, DialWriteTimeout writeTimeout])"

definition dialOptionsBuilder :: "RedisConfig option \<Rightarrow> bool \<Rightarrow> DialOption list" where
  "dialOptionsBuilder cfg setTimeouts =
     (let dopts = (if setTimeouts then timeoutDialOptions cfg else []) in
      case cfg of
        None \<Rightarrow> dopts
      | Some c \<Rightarrow> dopts @ (if rc_Password c \<noteq> [] then [DialPassword (rc_Password c)] else []) @
          (case rc_DB c of None \<Rightarrow> [] | Some db \<Rightarrow> [DialDatabase db]))"

section \<open>Diallers\<close>

record redis_metrics =
  totalConnections :: nat
  errorCounter :: "string \<times> string \<Rightarrow> nat"

definition count_redis_error :: "string \<Rightarrow> string \<Rightarrow> redis_metrics \<Rightarrow> redis_metrics" where
  "count_redis_error typ dst m = m\<lparr>errorCounter := (errorCounter m)((typ, dst) := Suc (errorCounter m (typ, dst)))\<rparr>"

text \<open>\<open>redis.Dial\<close> and what the network does for the keep-alive dialler.\<close>

record 'c redis_env =
  re_Dial :: "string \<Rightarrow> string \<Rightarrow> DialOption list \<Rightarrow> 'c result"
  re_MasterAddr :: "string list \<Rightarrow> string \<Rightarrow> string result"
  re_resolve :: "string \<Rightarrow> string \<Rightarrow> string result"
  re_DialTCP :: "string \<Rightarrow> string \<Rightarrow> 'c result"
  re_SetKeepAlive :: "'c \<Rightarrow> gerror option"
  re_SetKeepAlivePeriod :: "'c \<Rightarrow> int \<Rightarrow> gerror option"

record Sentinel =
  sn_Addrs :: "string list"
  sn_MasterName :: string

definition sentinelConn :: "string \<Rightarrow> url list \<Rightarrow> Sentinel option" where
  "sentinelConn master urls = (if urls = [] then None else Some \<lparr>sn_Addrs = map url_Host urls, sn_MasterName = master\<rparr>)"

text \<open>The \<open>Dial\<close> field of the Sentinel.\<close>

definition sentinel_Dial :: "'c redis_env \<Rightarrow> string \<Rightarrow> redis_metrics \<Rightarrow> 'c result \<times> redis_metrics" where
  "sentinel_Dial env addr m =
     (let timeout = 500000000 in
      case re_Dial env ''tcp'' addr [DialConnectTimeout timeout, DialReadTimeout timeout, DialWriteTimeout timeout] of
        Inl err \<Rightarrow> (Inl err, count_redis_error ''dial'' ''sentinel'' m)
      | Inr c \<Rightarrow> (Inr c, m))"

definition keepAliveDialer :: "'c redis_env \<Rightarrow> int \<Rightarrow> string \<Rightarrow> string \<Rightarrow> 'c result" where
  "keepAliveDialer env timeout network address =
     (case re_resolve env network address of Inl err \<Rightarrow> Inl err | Inr addr \<Rightarrow>
      case re_DialTCP env network addr of Inl err \<Rightarrow> Inl err | Inr tc \<Rightarrow>
      case re_SetKeepAlive env tc of Some err \<Rightarrow> Inl err | None \<Rightarrow>
      case re_SetKeepAlivePeriod env tc timeout of Some err \<Rightarrow> Inl err | None \<Rightarrow> Inr tc)"

datatype dialer_kind = SentinelDialer Sentinel | DefaultDialer url

record dialer =
  dl_kind :: dialer_kind
  dl_dopts :: "DialOption list"
  dl_keepAlivePeriod :: int

definition redisDial :: "'c redis_env \<Rightarrow> string \<Rightarrow> string \<Rightarrow> DialOption list \<Rightarrow> 'c result" where
  "redisDial env network address options = re_Dial env network address options"

text \<open>One call of the closures \<open>sentinelDialer\<close> and \<open>defaultDialer\<close> return: each extends the options it has captured.\<close>

definition sentinelDialer :: "'c redis_env \<Rightarrow> Sentinel \<Rightarrow> dialer \<Rightarrow> redis_metrics \<Rightarrow> 'c result \<times> dialer \<times> redis_metrics" where
  "sentinelDialer env sntnl d m =
     (case re_MasterAddr env (sn_Addrs sntnl) (sn_MasterName sntnl) of
        Inl err \<Rightarrow> (Inl err, d, count_redis_error ''master'' ''sentinel'' m)
      | Inr address \<Rightarrow>
          let d = d\<lparr>dl_dopts := dl_dopts d @ [DialNetDial (dl_keepAlivePeriod d)]\<rparr>
          in (redisDial env ''tcp'' address (dl_dopts d), d, m))"

definition defaultDialer :: "'c redis_env \<Rightarrow> url \<Rightarrow> dialer \<Rightarrow> redis_metrics \<Rightarrow> 'c result \<times> dialer \<times> redis_metrics" where
  "defaultDialer env url d m =
     (if url_Scheme url = ''unix'' then (redisDial env (url_Scheme url) (url_Path url) (dl_dopts d), d, m)
      else
        let d = d\<lparr>dl_dopts := dl_dopts d @ [DialNetDial (dl_keepAlivePeriod d)]\<rparr>
        in (redisDial env (url_Scheme url) (url_Host url) (dl_dopts d), d, m))"

definition countDialer :: "'c redis_env \<Rightarrow> dialer \<Rightarrow> redis_metrics \<Rightarrow> 'c result \<times> dialer \<times> redis_metrics" where
  "countDialer env d m =
     (let (c, d, m) = (case dl_kind d of SentinelDialer sntnl \<Rightarrow> sentinelDialer env sntnl d m | DefaultDialer url \<Rightarrow> defaultDialer env url d m)
      in (c, d, case c of Inl err \<Rightarrow> count_redis_error ''dial'' ''redis'' m
                | Inr _ \<Rightarrow> m\<lparr>totalConnections := Suc (totalConnections m)\<rparr>))"

definition DefaultDialFunc :: "Sentinel option \<Rightarrow> RedisConfig \<Rightarrow> bool \<Rightarrow> dialer" where
  "DefaultDialFunc sntnl cfg setReadTimeout =
     \<lparr>dl_kind = (case sntnl of Some sn \<Rightarrow> SentinelDialer sn | None \<Rightarrow> DefaultDialer (rc_URL cfg)),
      dl_dopts = dialOptionsBuilder (Some cfg) setReadTimeout,
      dl_keepAlivePeriod = (case rc_KeepAlivePeriod cfg of None \<Rightarrow> defaultKeepAlivePeriod | Some p \<Rightarrow> p)\<rparr>"

section \<open>The pool\<close>

record Pool =
  pool_MaxIdle :: int
  pool_MaxActive :: int
  pool_IdleTimeout :: int
  pool_Dial :: dialer
  pool_Wait :: bool
  pool_TestOnBorrow :: bool  \<comment> \<open>the connection must be one to the master\<close>

record redis_state =
  rs_pool :: "Pool option"
  rs_sntnl :: "Sentinel option"
  rs_workerDialFunc :: "dialer option"
  rs_poolDialFunc :: "dialer option"

definition Configure :: "RedisConfig option \<Rightarrow> (Sentinel option \<Rightarrow> RedisConfig \<Rightarrow> bool \<Rightarrow> dialer) \<Rightarrow> redis_state \<Rightarrow> redis_state" where
  "Configure cfg dialFunc st =
     (case cfg of
        None \<Rightarrow> st
      | Some cfg \<Rightarrow>
          let maxIdle = (case rc_MaxIdle cfg of None \<Rightarrow> defaultMaxIdle | Some n \<Rightarrow> n);
              maxActive = (case rc_MaxActive cfg of None \<Rightarrow> defaultMaxActive | Some n \<Rightarrow> n);
              sntnl = sentinelConn (rc_SentinelMaster cfg) (rc_Sentinel cfg);
              workerDialFunc = dialFunc sntnl cfg False;
              poolDialFunc = dialFunc sntnl cfg True
          in \<lparr>rs_pool = Some \<lparr>pool_MaxIdle = maxIdle, pool_MaxActive = maxActive, pool_IdleTimeout = defaultIdleTimeout,
                pool_Dial = poolDialFunc, pool_Wait = True, pool_TestOnBorrow = (sntnl \<noteq> None)\<rparr>,
              rs_sntnl = sntnl, rs_workerDialFunc = Some workerDialFunc, rs_poolDialFunc = Some poolDialFunc\<rparr>)"

text \<open>\<open>get\<close> is the pool's \<open>Get\<close> and \<open>do\<close> the command on the connection.\<close>

definition Get :: "(Pool \<Rightarrow> 'c) \<Rightarrow> redis_state \<Rightarrow> 'c option" where
  "Get get st = map_option get (rs_pool st)"

definition GetString :: "(Pool \<Rightarrow> 'c) \<Rightarrow> ('c \<Rightarrow> string list \<Rightarrow> string result) \<Rightarrow> redis_state \<Rightarrow> string \<Rightarrow> string result" where
  "GetString get do st key =
     (case Get get st of
        None \<Rightarrow> Inl (Errorf ''redis: could not get connection from pool'')
      | Some conn \<Rightarrow> do conn [''GET'', key])"

section \<open>The process loop\<close>

text \<open>\<open>ping\<close> is the state of the connection after a \<open>PING\<close>.\<close>

definition dialPubSub :: "'c result \<Rightarrow> ('c \<Rightarrow> gerror option) \<Rightarrow> 'c result" where
  "dialPubSub dialed ping =
     (case dialed of Inl err \<Rightarrow> Inl err | Inr conn \<Rightarrow> (case ping conn of Some err \<Rightarrow> Inl err | None \<Rightarrow> Inr conn))"

record process_state =
  pr_dialer :: dialer
  pr_metrics :: redis_metrics
  pr_attempts :: nat  \<comment> \<open>failed attempts since the last connection, which determine how long to sleep\<close>
  pr_watcher :: keywatcher

text \<open>
  One round of \<open>Process\<close>: \<open>session\<close> gives the error of subscribing and what is received on a connection. \<open>None\<close>: the
  round does not end, because the loop waits for more or is blocked.
\<close>

definition process_round :: "'c redis_env \<Rightarrow> ('c \<Rightarrow> gerror option) \<Rightarrow> ('c \<Rightarrow> gerror option \<times> pubsub list) \<Rightarrow> process_state \<Rightarrow> process_state option" where
  "process_round env ping session x =
     (case countDialer env (pr_dialer x) (pr_metrics x) of (dialed, d, m) \<Rightarrow>
      let x = x\<lparr>pr_dialer := d, pr_metrics := m\<rparr> in
      case dialPubSub dialed ping of
        Inl err \<Rightarrow> Some (x\<lparr>pr_attempts := Suc (pr_attempts x)\<rparr>)
      | Inr conn \<Rightarrow>
          let x = x\<lparr>pr_attempts := 0\<rparr> in
          (case processInner (fst (session conn)) (snd (session conn)) (pr_watcher x) of
             Some (watcher, True, err) \<Rightarrow> Some (x\<lparr>pr_watcher := watcher\<rparr>)
           | _ \<Rightarrow> None))"

section \<open>Lemmas\<close>

text \<open>Reads of the pool time out, those of the notification loop do not: it waits as long as it takes.\<close>

lemma worker_no_timeout:
  "DialReadTimeout t \<notin> set (dl_dopts (the (rs_workerDialFunc (Configure (Some cfg) DefaultDialFunc st))))"
  by (auto simp: Configure_def DefaultDialFunc_def dialOptionsBuilder_def Let_def split: option.splits if_splits)

lemma pool_timeout:
  "\<exists>t. DialReadTimeout t \<in> set (dl_dopts (the (rs_poolDialFunc (Configure (Some cfg) DefaultDialFunc st))))"
  by (auto simp: Configure_def DefaultDialFunc_def dialOptionsBuilder_def timeoutDialOptions_def Let_def split: option.splits)

lemma pool_password:
  "rc_Password cfg \<noteq> [] \<Longrightarrow>
   DialPassword (rc_Password cfg) \<in> set (dl_dopts (the (rs_poolDialFunc (Configure (Some cfg) DefaultDialFunc st)))) \<and>
   DialPassword (rc_Password cfg) \<in> set (dl_dopts (the (rs_workerDialFunc (Configure (Some cfg) DefaultDialFunc st))))"
  by (auto simp: Configure_def DefaultDialFunc_def dialOptionsBuilder_def Let_def split: option.splits)

text \<open>Every connection over TCP leaves its option behind in the closure: after \<open>n\<close> of them there are \<open>n\<close> more options than at the start.\<close>

primrec dial_times :: "'c redis_env \<Rightarrow> nat \<Rightarrow> dialer \<times> redis_metrics \<Rightarrow> dialer \<times> redis_metrics" where
  "dial_times env 0 dm = dm"
| "dial_times env (Suc n) dm = (case dial_times env n dm of (d, m) \<Rightarrow> (case countDialer env d m of (_, d', m') \<Rightarrow> (d', m')))"

lemma dial_keeps_kind: "dl_kind (fst (dial_times env n dm)) = dl_kind (fst dm)"
  by (induction n) (auto simp: countDialer_def sentinelDialer_def defaultDialer_def Let_def split: prod.splits dialer_kind.splits sum.splits if_splits)

lemma dial_options_grow:
  assumes "dl_kind (fst dm) = DefaultDialer u" "url_Scheme u \<noteq> ''unix''"
  shows "length (dl_dopts (fst (dial_times env n dm))) = length (dl_dopts (fst dm)) + n"
proof (induction n)
  case (Suc n)
  have "dl_kind (fst (dial_times env n dm)) = DefaultDialer u" using assms(1) by (simp add: dial_keeps_kind)
  with Suc assms(2) show ?case by (simp add: countDialer_def defaultDialer_def Let_def split_beta)
qed simp

end
