(* ===== verification/Secret.thy ===== *)
theory Secret
  imports Static_Pages Codec
begin

text \<open>
  \<open>internal/secret\<close>: the key shared with the backend, read when it is first needed (\<open>secret.go\<close>), and the
  tokens signed with it (\<open>jwt.go\<close>). The signing library is a parameter. Also the correlation identifiers of
  \<open>internal/log/handler.go\<close>; the source of randomness and the clock are parameters.
\<close>

section \<open>The key\<close>

record sec =
  sec_path :: string
  sec_bytes :: "bytes option"

definition numSecretBytes :: nat where
  "numSecretBytes = 32"

definition SetPath :: "string \<Rightarrow> sec \<Rightarrow> sec" where
  "SetPath path theSecret = \<lparr>sec_path = path, sec_bytes = None\<rparr>"

definition getBytes :: "sec \<Rightarrow> bytes option" where
  "getBytes theSecret = sec_bytes theSecret"

text \<open>The buffer has the size \<open>DecodedLen\<close> gives, of which \<open>Decode\<close> fills the first bytes.\<close>

definition DecodedLen :: "nat \<Rightarrow> nat" where
  "DecodedLen n = n div 4 * 3"

definition decode_buffer :: "bytes \<Rightarrow> (bytes \<times> nat) option" where
  "decode_buffer base64Bytes =
     (case b64_decode False base64Bytes of
        None \<Rightarrow> None
      | Some d \<Rightarrow> Some (d @ replicate (DecodedLen (length base64Bytes) - length d) (CHR 0x00), length d))"

definition setBytes :: "filesystem \<Rightarrow> sec \<Rightarrow> bytes result \<times> sec" where
  "setBytes fs theSecret =
     (case sec_bytes theSecret of
        Some b \<Rightarrow> (Inr b, theSecret)
      | None \<Rightarrow>
          (case ReadFile fs (sec_path theSecret) of
             Inl err \<Rightarrow> (Inl (wrap_err (''secret.setBytes: read '' @ Quote (sec_path theSecret) @ '': '') err), theSecret)
           | Inr base64Bytes \<Rightarrow>
               (case decode_buffer base64Bytes of
                  None \<Rightarrow> (Inl (Errorf ''secret.setBytes: decode secret: illegal base64 data''), theSecret)
                | Some (secretBytes, n) \<Rightarrow>
                    if n \<noteq> numSecretBytes
                    then (Inl (Errorf (''secret.setBytes: expected '' @ format_nat numSecretBytes @ '' secretBytes in '' @
                           sec_path theSecret @ '', found '' @ format_nat n)), theSecret)
                    else (Inr secretBytes, theSecret\<lparr>sec_bytes := Some secretBytes\<rparr>))))"

definition Bytes :: "filesystem \<Rightarrow> sec \<Rightarrow> bytes result \<times> sec" where
  "Bytes fs theSecret =
     (case getBytes theSecret of Some b \<Rightarrow> (Inr b, theSecret) | None \<Rightarrow> setBytes fs theSecret)"

definition JWTTokenString :: "(bytes \<Rightarrow> 'claims \<Rightarrow> string result) \<Rightarrow> filesystem \<Rightarrow> 'claims \<Rightarrow> sec \<Rightarrow> string result \<times> sec" where
  "JWTTokenString signedString fs claims theSecret =
     (case Bytes fs theSecret of
        (Inl err, s) \<Rightarrow> (Inl (wrap_err ''secret.JWTTokenString: '' err), s)
      | (Inr secretBytes, s) \<Rightarrow>
          (case signedString secretBytes claims of
             Inl err \<Rightarrow> (Inl (wrap_err ''secret.JWTTokenString: sign JWT: '' err), s)
           | Inr tokenString \<Rightarrow> (Inr tokenString, s)))"

section \<open>Correlation identifiers\<close>

definition base62Chars :: string where
  "base62Chars = ''0123456789abcdefghijklmnopqrstuvwxyzABCDEFGHIJKLMNOPQRSTUVWXYZ''"

function base62_digits :: "int \<Rightarrow> string" where
  "base62_digits q = (if q > 0 then base62Chars ! nat (q mod 62) # base62_digits (q div 62) else [])"
  by pat_completeness auto
termination by (relation "measure nat") auto

declare base62_digits.simps [simp del]

definition encodeReverseBase62 :: "int \<Rightarrow> string" where
  "encodeReverseBase62 num = (if num = 0 then ''0'' else base62_digits num)"

definition generateRandomCorrelationID :: "int result \<Rightarrow> string result" where
  "generateRandomCorrelationID randInt = (case randInt of Inl err \<Rightarrow> Inl err | Inr i \<Rightarrow> Inr (encodeReverseBase62 i))"

text \<open>The identifier \<open>InjectCorrelationID\<close> puts into the context of the request.\<close>

definition InjectCorrelationID :: "int result \<Rightarrow> int \<Rightarrow> request \<Rightarrow> string" where
  "InjectCorrelationID randInt unixNano r =
     (case generateRandomCorrelationID randInt of
        Inr correlationID \<Rightarrow> correlationID
      | Inl err \<Rightarrow> ''E:'' @ req_RemoteAddr r @ '':'' @ encodeReverseBase62 unixNano)"

section \<open>The key is read once\<close>

lemma decode_buffer_zero: "decode_buffer s = Some (b, n) \<Longrightarrow> b64_decode False s = Some (take n b) \<and> n \<le> length b"
  by (auto simp: decode_buffer_def split: option.splits)

lemma Bytes_cached: "fst (Bytes fs t) = Inr b \<Longrightarrow> sec_bytes (snd (Bytes fs t)) = Some b"
  by (auto simp: Bytes_def getBytes_def setBytes_def split: option.splits sum.splits prod.splits if_splits)

lemma Bytes_error: "fst (Bytes fs t) = Inl e \<Longrightarrow> snd (Bytes fs t) = t \<and> sec_bytes t = None"
  by (auto simp: Bytes_def getBytes_def setBytes_def split: option.splits sum.splits prod.splits if_splits)

lemma Bytes_fresh:
  assumes "sec_bytes t = None" "fst (Bytes fs t) = Inr b"
  shows "\<exists>content. ReadFile fs (sec_path t) = Inr content \<and> b64_decode False content = Some (take 32 b) \<and> 32 \<le> length b"
  using assms decode_buffer_zero
  by (fastforce simp: Bytes_def getBytes_def setBytes_def numSecretBytes_def split: option.splits sum.splits prod.splits if_splits)

text \<open>Any number of uses of the key, while the file changes as it likes.\<close>

primrec uses_of_key :: "filesystem list \<Rightarrow> sec \<Rightarrow> bytes result list \<times> sec" where
  "uses_of_key [] t = ([], t)"
| "uses_of_key (fs # fss) t = (case Bytes fs t of (res, t') \<Rightarrow> (case uses_of_key fss t' of (rs, t'') \<Rightarrow> (res # rs, t'')))"

lemma uses_loaded: "sec_bytes t = Some b \<Longrightarrow> uses_of_key fss t = (replicate (length fss) (Inr b), t)"
  by (induction fss arbitrary: t) (simp_all add: Bytes_def getBytes_def)

text \<open>The key. Requests fail until the file holds 32 bytes in base 64, and each tries again; the first that succeeds fixes the key for all later
  ones, whatever happens to the file, and its first 32 bytes are those in the file.\<close>

theorem key_read_once:
  assumes "fst (uses_of_key fss (SetPath path t)) = rs" "Inr key \<in> set rs"
  shows "\<exists>k. k < length fss \<and> (\<forall>i < k. \<exists>e. rs ! i = Inl e) \<and> (\<forall>i. k \<le> i \<and> i < length rs \<longrightarrow> rs ! i = Inr key) \<and>
    (\<exists>content. ReadFile (fss ! k) path = Inr content \<and> b64_decode False content = Some (take 32 key) \<and> 32 \<le> length key)"
proof -
  have "\<exists>k. k < length fss \<and> (\<forall>i < k. \<exists>e. rs ! i = Inl e) \<and> (\<forall>i. k \<le> i \<and> i < length rs \<longrightarrow> rs ! i = Inr key) \<and>
      (\<exists>content. ReadFile (fss ! k) path = Inr content \<and> b64_decode False content = Some (take 32 key) \<and> 32 \<le> length key)"
    if "fst (uses_of_key fss u) = rs" "Inr key \<in> set rs" "sec_bytes u = None" "sec_path u = path" for u
    using that
  proof (induction fss arbitrary: rs u)
    case (Cons fs fss)
    obtain res u' where b: "Bytes fs u = (res, u')" by (cases "Bytes fs u")
    define rs' where "rs' = fst (uses_of_key fss u')"
    have rs: "rs = res # rs'" using Cons.prems(1) by (auto simp: b rs'_def split: prod.splits)
    show ?case
    proof (cases res)
      case (Inl e)
      then have "u' = u" using Bytes_error [of fs u e] b by simp
      moreover have "Inr key \<in> set rs'" using Cons.prems(2) rs Inl by simp
      ultimately obtain k where k: "k < length fss" "\<forall>i < k. \<exists>e. rs' ! i = Inl e" "\<forall>i. k \<le> i \<and> i < length rs' \<longrightarrow> rs' ! i = Inr key"
        "\<exists>content. ReadFile (fss ! k) path = Inr content \<and> b64_decode False content = Some (take 32 key) \<and> 32 \<le> length key"
        using Cons.IH [of u' rs'] Cons.prems(3,4) by (auto simp: rs'_def)
      show ?thesis
      proof (intro exI [of _ "Suc k"] conjI allI impI)
        show "\<exists>e. rs ! i = Inl e" if "i < Suc k" for i using that k(2) Inl by (cases i) (auto simp: rs)
        show "rs ! i = Inr key" if "Suc k \<le> i \<and> i < length rs" for i using that k(3) by (cases i) (auto simp: rs)
      qed (use k in auto)
    next
      case (Inr k')
      then have loaded: "sec_bytes u' = Some k'" using Bytes_cached [of fs u k'] b by simp
      have all: "rs = replicate (Suc (length fss)) (Inr k')"
        using uses_loaded [OF loaded, of fss] by (simp add: rs rs'_def Inr)
      with Cons.prems(2) have "k' = key" by (auto simp: in_set_replicate)
      with Bytes_fresh [OF Cons.prems(3), of fs k'] Cons.prems(4) b Inr all show ?thesis
        by (intro exI [of _ 0]) (auto simp del: replicate_Suc)
    qed
  qed simp
  from this [of "SetPath path t"] assms show ?thesis by (auto simp: SetPath_def)
qed

definition key_file :: "char \<Rightarrow> filesystem" where
  "key_file c path = Some (File (b64_encode False (replicate 32 c)) 0)"

theorem key_read_once_witness:
  "\<exists>k < 3. ReadFile ([(\<lambda>_. None), key_file (CHR ''a''), key_file (CHR ''b'')] ! k) ''secret'' =
     Inr (b64_encode False (replicate 32 (CHR ''a'')))"
proof -
  let ?fss = "[(\<lambda>_. None), key_file (CHR ''a''), key_file (CHR ''b'')]" and ?key = "replicate 32 (CHR ''a'') @ [CHR 0x00]"
  obtain rs where rs: "fst (uses_of_key ?fss (SetPath ''secret'' \<lparr>sec_path = [], sec_bytes = None\<rparr>)) = rs" by blast
  have "Inr ?key \<in> set (fst (uses_of_key ?fss (SetPath ''secret'' \<lparr>sec_path = [], sec_bytes = None\<rparr>)))" by code_simp
  from key_read_once [OF rs this [unfolded rs]] obtain k content where k: "k < 3" "ReadFile (?fss ! k) ''secret'' = Inr content"
    "b64_decode False content = Some (take 32 ?key)" by (auto simp: numeral_3_eq_3)
  then consider "k = 0" | "k = 1" | "k = 2" by linarith
  then have "content = b64_encode False (replicate 32 (CHR ''a''))"
    using k(2,3) by cases (auto simp: ReadFile_def key_file_def b64_decode_encode)
  with k show ?thesis by blast
qed

section \<open>Identifiers determine their numbers\<close>

primrec base62_value :: "string \<Rightarrow> int" where
  "base62_value [] = 0"
| "base62_value (c # s) = int (length (takeWhile (\<lambda>d. d \<noteq> c) base62Chars)) + 62 * base62_value s"

lemma base62_distinct: "distinct base62Chars" "length base62Chars = 62"
  by code_simp+

lemma takeWhile_nth: "distinct xs \<Longrightarrow> i < length xs \<Longrightarrow> length (takeWhile (\<lambda>d. d \<noteq> xs ! i) xs) = i"
proof (induction xs arbitrary: i)
  case (Cons x xs)
  then show ?case by (cases i) (auto simp: nth_mem)
qed simp

lemma base62_value_digits: "0 \<le> q \<Longrightarrow> base62_value (base62_digits q) = q"
proof (induction q rule: base62_digits.induct)
  case (1 q)
  show ?case
  proof (cases "q > 0")
    case True
    have "nat (q mod 62) < length base62Chars" by (simp add: base62_distinct nat_less_iff)
    from takeWhile_nth [OF base62_distinct(1) this] 1 True show ?thesis
      by (subst base62_digits.simps) simp
  next
    case False
    with 1 show ?thesis by (subst base62_digits.simps) simp
  qed
qed

lemma encode62_roundtrip: "0 \<le> n \<Longrightarrow> base62_value (encodeReverseBase62 n) = n"
  by (simp add: encodeReverseBase62_def base62_value_digits) (simp add: base62Chars_def)

text \<open>The nanoseconds of a clock before 1970 give no digits at all.\<close>

lemma encode62_negative: "n < 0 \<Longrightarrow> encodeReverseBase62 n = []"
  by (simp add: encodeReverseBase62_def base62_digits.simps)

end
