(* ===== verification/Logging.thy ===== *)
theory Logging
  imports Secret
begin

text \<open>
  Log lines and where they go: \<open>internal/log/logrus.go\<close>, the reporting functions of \<open>internal/helper/helpers.go\<close> and
  \<open>raven.go\<close>, the access log of \<open>internal/helper/logging.go\<close> with its format (\<open>accesslogformatter.go\<close>), and the set-up in
  \<open>src/logging.go\<close>. Everything written is a value: a line of the logger, a packet for Sentry, the bytes of an access log line. The
  context of a request is what it holds as correlation identifier. The clock, the printing of floating point numbers and the opening of files are
  parameters; the stack trace in a packet is left out. The properties say that a line of the access log is
  one line whatever the client sends, and can be read back.
\<close>

section \<open>Entries with a correlation identifier\<close>

datatype field = Str string | Num int | Err "gerror option"

type_synonym fields = "string \<rightharpoonup> field"

text \<open>A context: \<open>None\<close> is the nil pointer, \<open>Some None\<close> has no string under \<open>KeyCorrelationID\<close>.\<close>

type_synonym ctx = "string option option"

definition toLogrusFields :: "(string \<times> field) list \<Rightarrow> fields" where
  "toLogrusFields f = foldl (\<lambda>lFields (k, v). lFields(k \<mapsto> v)) Map.empty f"

definition getCorrelationID :: "ctx \<Rightarrow> string" where
  "getCorrelationID c = (case c of Some (Some str) \<Rightarrow> str | _ \<Rightarrow> ''[MISSING]'')"

definition WithContext :: "ctx \<Rightarrow> fields" where
  "WithContext c = [''correlation-id'' \<mapsto> Str (getCorrelationID c)]"

definition WrapEntry :: "ctx \<Rightarrow> fields \<Rightarrow> fields" where
  "WrapEntry c e = e(''correlation-id'' \<mapsto> Str (getCorrelationID c))"

definition WithFields :: "ctx \<Rightarrow> (string \<times> field) list \<Rightarrow> fields" where
  "WithFields c f = WithContext c ++ toLogrusFields f"

definition WithField :: "ctx \<Rightarrow> string \<Rightarrow> field \<Rightarrow> fields" where
  "WithField c key v = (WithContext c)(key \<mapsto> v)"

definition WithError :: "ctx \<Rightarrow> gerror option \<Rightarrow> fields" where
  "WithError c err = (WithContext c)(''error'' \<mapsto> Err err)"

section \<open>Reporting errors\<close>

record log_line =
  line_level :: string
  line_fields :: fields
  line_msg :: string

record raven_packet =
  packet_http :: "request option"
  packet_value :: string
  packet_type :: string

text \<open>What has been reported, and the request, whose headers are changed in place.\<close>

record reports =
  logged :: "log_line list"
  captured :: "raven_packet list"

definition captureRavenError :: "(gerror \<Rightarrow> string) \<Rightarrow> request option \<Rightarrow> gerror \<Rightarrow> reports \<Rightarrow> request option \<times> reports" where
  "captureRavenError typeOf r err s =
     (let r = map_option CleanHeadersForRaven r in
      (r, s\<lparr>captured := captured s @ [\<lparr>packet_http = r, packet_value = Error err, packet_type = typeOf err\<rparr>]\<rparr>))"

definition printError :: "(request \<times> ctx) option \<Rightarrow> gerror option \<Rightarrow> reports \<Rightarrow> reports" where
  "printError r err s =
     (let line = (case r of
          Some (r, c) \<Rightarrow>
            \<lparr>line_level = ''error'',
             line_fields = (WithFields c [(''method'', Str (req_Method r)), (''uri'', Str (ScrubURLParams (req_RequestURI r)))])
               (''error'' \<mapsto> Err err),
             line_msg = ''error''\<rparr>
        | None \<Rightarrow> \<lparr>line_level = ''error'', line_fields = [''error'' \<mapsto> Err err], line_msg = ''unknown error''\<rparr>)
      in s\<lparr>logged := logged s @ [line]\<rparr>)"

definition LogError :: "(gerror \<Rightarrow> string) \<Rightarrow> (request \<times> ctx) option \<Rightarrow> gerror option \<Rightarrow> reports \<Rightarrow> (request \<times> ctx) option \<times> reports" where
  "LogError typeOf r err s =
     (let (r, s) = (case err of
          None \<Rightarrow> (r, s)
        | Some e \<Rightarrow>
            (case captureRavenError typeOf (map_option fst r) e s of (r', s) \<Rightarrow>
               (case (r', r) of (Some q, Some (_, c)) \<Rightarrow> Some (q, c) | _ \<Rightarrow> None, s)))
      in (r, printError r err s))"

section \<open>The access log\<close>

text \<open>The fields of an entry with the types \<open>accessLogFields\<close> gives them; \<open>duration\<close> is in nanoseconds.\<close>

record access_entry =
  ae_host :: "string option"
  ae_remoteAddr :: "string option"
  ae_method :: "string option"
  ae_uri :: "string option"
  ae_proto :: "string option"
  ae_status :: "int option"
  ae_written :: "int option"
  ae_referer :: "string option"
  ae_userAgent :: "string option"
  ae_duration :: "int option"

definition forNil :: "'a option \<Rightarrow> 'a \<Rightarrow> 'a" where
  "forNil v otherwise = (case v of None \<Rightarrow> otherwise | Some x \<Rightarrow> x)"

text \<open>\<open>now\<close> is the formatted time, \<open>seconds\<close> prints a duration with \<open>%.3f\<close>.\<close>

definition Format :: "string \<Rightarrow> (int \<Rightarrow> string) \<Rightarrow> access_entry \<Rightarrow> bytes" where
  "Format now seconds entry =
     (let host = forNil (ae_host entry) ''-'';
          remoteAddr = forNil (ae_remoteAddr entry) [];
          requestLine = forNil (ae_method entry) [] @ '' '' @ forNil (ae_uri entry) [] @ '' '' @ forNil (ae_proto entry) []
      in host @ '' '' @ remoteAddr @ '' - - ['' @ now @ ''] '' @ Quote requestLine @ '' '' @
         FormatInt (forNil (ae_status entry) 0) @ '' '' @ FormatInt (forNil (ae_written entry) 0) @ '' '' @
         Quote (forNil (ae_referer entry) []) @ '' '' @ Quote (forNil (ae_userAgent entry) []) @ '' '' @
         seconds (forNil (ae_duration entry) 0) @ [CHR 0x0A])"

text \<open>\<open>RequestFinished\<close>: \<open>None\<close> when access logging is off.\<close>

definition access_entry_of :: "string \<Rightarrow> int \<Rightarrow> access_log \<Rightarrow> access_entry" where
  "access_entry_of proto duration f =
     \<lparr>ae_host = Some (log_host f), ae_remoteAddr = Some (log_remoteAddr f), ae_method = Some (log_method f),
      ae_uri = Some (log_uri f), ae_proto = Some proto, ae_status = Some (log_status f), ae_written = Some (log_written f),
      ae_referer = Some (log_referer f), ae_userAgent = Some (log_userAgent f), ae_duration = Some duration\<rparr>"

section \<open>Setting up the loggers\<close>

datatype log_output = Stderr | Log_file string | Discard

datatype formatter = JSONFormatter | TextFormatter | ColoredTextFormatter | AccessLogFormatter

record logger =
  lg_Out :: log_output
  lg_Formatter :: formatter

text \<open>An entry of the standard logger goes wherever that one writes, later changes included.\<close>

datatype access_logger = Standard_logger | Own_logger logger

record loggers =
  std_logger :: logger
  accessLogEntry :: "access_logger option"
  goLog_output :: log_output

record logConfiguration =
  logFile :: string
  logFormat :: string

datatype log_event = Reopening_line | Reopen

definition reopenLogWriter :: "nat \<Rightarrow> log_event list" where
  "reopenLogWriter sighups = concat (replicate sighups [Reopening_line, Reopen])"

definition prepareLoggingFile :: "(string \<Rightarrow> gerror option) \<Rightarrow> string \<Rightarrow> string + log_output" where
  "prepareLoggingFile openFile f =
     (case openFile f of Some err \<Rightarrow> Inl (''Unable to set output log: '' @ Error err) | None \<Rightarrow> Inr (Log_file f))"

text \<open>A left result is the message the program ends with.\<close>

definition startLogging :: "(string \<Rightarrow> gerror option) \<Rightarrow> logConfiguration \<Rightarrow> loggers \<Rightarrow> string + loggers" where
  "startLogging openFile config l =
     (case (if logFile config \<noteq> [] then prepareLoggingFile openFile (logFile config) else Inr Stderr) of
        Inl msg \<Rightarrow> Inl msg
      | Inr out \<Rightarrow>
          let finish = (\<lambda>entry out fmt.
                Inr (l\<lparr>accessLogEntry := entry, std_logger := \<lparr>lg_Out = out, lg_Formatter = fmt\<rparr>, goLog_output := Stderr\<rparr>))
          in if logFormat config = ''none'' then finish None Discard (lg_Formatter (std_logger l))
             else if logFormat config = ''json'' then finish (Some Standard_logger) out JSONFormatter
             else if logFormat config = ''text'' then
               finish (Some (Own_logger \<lparr>lg_Out = out, lg_Formatter = AccessLogFormatter\<rparr>)) out TextFormatter
             else if logFormat config = ''structured'' then finish (Some Standard_logger) out ColoredTextFormatter
             else Inl ''Unknown logFormat configured'')"

definition writeAccessLog :: "loggers \<Rightarrow> ctx \<Rightarrow> access_entry \<Rightarrow> (log_output \<times> formatter \<times> access_entry \<times> string) option" where
  "writeAccessLog l c entry =
     (case accessLogEntry l of
        None \<Rightarrow> None
      | Some Standard_logger \<Rightarrow> Some (lg_Out (std_logger l), lg_Formatter (std_logger l), entry, getCorrelationID c)
      | Some (Own_logger g) \<Rightarrow> Some (lg_Out g, lg_Formatter g, entry, getCorrelationID c))"

section \<open>Reading a line back\<close>

text \<open>A reader for what \<open>%q\<close> prints: the text up to the closing quote, and the rest.\<close>

definition unescape_letter :: "char \<Rightarrow> char" where
  "unescape_letter c =
     (if c = CHR ''a'' then CHR 0x07 else if c = CHR ''b'' then CHR 0x08 else if c = CHR ''t'' then CHR 0x09
      else if c = CHR ''n'' then CHR 0x0A else if c = CHR ''v'' then CHR 0x0B else if c = CHR ''f'' then CHR 0x0C
      else if c = CHR ''r'' then CHR 0x0D else c)"

fun unquote :: "string \<Rightarrow> (string \<times> string) option" where
  "unquote [] = None"
| "unquote (c # s) =
     (if c = CHR 0x22 then Some ([], s)
      else if c = CHR 0x5C then
        (case s of
           [] \<Rightarrow> None
         | e # t \<Rightarrow>
             if e = CHR ''x'' then
               (case t of
                  h # l # u \<Rightarrow>
                    (case (hex_value h, hex_value l) of
                       (Some x, Some y) \<Rightarrow> map_option (apfst (Cons (char_of (16 * x + y)))) (unquote u)
                     | _ \<Rightarrow> None)
                | _ \<Rightarrow> None)
             else map_option (apfst (Cons (unescape_letter e))) (unquote t))
      else map_option (apfst (Cons c)) (unquote s))"

definition special_chars :: string where
  "special_chars = [CHR 0x22, CHR 0x5C, CHR 0x07, CHR 0x08, CHR 0x09, CHR 0x0A, CHR 0x0B, CHR 0x0C, CHR 0x0D]"

lemma special_chars_code: "c \<in> set special_chars \<longleftrightarrow> (of_char c :: nat) \<in> set [34, 92, 7, 8, 9, 10, 11, 12, 13]"
proof -
  have "set special_chars = char_of ` set [34, 92, 7, 8, 9, 10, 11, 12, 13 :: nat]" by code_simp
  moreover have "of_char ` set special_chars = set [34, 92, 7, 8, 9, 10, 11, 12, 13 :: nat]" by code_simp
  ultimately show ?thesis by (metis char_of_char image_eqI)
qed

lemma unquote_special: "c \<in> set special_chars \<Longrightarrow> unquote (quote_char c @ s) = map_option (apfst (Cons c)) (unquote s)"
  unfolding special_chars_def list.set insert_iff empty_iff
  by (elim disjE) (simp_all add: quote_char_def unescape_letter_def)

lemma unquote_quote_char: "unquote (quote_char c @ s) = map_option (apfst (Cons c)) (unquote s)"
proof -
  define n where "n = (of_char c :: nat)"
  have c: "c = char_of n" by (simp add: n_def)
  have "n < 256" using of_char_less [of c] by (simp add: n_def)
  then have hex: "n div 16 < 16" "16 * (n div 16) + n mod 16 = n" by auto
  show ?thesis
  proof (cases "c \<in> set special_chars")
    case True
    then show ?thesis by (rule unquote_special)
  next
    case special: False
    show ?thesis
    proof (cases "n < 32 \<or> 127 \<le> n")
      case True
      then have "quote_char c = [CHR 0x5C, CHR ''x'', hex_lower (n div 16), hex_lower (n mod 16)]"
        using special by (simp add: special_chars_code quote_char_def Let_def n_def)
      then show ?thesis using hex by (simp add: hex_value_digit c)
    next
      case False
      then have "quote_char c = [c]" "c \<noteq> CHR 0x22" "c \<noteq> CHR 0x5C"
        using special special_chars_code [of c] by (auto simp: quote_char_def Let_def n_def special_chars_def)
      then show ?thesis by simp
    qed
  qed
qed

lemma unquote_Quote: "unquote (tl (Quote s @ t)) = Some (s, t)"
proof -
  have "unquote (concat (map quote_char s) @ CHR 0x22 # t) = Some (s, t)"
    by (induction s) (simp_all add: unquote_quote_char)
  then show ?thesis by (simp add: Quote_def)
qed

lemma Quote_unique: "Quote s @ a = Quote t @ b \<longleftrightarrow> s = t \<and> a = b"
  by (metis unquote_Quote option.inject prod.inject)

lemma separated_unique:
  assumes "c \<notin> set a" "c \<notin> set b"
  shows "a @ c # x = b @ c # y \<longleftrightarrow> a = b \<and> x = y"
  using assms by (metis takeWhile_neq_append append_same_eq append_eq_append_conv list.inject)

lemma quote_char_no_break: "CHR 0x0A \<notin> set (quote_char c)"
proof (cases "c \<in> set special_chars")
  case True
  then show ?thesis unfolding special_chars_def list.set insert_iff empty_iff
    by (elim disjE) (simp_all add: quote_char_def)
next
  case False
  have hex: "hex_lower k \<noteq> CHR 0x0A" if "k < 16" for k
    using hex_value_digit [OF that] by (auto simp: hex_value_def)
  have "(of_char c :: nat) div 16 < 16" using of_char_less [of c] by linarith
  then show ?thesis
    using False special_chars_code [of c] hex [of "of_char c div 16"] hex [of "of_char c mod 16"]
    by (auto simp: quote_char_def Let_def special_chars_def)
qed

lemma Quote_no_break: "CHR 0x0A \<notin> set (Quote s)"
  by (auto simp: Quote_def quote_char_no_break)

lemma FormatInt_chars: "c \<in> set (FormatInt i) \<Longrightarrow> is_digit c \<or> c = CHR ''-''"
  using format_nat_digits by (auto simp: FormatInt_def split: if_splits)

lemma FormatInt_no_space: "CHR '' '' \<notin> set (FormatInt i)" "CHR 0x0A \<notin> set (FormatInt i)"
  using FormatInt_chars [of "CHR '' ''" i] FormatInt_chars [of "CHR 0x0A" i] by (auto simp: is_digit_def)

lemma FormatInt_inj: "FormatInt i = FormatInt j \<longleftrightarrow> i = j"
proof
  assume eq: "FormatInt i = FormatInt j"
  have neg: "hd (FormatInt k) = CHR ''-'' \<longleftrightarrow> k < 0" for k
  proof -
    have "\<not> is_digit (CHR ''-'')" by (simp add: is_digit_def)
    then have "hd (format_nat m) \<noteq> CHR ''-''" for m
      using format_nat_digits [of "hd (format_nat m)" m] by auto
    then show ?thesis by (simp add: FormatInt_def)
  qed
  show "i = j" using eq neg [of i] neg [of j] by (auto simp: FormatInt_def split: if_splits dest!: format_nat_inj)
qed simp

definition plain_text :: "string \<Rightarrow> char list \<Rightarrow> bool" where
  "plain_text s avoid \<longleftrightarrow> CHR 0x0A \<notin> set s \<and> list_all ascii s \<and> set s \<inter> set avoid = {}"

text \<open>What an entry shows of a request.\<close>

definition request_line :: "access_entry \<Rightarrow> string" where
  "request_line e = forNil (ae_method e) [] @ '' '' @ forNil (ae_uri e) [] @ '' '' @ forNil (ae_proto e) []"

definition client_text :: "access_entry \<Rightarrow> string list" where
  "client_text e = [request_line e, forNil (ae_referer e) [], forNil (ae_userAgent e) []]"

definition entry_ok :: "access_entry \<Rightarrow> bool" where
  "entry_ok e \<longleftrightarrow> plain_text (forNil (ae_host e) ''-'') '' '' \<and> plain_text (forNil (ae_remoteAddr e) []) '' '' \<and>
     list_all (list_all ascii) (client_text e)"

lemma Format_alt:
  "Format now seconds e =
     forNil (ae_host e) ''-'' @ CHR '' '' # (forNil (ae_remoteAddr e) [] @ CHR '' '' # (''- - ['' @ (now @ CHR '']'' # ('' '' @
     (Quote (request_line e) @ (CHR '' '' # (FormatInt (forNil (ae_status e) 0) @ CHR '' '' # (FormatInt (forNil (ae_written e) 0) @ CHR '' '' #
     (Quote (forNil (ae_referer e) []) @ (CHR '' '' # (Quote (forNil (ae_userAgent e) []) @
       (CHR '' '' # (seconds (forNil (ae_duration e) 0) @ [CHR 0x0A])))))))))))))"
  by (simp add: Format_def request_line_def Let_def)

lemma Format_unique:
  assumes "CHR '' '' \<notin> set (forNil (ae_host e) ''-'')" "CHR '' '' \<notin> set (forNil (ae_remoteAddr e) [])" "CHR '']'' \<notin> set now"
    "CHR '' '' \<notin> set (forNil (ae_host e') ''-'')" "CHR '' '' \<notin> set (forNil (ae_remoteAddr e') [])" "CHR '']'' \<notin> set now'"
    "Format now' seconds e' = Format now seconds e"
  shows "forNil (ae_host e') ''-'' = forNil (ae_host e) ''-'' \<and> forNil (ae_remoteAddr e') [] = forNil (ae_remoteAddr e) [] \<and>
       now' = now \<and> client_text e' = client_text e \<and>
       forNil (ae_status e') 0 = forNil (ae_status e) 0 \<and> forNil (ae_written e') 0 = forNil (ae_written e) 0"
  using assms(7) unfolding Format_alt
  by (simp add: assms(1-6) separated_unique Quote_unique FormatInt_no_space FormatInt_inj client_text_def)


text \<open>A user agent with a line break and a forged second line.\<close>

definition forging_entry :: access_entry where
  "forging_entry = \<lparr>ae_host = Some ''gitlab'', ae_remoteAddr = Some ''10.0.0.1'', ae_method = Some ''GET'', ae_uri = Some ''/'',
     ae_proto = Some ''HTTP/1.1'', ae_status = Some 404, ae_written = Some 0, ae_referer = None,
     ae_userAgent = Some (''x'' @ [CHR 0x0A] @ ''root 200''), ae_duration = None\<rparr>"


section \<open>Where lines go\<close>

text \<open>Where the log goes. Logging starts exactly for the four formats and, if a file is named, when it can be opened. With
  \<open>none\<close> nothing is logged; with any other format a finished request is logged to the file, or else to standard error,
  which is where all other lines go too, and the access log format is used for \<open>text\<close> only.\<close>

theorem startLogging_outcome:
  "let out = (if logFile config = [] then Stderr else Log_file (logFile config));
       ok = (logFormat config \<in> {''none'', ''json'', ''text'', ''structured''} \<and> (logFile config = [] \<or> openFile (logFile config) = None))
   in case startLogging openFile config l of
        Inl msg \<Rightarrow> \<not> ok
      | Inr l' \<Rightarrow> ok \<and> goLog_output l' = Stderr \<and>
          (if logFormat config = ''none'' then lg_Out (std_logger l') = Discard \<and> writeAccessLog l' c e = None
           else lg_Out (std_logger l') = out \<and>
             (\<exists>fmt. writeAccessLog l' c e = Some (out, fmt, e, getCorrelationID c) \<and>
                (fmt = AccessLogFormatter \<longleftrightarrow> logFormat config = ''text'')))"
  by (auto simp: startLogging_def prepareLoggingFile_def writeAccessLog_def Let_def split: option.splits)

theorem startLogging_outcome_witness:
  "case startLogging (\<lambda>_. None) \<lparr>logFile = ''w.log'', logFormat = ''text''\<rparr>
     \<lparr>std_logger = \<lparr>lg_Out = Stderr, lg_Formatter = TextFormatter\<rparr>, accessLogEntry = None, goLog_output = Stderr\<rparr> of
     Inl _ \<Rightarrow> False
   | Inr l' \<Rightarrow> writeAccessLog l' None forging_entry = Some (Log_file ''w.log'', AccessLogFormatter, forging_entry, ''[MISSING]'')"
  using startLogging_outcome [where config = "\<lparr>logFile = ''w.log'', logFormat = ''text''\<rparr>" and openFile = "\<lambda>_. None" and c = None
      and l = "\<lparr>std_logger = \<lparr>lg_Out = Stderr, lg_Formatter = TextFormatter\<rparr>, accessLogEntry = None, goLog_output = Stderr\<rparr>"
      and e = forging_entry]
  by (auto simp: Let_def getCorrelationID_def split: sum.splits)

section \<open>What is reported\<close>

lemma update_twice: "AList.update k a (AList.update k b h) = AList.update k a h"
  by (induction h) auto

lemma update_commute: "map_of h k \<noteq> None \<Longrightarrow> k \<noteq> k' \<Longrightarrow> AList.update k a (AList.update k' b h) = AList.update k' b (AList.update k a h)"
  by (induction h) auto



text \<open>Every report names its request by method, scrubbed URI and correlation identifier, and is logged once; an error is
  captured once, with the headers of the request redacted.\<close>

theorem LogError_reports:
  "LogError typeOf (Some (r, c)) err s =
     (let q = (if err = None then r else CleanHeadersForRaven r) in
      (Some (q, c), s\<lparr>
         logged := logged s @ [\<lparr>line_level = ''error'', line_fields = [''correlation-id'' \<mapsto> Str (getCorrelationID c),
            ''method'' \<mapsto> Str (req_Method r), ''uri'' \<mapsto> Str (ScrubURLParams (req_RequestURI r)), ''error'' \<mapsto> Err err], line_msg = ''error''\<rparr>],
         captured := captured s @ (case err of None \<Rightarrow> [] | Some e \<Rightarrow>
            [\<lparr>packet_http = Some q, packet_value = Error e, packet_type = typeOf e\<rparr>])\<rparr>))"
proof -
  have "req_Method (CleanHeadersForRaven r) = req_Method r" "req_RequestURI (CleanHeadersForRaven r) = req_RequestURI r"
    by (simp_all add: CleanHeadersForRaven_def ravenHeaderBlacklist_def)
  then show ?thesis
    by (cases err) (simp_all add: LogError_def captureRavenError_def printError_def WithFields_def WithContext_def
        toLogrusFields_def Let_def map_add_def fun_eq_iff)
qed

text \<open>The redaction looks at the first value of a header only: an empty one before it keeps a credential in the report.\<close>

theorem second_credential_kept:
  "req_Header (CleanHeadersForRaven (sample_request\<lparr>req_Header := [(''Authorization'', [[], ''Bearer s3cret''])]\<rparr>)) =
     [(''Authorization'', [[], ''Bearer s3cret''])]"
  by code_simp

end
