(* ===== verification/Program.thy ===== *)
theory Program
  imports Upstream Queueing Redis Logging
begin

text \<open>
  \<open>src/main.go\<close> with \<open>raven.go\<close>, \<open>config.LoadConfig\<close> and the instrumentation of \<open>upstream/metrics.go\<close>: from the flags to
  the server. What the program does to its surroundings is a list of events in the order of the code; the operating system, the flag
  and TOML parsers, Sentry and the Prometheus library are parameters. The properties say when the program serves and with
  which settings, that the umask is back in place however it ends, and that nothing listens that was not asked for.
\<close>

section \<open>Flags and configuration\<close>

record flags =
  printVersion :: bool
  configFile :: string
  listenAddr :: string
  listenNetwork :: string
  listenUmask :: int
  authBackend :: string
  authSocket :: string
  pprofListenAddr :: string
  documentRoot :: string
  proxyHeadersTimeout :: int
  developmentMode :: bool
  secretPath :: string
  apiLimit :: nat
  apiQueueLimit :: nat
  apiQueueTimeout :: int
  apiCiLongPollingDuration :: int
  prometheusListenAddr :: string
  logConfig :: logConfiguration

text \<open>Durations are in nanoseconds.\<close>

definition default_flags :: flags where
  "default_flags =
     \<lparr>printVersion = False, configFile = [], listenAddr = ''localhost:8181'', listenNetwork = ''tcp'', listenUmask = 0,
      authBackend = ''http://localhost:8080'', authSocket = [], pprofListenAddr = [], documentRoot = ''public'',
      proxyHeadersTimeout = 5 * 60 * 1000000000, developmentMode = False, secretPath = ''./.gitlab_workhorse_secret'',
      apiLimit = 0, apiQueueLimit = 0, apiQueueTimeout = DefaultTimeout, apiCiLongPollingDuration = 50,
      prometheusListenAddr = [], logConfig = \<lparr>logFile = [], logFormat = ''text''\<rparr>\<rparr>"

text \<open>Only the Redis section of the file is decoded.\<close>

definition LoadConfig :: "(string \<Rightarrow> RedisConfig option result) \<Rightarrow> string \<Rightarrow> Config result" where
  "LoadConfig decodeFile filename =
     (case decodeFile filename of
        Inl err \<Rightarrow> Inl err
      | Inr redis \<Rightarrow> Inr \<lparr>cfg_Redis = redis, cfg_Backend = None, cfg_Version = [], cfg_DocumentRoot = [], cfg_DevelopmentMode = False,
          cfg_Socket = [], cfg_ProxyHeadersTimeout = 0, cfg_APILimit = 0, cfg_APIQueueLimit = 0, cfg_APIQueueTimeout = 0,
          cfg_APICILongPollingDuration = 0\<rparr>)"

definition flag_config :: "string \<Rightarrow> flags \<Rightarrow> url \<Rightarrow> Config" where
  "flag_config version f backendURL =
     \<lparr>cfg_Redis = None, cfg_Backend = Some backendURL, cfg_Version = version, cfg_DocumentRoot = documentRoot f,
      cfg_DevelopmentMode = developmentMode f, cfg_Socket = authSocket f, cfg_ProxyHeadersTimeout = proxyHeadersTimeout f,
      cfg_APILimit = apiLimit f, cfg_APIQueueLimit = apiQueueLimit f, cfg_APIQueueTimeout = apiQueueTimeout f,
      cfg_APICILongPollingDuration = apiCiLongPollingDuration f\<rparr>"

section \<open>The program\<close>

datatype event =
    Println string
  | Log_starting string
  | Remove string
  | Umask int
  | Listen string string
  | Serve_profiler string
  | Serve_metrics string
  | Redis_Process
  | Serve

record process =
  pr_events :: "event list"
  pr_loggers :: loggers
  pr_secret :: sec
  pr_redis :: redis_state

text \<open>How it ends: by exit, by a fatal line, by a panic, or in serving requests with this configuration.\<close>

datatype outcome = Exit int | Fatal string | Crash string | Serving Config upstream RoundTripper

record os =
  os_openLog :: "string \<Rightarrow> gerror option"
  os_parse :: "string \<Rightarrow> url result"
  os_Remove :: "string \<Rightarrow> gerror option"
  os_umask :: int
  os_Listen :: "string \<Rightarrow> string \<Rightarrow> gerror option"
  os_decodeFile :: "string \<Rightarrow> RedisConfig option result"

definition emit :: "event list \<Rightarrow> process \<Rightarrow> process" where
  "emit es p = p\<lparr>pr_events := pr_events p @ es\<rparr>"

text \<open>Opening the listener: the stale socket is removed first, the umask is changed around \<open>net.Listen\<close> only.\<close>

definition open_listener :: "os \<Rightarrow> flags \<Rightarrow> process \<Rightarrow> gerror option \<times> process" where
  "open_listener os f p =
     (let (err, p) = (if listenNetwork f = ''unix'' then (os_Remove os (listenAddr f), emit [Remove (listenAddr f)] p) else (None, p))
      in if err \<noteq> None \<and> err \<noteq> Some ErrNotExist then (err, p)
         else (os_Listen os (listenNetwork f) (listenAddr f),
               emit [Umask (listenUmask f), Listen (listenNetwork f) (listenAddr f), Umask (os_umask os)] p))"

text \<open>The configuration file, for its Redis section.\<close>

definition configure_redis :: "os \<Rightarrow> flags \<Rightarrow> Config \<Rightarrow> process \<Rightarrow> (gerror + Config) \<times> process" where
  "configure_redis os f cfg p =
     (if configFile f = [] then (Inr cfg, p)
      else case LoadConfig (os_decodeFile os) (configFile f) of
        Inl err \<Rightarrow> (Inl err, p)
      | Inr cfgFromFile \<Rightarrow>
          let cfg = cfg\<lparr>cfg_Redis := cfg_Redis cfgFromFile\<rparr> in
          if cfg_Redis cfg \<noteq> None
          then (Inr cfg, emit [Redis_Process] (p\<lparr>pr_redis := Configure (cfg_Redis cfg) DefaultDialFunc (pr_redis p)\<rparr>))
          else (Inr cfg, p))"

definition main :: "string \<Rightarrow> os \<Rightarrow> flags \<Rightarrow> process \<Rightarrow> outcome \<times> process" where
  "main Version os f p =
     (let version = ''gitlab-workhorse '' @ Version in
      if printVersion f then (Exit 0, emit [Println version] p)
      else case startLogging (os_openLog os) (logConfig f) (pr_loggers p) of
        Inl msg \<Rightarrow> (Fatal msg, p)
      | Inr l \<Rightarrow>
     (let p = p\<lparr>pr_loggers := l\<rparr> in
      case parseAuthBackend (os_parse os) (authBackend f) of
        Inl err \<Rightarrow> (Fatal ''invalid authBackend'', p)
      | Inr backendURL \<Rightarrow>
     (case open_listener os f (emit [Log_starting version] p) of
        (Some err, p) \<Rightarrow> (Fatal (Error err), p)
      | (None, p) \<Rightarrow>
     (let p = (if pprofListenAddr f \<noteq> [] then emit [Serve_profiler (pprofListenAddr f)] p else p);
          p = (if prometheusListenAddr f \<noteq> [] then emit [Serve_metrics (prometheusListenAddr f)] p else p);
          p = p\<lparr>pr_secret := SetPath (secretPath f) (pr_secret p)\<rparr> in
      case configure_redis os f (flag_config Version f backendURL) p of
        (Inl err, p) \<Rightarrow> (Fatal ''Can not load config file'', p)
      | (Inr cfg, p) \<Rightarrow>
     (case NewUpstream cfg of
        Panic msg \<Rightarrow> (Crash msg, p)
      | Return (up, rt) \<Rightarrow> (Serving cfg up rt, emit [Serve] p))))))"

section \<open>Panics\<close>

text \<open>
  A handler that may panic, with the request as it leaves it. \<open>recovery\<close> is \<open>raven.RecoveryHandler\<close>.
\<close>

type_synonym 's panicking = "request \<Rightarrow> 's \<Rightarrow> request \<times> 's \<times> string option"

definition wrapRaven :: "('s panicking \<Rightarrow> 's panicking) \<Rightarrow> string \<Rightarrow> 's panicking \<Rightarrow> 's panicking" where
  "wrapRaven recovery sentryDSN h =
     (if sentryDSN = [] then h
      else recovery (\<lambda>r s. case h r s of (r, s, p) \<Rightarrow> (if p \<noteq> None then CleanHeadersForRaven r else r, s, p)))"

text \<open>What is served: \<open>upstream\<close> takes the correlation identifier of its request.\<close>

definition root_handler :: "('s panicking \<Rightarrow> 's panicking) \<Rightarrow> string \<Rightarrow> int result \<Rightarrow> int \<Rightarrow> (string \<Rightarrow> 's panicking) \<Rightarrow> 's panicking" where
  "root_handler recovery sentryDSN randInt unixNano upstream =
     wrapRaven recovery sentryDSN (\<lambda>r s. upstream (InjectCorrelationID randInt unixNano r) r s)"

section \<open>Instrumentation\<close>

record 's promhttp =
  InstrumentHandlerCounter :: "string \<Rightarrow> string \<Rightarrow> 's handler \<Rightarrow> 's handler"
  InstrumentHandlerDuration :: "string \<Rightarrow> string \<Rightarrow> 's handler \<Rightarrow> 's handler"
  InstrumentHandlerInFlight :: "string \<Rightarrow> 's handler \<Rightarrow> 's handler"
  InstrumentHandlerRequestSize :: "string \<Rightarrow> string \<Rightarrow> 's handler \<Rightarrow> 's handler"
  InstrumentHandlerResponseSize :: "string \<Rightarrow> string \<Rightarrow> 's handler \<Rightarrow> 's handler"
  InstrumentHandlerTimeToWriteHeader :: "string \<Rightarrow> string \<Rightarrow> 's handler \<Rightarrow> 's handler"

text \<open>Each is given the collector it uses; the method is not used.\<close>

definition instrumentRoute :: "'s promhttp \<Rightarrow> 's handler \<Rightarrow> string \<Rightarrow> string \<Rightarrow> 's handler" where
  "instrumentRoute prom next method regexpStr =
     (let h = InstrumentHandlerCounter prom ''requests_total'' regexpStr next;
          h = InstrumentHandlerDuration prom ''request_duration_seconds'' regexpStr h;
          h = InstrumentHandlerInFlight prom ''in_flight_requests'' h;
          h = InstrumentHandlerRequestSize prom ''request_size_bytes'' regexpStr h;
          h = InstrumentHandlerResponseSize prom ''response_size_bytes'' regexpStr h
      in InstrumentHandlerTimeToWriteHeader prom ''time_to_write_header_seconds'' regexpStr h)"

definition registered_metrics :: "string list" where
  "registered_metrics = [''in_flight_requests'', ''requests_total'', ''request_duration_seconds'', ''request_size_bytes'',
     ''time_to_write_header_seconds'']"

text \<open>Bounds in milliseconds, and in bytes.\<close>

definition secondsDurationBuckets :: "int list" where
  "secondsDurationBuckets = [5, 25, 100, 500, 1000, 10000, 30000, 60000, 300000]"

definition byteSizeBuckets :: "int list" where
  "byteSizeBuckets = [10, 64, 256, 1024, 64 * 1024, 256 * 1024, 1024 * 1024, 64 * 1024 * 1024]"

section \<open>Properties\<close>

text \<open>The parts of a run: what is done for the listener, and the other servers.\<close>

definition removal :: "flags \<Rightarrow> event list" where
  "removal f = (if listenNetwork f = ''unix'' then [Remove (listenAddr f)] else [])"

definition guarded_listen :: "os \<Rightarrow> flags \<Rightarrow> event list" where
  "guarded_listen os f = [Umask (listenUmask f), Listen (listenNetwork f) (listenAddr f), Umask (os_umask os)]"

definition extra_servers :: "flags \<Rightarrow> event list" where
  "extra_servers f = (if pprofListenAddr f \<noteq> [] then [Serve_profiler (pprofListenAddr f)] else []) @
     (if prometheusListenAddr f \<noteq> [] then [Serve_metrics (prometheusListenAddr f)] else [])"

lemma parseAuthBackend_http: "parseAuthBackend parse s = Inr u \<Longrightarrow> url_Scheme u = ''http'' \<and> url_Host u \<noteq> []"
  by (auto simp: parseAuthBackend_def split: sum.splits if_splits)

lemma NewUpstream_Return:
  "NewUpstream cfg = Return (up, rt) \<Longrightarrow> cfg_Backend cfg = Some b \<Longrightarrow>
   up = \<lparr>DocumentRoot = cfg_DocumentRoot cfg, DevelopmentMode = cfg_DevelopmentMode cfg, URLPrefix = configureURLPrefix (url_Path b)\<rparr> \<and>
   rt_developmentMode rt = cfg_DevelopmentMode cfg \<and> rt_ResponseHeaderTimeout rt = cfg_ProxyHeadersTimeout cfg \<and>
   (if cfg_Socket cfg \<noteq> [] then rt_dial rt = Dial_unix (cfg_Socket cfg)
    else \<exists>address. mustParseAddress (url_Host b) (url_Scheme b) = Return address \<and> rt_dial rt = Dial_tcp address)"
  by (auto simp: NewUpstream_def NewRoundTripper_def bind_go_Return split: if_splits)

lemma listener_opened:
  "open_listener os f p = (None, q) \<Longrightarrow>
   q = emit (removal f @ guarded_listen os f) p"
  by (auto simp: open_listener_def emit_def removal_def guarded_listen_def Let_def split: if_splits)

lemma redis_configured:
  "configure_redis os f cfg p = (Inr cfg', q) \<Longrightarrow>
   \<exists>redis. cfg' = cfg\<lparr>cfg_Redis := redis\<rparr> \<and> (configFile f = [] \<longrightarrow> redis = cfg_Redis cfg) \<and>
     (configFile f \<noteq> [] \<longrightarrow> os_decodeFile os (configFile f) = Inr redis) \<and> pr_secret q = pr_secret p \<and>
     pr_events q = pr_events p @ (if configFile f \<noteq> [] \<and> redis \<noteq> None then [Redis_Process] else [])"
  by (auto simp: configure_redis_def LoadConfig_def emit_def Let_def split: sum.splits if_splits)

lemma main_serving_steps:
  assumes "main V os f p = (Serving cfg up rt, q)"
  obtains l b p1 p2 where "\<not> printVersion f" "startLogging (os_openLog os) (logConfig f) (pr_loggers p) = Inr l"
    "parseAuthBackend (os_parse os) (authBackend f) = Inr b"
    "open_listener os f (emit [Log_starting (''gitlab-workhorse '' @ V)] (p\<lparr>pr_loggers := l\<rparr>)) = (None, p1)"
    "configure_redis os f (flag_config V f b)
      ((emit (extra_servers f) p1)\<lparr>pr_secret := SetPath (secretPath f) (pr_secret p1)\<rparr>) = (Inr cfg, p2)"
    "NewUpstream cfg = Return (up, rt)" "q = emit [Serve] p2"
  using assms
  by (auto simp: main_def Let_def emit_def extra_servers_def split: if_splits sum.splits option.splits prod.splits go.splits)


text \<open>An operating system in which everything works, and a process that has just started.\<close>

definition sample_os :: os where
  "sample_os = \<lparr>os_openLog = (\<lambda>_. None),
     os_parse = (\<lambda>u. Inr \<lparr>url_Scheme = ''http'', url_Host = drop 7 u, url_Path = [], url_RawQuery = []\<rparr>),
     os_Remove = (\<lambda>_. Some ErrNotExist), os_umask = 18, os_Listen = (\<lambda>_ _. None), os_decodeFile = (\<lambda>_. Inr None)\<rparr>"

definition new_process :: process where
  "new_process = \<lparr>pr_events = [],
     pr_loggers = \<lparr>std_logger = \<lparr>lg_Out = Stderr, lg_Formatter = TextFormatter\<rparr>, accessLogEntry = None, goLog_output = Stderr\<rparr>,
     pr_secret = \<lparr>sec_path = [], sec_bytes = None\<rparr>,
     pr_redis = \<lparr>rs_pool = None, rs_sntnl = None, rs_workerDialFunc = None, rs_poolDialFunc = None\<rparr>\<rparr>"


text \<open>The umask in force after a list of events, and at each listener that is opened.\<close>

fun umask_after :: "int \<Rightarrow> event list \<Rightarrow> int" where
  "umask_after u [] = u"
| "umask_after u (Umask v # es) = umask_after v es"
| "umask_after u (_ # es) = umask_after u es"

fun listens_under :: "int \<Rightarrow> event list \<Rightarrow> (int \<times> string \<times> string) list" where
  "listens_under u [] = []"
| "listens_under u (Umask v # es) = listens_under v es"
| "listens_under u (Listen n a # es) = (u, n, a) # listens_under u es"
| "listens_under u (_ # es) = listens_under u es"

lemma umask_after_append [simp]: "umask_after u (es @ fs) = umask_after (umask_after u es) fs"
  by (induction u es rule: umask_after.induct) simp_all

lemma listens_under_append [simp]: "listens_under u (es @ fs) = listens_under u es @ listens_under (umask_after u es) fs"
  by (induction u es rule: listens_under.induct) simp_all

lemma listener_events:
  "open_listener os f p = (err, q) \<Longrightarrow>
   pr_events q = pr_events p @ removal f \<and> err \<noteq> None \<or> pr_events q = pr_events p @ removal f @ guarded_listen os f"
  by (auto simp: open_listener_def emit_def removal_def guarded_listen_def Let_def split: if_splits) metis

lemma redis_events: "configure_redis os f cfg p = (res, q) \<Longrightarrow> pr_events q \<in> {pr_events p, pr_events p @ [Redis_Process]}"
  by (auto simp: configure_redis_def emit_def Let_def split: sum.splits if_splits)

lemma main_not_started:
  "printVersion f \<or> (\<exists>msg. startLogging (os_openLog os) (logConfig f) (pr_loggers p) = Inl msg) \<or>
     (\<exists>err. parseAuthBackend (os_parse os) (authBackend f) = Inl err) \<Longrightarrow>
   (\<forall>cfg up rt. fst (main V os f p) \<noteq> Serving cfg up rt) \<and>
   pr_events (snd (main V os f p)) \<in> {pr_events p, pr_events p @ [Println (''gitlab-workhorse '' @ V)]}"
  by (auto simp: main_def Let_def emit_def split: sum.splits)

lemma main_started:
  assumes "\<not> printVersion f" "startLogging (os_openLog os) (logConfig f) (pr_loggers p) = Inr l"
    "parseAuthBackend (os_parse os) (authBackend f) = Inr b" "pr_events p = []"
  shows "\<exists>rest \<in> {[], guarded_listen os f, guarded_listen os f @ extra_servers f, guarded_listen os f @ extra_servers f @ [Redis_Process]}.
    \<exists>served. pr_events (snd (main V os f p)) = [Log_starting (''gitlab-workhorse '' @ V)] @ removal f @ rest @ (if served then [Serve] else []) \<and>
      (served \<longleftrightarrow> (\<exists>cfg up rt. fst (main V os f p) = Serving cfg up rt))"
proof -
  let ?p = "emit [Log_starting (''gitlab-workhorse '' @ V)] (p\<lparr>pr_loggers := l\<rparr>)"
  obtain err p1 where op: "open_listener os f ?p = (err, p1)" by fastforce
  have p: "pr_events ?p = [Log_starting (''gitlab-workhorse '' @ V)]" using assms(4) by (simp add: emit_def)
  show ?thesis
  proof (cases err)
    case (Some e)
    then have "main V os f p = (Fatal (Error e), p1)" using assms op by (simp add: main_def)
    then show ?thesis using listener_events [OF op] p by auto
  next
    case None
    let ?p2 = "(emit (extra_servers f) p1)\<lparr>pr_secret := SetPath (secretPath f) (pr_secret p1)\<rparr>"
    obtain res p3 where rd: "configure_redis os f (flag_config V f b) ?p2 = (res, p3)" by fastforce
    have m: "main V os f p = (case res of Inl err \<Rightarrow> (Fatal ''Can not load config file'', p3)
        | Inr cfg \<Rightarrow> (case NewUpstream cfg of Panic msg \<Rightarrow> (Crash msg, p3) | Return (up, rt) \<Rightarrow> (Serving cfg up rt, emit [Serve] p3)))"
      using assms op None rd by (auto simp: main_def Let_def emit_def extra_servers_def split: sum.splits)
    have "pr_events p3 \<in> {[Log_starting (''gitlab-workhorse '' @ V)] @ removal f @ guarded_listen os f @ extra_servers f,
        [Log_starting (''gitlab-workhorse '' @ V)] @ removal f @ guarded_listen os f @ extra_servers f @ [Redis_Process]}"
      using redis_events [OF rd] listener_events [OF op] None p by (auto simp: emit_def)
    then show ?thesis unfolding m by (auto simp: emit_def split: sum.splits go.splits prod.splits)
  qed
qed



text \<open>A backend address without a host name passes the check on the flag and crashes the program when the server has been opened.\<close>

theorem hostless_backend_crashes:
  "parseAuthBackend (os_parse sample_os) ''http://:8080'' = Inr \<lparr>url_Scheme = ''http'', url_Host = '':8080'', url_Path = [], url_RawQuery = []\<rparr> \<and>
   (\<exists>msg q. main ''v1'' sample_os (default_flags\<lparr>authBackend := ''http://:8080''\<rparr>) new_process = (Crash msg, q) \<and>
      Listen ''tcp'' ''localhost:8181'' \<in> set (pr_events q))"
proof
  show "parseAuthBackend (os_parse sample_os) ''http://:8080'' = Inr \<lparr>url_Scheme = ''http'', url_Host = '':8080'', url_Path = [], url_RawQuery = []\<rparr>"
    by code_simp
  have "case main ''v1'' sample_os (default_flags\<lparr>authBackend := ''http://:8080''\<rparr>) new_process of
      (Crash msg, q) \<Rightarrow> Listen ''tcp'' ''localhost:8181'' \<in> set (pr_events q) | _ \<Rightarrow> False" by code_simp
  then show "\<exists>msg q. main ''v1'' sample_os (default_flags\<lparr>authBackend := ''http://:8080''\<rparr>) new_process = (Crash msg, q) \<and>
      Listen ''tcp'' ''localhost:8181'' \<in> set (pr_events q)"
    by (auto split: prod.splits outcome.splits)
qed

text \<open>The wrapper for panics changes nothing for a request that is served without one, if recovering does not; and what it hands to the
  recovery after a panic is the request with its credentials redacted.\<close>

theorem root_handler_panics:
  assumes "\<And>h r s r' s'. h r s = (r', s', None) \<Longrightarrow> recovery h r s = (r', s', None)"
    and "upstream (InjectCorrelationID randInt unixNano r) r s = (r', s', p)"
  shows "(p = None \<longrightarrow> root_handler recovery sentryDSN randInt unixNano upstream r s = (r', s', None)) \<and>
    (\<exists>h. (\<forall>msg. p = Some msg \<longrightarrow> h r s = (CleanHeadersForRaven r', s', Some msg)) \<and>
      (sentryDSN \<noteq> [] \<longrightarrow> root_handler recovery sentryDSN randInt unixNano upstream = recovery h))"
proof -
  let ?h = "\<lambda>r s. case upstream (InjectCorrelationID randInt unixNano r) r s of
     (r, s, p) \<Rightarrow> (if p \<noteq> None then CleanHeadersForRaven r else r, s, p)"
  have "?h r s = (if p \<noteq> None then CleanHeadersForRaven r' else r', s', p)" using assms(2) by simp
  then show ?thesis using assms by (intro conjI exI [of _ ?h]) (simp_all add: root_handler_def wrapRaven_def)
qed

end
