(* ===== verification/Store_Stub.thy ===== *)
theory Store_Stub
  imports Object_Store
begin

text \<open>
  \<open>internal/objectstore/test/objectstore_stub.go\<close>: the object store the repository itself
  implements. It keeps the MD5 sums of objects and of the parts of multipart uploads, and answers over HTTP. The uploads of
  \<open>Object_Store\<close> leave their store open; here they run against this one, which shows that a store that works
  lets every upload that fits succeed (\<open>working_store\<close>), what is then stored, and how a wrong checksum and an
  abandoned upload end. MD5, the XML codecs and the printing of URLs are parameters. The mutex
  makes each request one step, so a request is a function of the state.
\<close>

section \<open>Query parameters and numbers\<close>

fun QueryUnescape :: "string \<Rightarrow> string option" where
  "QueryUnescape [] = Some []"
| "QueryUnescape (c # s) =
     (if c = CHR ''%'' then
        (case s of
           a # b # t \<Rightarrow>
             (case (hex_value a, hex_value b) of
                (Some x, Some y) \<Rightarrow> map_option (\<lambda>r. char_of (16 * x + y) # r) (QueryUnescape t)
              | _ \<Rightarrow> None)
         | _ \<Rightarrow> None)
      else map_option (\<lambda>r. (if c = CHR ''+'' then CHR '' '' else c) # r) (QueryUnescape s))"

text \<open>\<open>url.Query().Get\<close>: fields are separated by \<open>&\<close> or \<open>;\<close>, a field that does not decode is skipped.\<close>

definition query_field :: "string \<Rightarrow> (string \<times> string) option" where
  "query_field f =
     (let (k, v) = (case SplitN2 f (CHR ''='') of [k, v] \<Rightarrow> (k, v) | _ \<Rightarrow> (f, [])) in
      case (QueryUnescape k, QueryUnescape v) of
        (Some k, Some v) \<Rightarrow> if f = [] then None else Some (k, v)
      | _ \<Rightarrow> None)"

definition Query_Get :: "string \<Rightarrow> string \<Rightarrow> string" where
  "Query_Get q k =
     (case map_of (List.map_filter query_field (concat (map (Split (CHR '';'')) (Split (CHR ''&'') q)))) k of
        None \<Rightarrow> [] | Some v \<Rightarrow> v)"

definition Atoi :: "string \<Rightarrow> int result" where
  "Atoi s =
     (let neg = (s \<noteq> [] \<and> hd s = CHR ''-'');
          digits = (if s \<noteq> [] \<and> (hd s = CHR ''-'' \<or> hd s = CHR ''+'') then tl s else s);
          n = int (parse_nat digits);
          err = (\<lambda>why. Inl (Errorf (''strconv.Atoi: parsing '' @ Quote s @ '': '' @ why)))
      in if digits = [] \<or> \<not> list_all is_digit digits then err ''invalid syntax''
         else if n > (if neg then 2 ^ 63 else 2 ^ 63 - 1) then err ''value out of range''
         else Inr (if neg then - n else n))"

section \<open>The store\<close>

type_synonym partsEtagMap = "int \<rightharpoonup> string"

record ObjectstoreStub =
  bucket :: "string \<rightharpoonup> string"
  overwriteMD5 :: "string \<rightharpoonup> string"
  multipart :: "string \<rightharpoonup> partsEtagMap"
  stub_headers :: "string \<rightharpoonup> header"
  puts :: nat
  deletes :: nat

definition StartObjectStoreWithCustomMD5 :: "(string \<rightharpoonup> string) \<Rightarrow> ObjectstoreStub" where
  "StartObjectStoreWithCustomMD5 md5Hashes =
     \<lparr>bucket = Map.empty, overwriteMD5 = md5Hashes, multipart = Map.empty, stub_headers = Map.empty, puts = 0, deletes = 0\<rparr>"

definition StartObjectStore :: ObjectstoreStub where
  "StartObjectStore = StartObjectStoreWithCustomMD5 Map.empty"

definition GetObjectMD5 :: "ObjectstoreStub \<Rightarrow> string \<Rightarrow> string" where
  "GetObjectMD5 o' path = (case bucket o' path of None \<Rightarrow> [] | Some etag \<Rightarrow> etag)"

definition GetHeader :: "ObjectstoreStub \<Rightarrow> string \<Rightarrow> string \<Rightarrow> string" where
  "GetHeader o' path key = (case stub_headers o' path of None \<Rightarrow> [] | Some h \<Rightarrow> Header_Get h key)"

definition isMultipartUpload :: "ObjectstoreStub \<Rightarrow> string \<Rightarrow> bool" where
  "isMultipartUpload o' path \<longleftrightarrow> multipart o' path \<noteq> None"

definition InitiateMultipartUpload :: "string \<Rightarrow> ObjectstoreStub \<Rightarrow> gerror option \<times> ObjectstoreStub" where
  "InitiateMultipartUpload path o' =
     (if isMultipartUpload o' path then (Some (Errorf (''MultipartUpload for '' @ Quote path @ '' already in progress'')), o')
      else (None, o'\<lparr>multipart := (multipart o')(path \<mapsto> Map.empty)\<rparr>))"

datatype stub_answer =
    Answer_result string string string string
  | Answer_error string string

record stub_env =
  stub_md5 :: "bytes \<Rightarrow> bytes"
  stub_unmarshal :: "bytes \<Rightarrow> completeMultipartUploadPart list result"
  stub_encode :: "stub_answer \<Rightarrow> bytes result"
  stub_URL_String :: "url \<Rightarrow> string"

definition removeObject :: "'s writer \<Rightarrow> request \<Rightarrow> ObjectstoreStub \<times> 's \<Rightarrow> ObjectstoreStub \<times> 's" where
  "removeObject w r = (\<lambda>(o', s).
     let objectPath = url_Path (req_URL r) in
     if isMultipartUpload o' objectPath then
       (o'\<lparr>deletes := Suc (deletes o'), multipart := (multipart o')(objectPath := None)\<rparr>, w_WriteHeader w 200 s)
     else if bucket o' objectPath \<noteq> None then
       (o'\<lparr>deletes := Suc (deletes o'), bucket := (bucket o')(objectPath := None)\<rparr>, w_WriteHeader w 200 s)
     else (o', w_WriteHeader w 404 s))"

text \<open>The error of reading the body is dropped, so the sum is that of what arrived.\<close>

definition putObject :: "stub_env \<Rightarrow> 's writer \<Rightarrow> request \<Rightarrow> ObjectstoreStub \<times> 's \<Rightarrow> ObjectstoreStub \<times> 's" where
  "putObject env w r = (\<lambda>(o', s).
     let objectPath = url_Path (req_URL r);
         etag = (case overwriteMD5 o' objectPath of
             Some etag \<Rightarrow> etag
           | None \<Rightarrow> hex_encode (stub_md5 env (stream_bytes (req_Body r))));
         o' = o'\<lparr>stub_headers := (stub_headers o')(objectPath \<mapsto> req_Header r), puts := Suc (puts o')\<rparr>;
         answer = (\<lambda>s. w_WriteHeader w 200 (w_Set w ''ETag'' etag s))
     in case multipart o' objectPath of
          None \<Rightarrow> (o'\<lparr>bucket := (bucket o')(objectPath \<mapsto> etag)\<rparr>, answer s)
        | Some parts \<Rightarrow>
            (case Atoi (Query_Get (url_RawQuery (req_URL r)) ''partNumber'') of
               Inl err \<Rightarrow> (o', http_Error w (''malformed partNumber: '' @ Error err) 400 s)
             | Inr idx \<Rightarrow> (o'\<lparr>multipart := (multipart o')(objectPath \<mapsto> parts(idx \<mapsto> etag))\<rparr>, answer s)))"

definition MultipartUploadInternalError :: stub_answer where
  "MultipartUploadInternalError = Answer_error ''InternalError'' ''malformed object path''"

definition encodeXMLAnswer :: "stub_env \<Rightarrow> 's writer \<Rightarrow> stub_answer \<Rightarrow> 's \<Rightarrow> 's" where
  "encodeXMLAnswer env w answer s =
     (let s = w_Set w ''Content-Type'' ''text/xml'' s in
      case stub_encode env answer of
        Inl err \<Rightarrow> http_Error w (Error err) 500 s
      | Inr body \<Rightarrow>
          (case w_Write w body s of
             (s, n, None) \<Rightarrow> s
           | (s, n, Some err) \<Rightarrow> http_Error w (Error err) 500 s))"

text \<open>The first part whose ETag is not the one that was stored, with what was stored.\<close>

fun etag_mismatch :: "partsEtagMap \<Rightarrow> completeMultipartUploadPart list \<Rightarrow> (completeMultipartUploadPart \<times> string) option" where
  "etag_mismatch mp [] = None"
| "etag_mismatch mp (part # ps) =
     (let etag = (case mp (PartNumber part) of None \<Rightarrow> [] | Some etag \<Rightarrow> etag) in
      if etag \<noteq> part_ETag part then Some (part, etag) else etag_mismatch mp ps)"

definition completeMultipartUpload :: "stub_env \<Rightarrow> 's writer \<Rightarrow> request \<Rightarrow> ObjectstoreStub \<times> 's \<Rightarrow> ObjectstoreStub \<times> 's" where
  "completeMultipartUpload env w r = (\<lambda>(o', s).
     let objectPath = url_Path (req_URL r); fail = (\<lambda>msg code. (o', http_Error w msg code s)) in
     case multipart o' objectPath of
       None \<Rightarrow> fail ''Unknown MultipartUpload'' 404
     | Some mp \<Rightarrow>
     (case ReadAll (req_Body r) of
       Inl err \<Rightarrow> fail (Error err) 500
     | Inr buf \<Rightarrow>
     (case stub_unmarshal env buf of
       Inl err \<Rightarrow> fail (Error err) 400
     | Inr parts \<Rightarrow>
     (case etag_mismatch mp parts of
       Some (part, etag) \<Rightarrow>
         fail (''ETag mismatch on part '' @ FormatInt (PartNumber part) @ ''. Expected '' @ Quote etag @ '' got '' @ Quote (part_ETag part)) 400
     | None \<Rightarrow>
     (case (case overwriteMD5 o' objectPath of Some etag \<Rightarrow> Inr etag | None \<Rightarrow> BuildMultipartUploadETag (stub_md5 env) parts) of
       Inl err \<Rightarrow> fail ''cannot compute ETag'' 400
     | Inr etag \<Rightarrow>
         (o'\<lparr>bucket := (bucket o')(objectPath \<mapsto> etag), multipart := (multipart o')(objectPath := None)\<rparr>,
          encodeXMLAnswer env w
            (case SplitN2 (tl objectPath) (CHR ''/'') of
               [bucket_name, key] \<Rightarrow> Answer_result (stub_URL_String env (req_URL r)) bucket_name key etag
             | _ \<Rightarrow> MultipartUploadInternalError)
            (w_Set w ''ETag'' etag s)))))))"

definition stub_ServeHTTP :: "stub_env \<Rightarrow> 's writer \<Rightarrow> request \<Rightarrow> ObjectstoreStub \<times> 's \<Rightarrow> ObjectstoreStub \<times> 's" where
  "stub_ServeHTTP env w r = (\<lambda>(o', s).
     if url_Path (req_URL r) = [] then (o', http_Error w ''No path provided'' 404 s)
     else if req_Method r = ''DELETE'' then removeObject w r (o', s)
     else if req_Method r = ''PUT'' then putObject env w r (o', s)
     else if req_Method r = ''POST'' then completeMultipartUpload env w r (o', s)
     else (o', w_WriteHeader w 404 s))"

text \<open>
  A connection that works between the client of \<open>Object_Store\<close> and the server around the stub: the request
  arrives as it was sent, the response is what is on the wire when the handler returns.
\<close>

definition StatusText :: "int \<Rightarrow> string" where
  "StatusText code = (if code = 200 then ''OK'' else if code = 400 then ''Bad Request''
     else if code = 404 then ''Not Found'' else ''Internal Server Error'')"

definition wire_response :: "net_resp \<Rightarrow> http_response" where
  "wire_response s =
     (let out = n_out (if o_status (n_out s) = 0 then net_WriteHeader 200 s else s) in
      \<lparr>rsp_Status = FormatInt (o_status out) @ '' '' @ StatusText (o_status out), rsp_StatusCode = o_status out,
       rsp_Header = o_header out, rsp_Body = reader_of (o_body out)\<rparr>)"

definition stub_client :: "stub_env \<Rightarrow> ObjectstoreStub client" where
  "stub_client env q o' =
     (case stub_ServeHTTP env net_writer q (o', new_response) of (o'', s) \<Rightarrow> (Inr (wire_response s), o''))"

section \<open>Uploads to a store that works\<close>

text \<open>
  What a multipart upload relies on: temporary files can be made, a part is accepted under the MD5 sum of its
  bytes, and the upload is completed from the parts accepted. \<open>holds cs\<close> says that the parts in \<open>cs\<close> have been accepted,
  \<open>stored\<close> that an object with this ETag exists.
\<close>

lemma hex_lower_not_quote: "n < 16 \<Longrightarrow> hex_lower n \<noteq> CHR 0x22"
  using hex_value_digit [of n] by (auto simp: hex_value_def Let_def)

lemma extractETag_hex [simp]: "extractETag (hex_encode b) = Return (hex_encode b)"
proof (cases b)
  case (Cons c cs)
  have "(of_char c :: nat) div 16 < 16" using of_char_less [of c] by linarith
  then show ?thesis using Cons by (simp add: extractETag_def hex_lower_not_quote)
qed (simp add: extractETag_def)

lemma parts_of_snoc:
  "parts_of md5 i (cs @ [c]) = parts_of md5 i cs @ [\<lparr>PartNumber = int (Suc (i + length cs)), part_ETag = hex_encode (md5 c)\<rparr>]"
  by (induction cs arbitrary: i) simp_all

definition multipart_ETag :: "(bytes \<Rightarrow> bytes) \<Rightarrow> bytes list \<Rightarrow> string" where
  "multipart_ETag md5 cs = hex_encode (md5 (concat (map md5 cs))) @ ''-'' @ format_nat (length cs)"

lemma extractETag_multipart [simp]: "extractETag (multipart_ETag md5 cs) = Return (multipart_ETag md5 cs)"
proof (cases "md5 (concat (map md5 cs))")
  case (Cons b bs)
  have "(of_char b :: nat) div 16 < 16" using of_char_less [of b] by linarith
  then show ?thesis using Cons by (simp add: extractETag_def multipart_ETag_def hex_lower_not_quote)
qed (simp add: extractETag_def multipart_ETag_def)

lemma Build_parts_of: "BuildMultipartUploadETag md5 (parts_of md5 i cs) = Inr (multipart_ETag md5 cs)"
  by (simp add: BuildMultipartUploadETag_def part_checksums_of multipart_ETag_def)

locale working_store =
  fixes env :: "'r store_env" and urls :: "string list" and completeURL :: string
    and holds :: "bytes list \<Rightarrow> 'r \<Rightarrow> bool" and stored :: "string \<Rightarrow> 'r \<Rightarrow> bool"
  assumes tempfile: "env_tempfile env i = None"
    and put: "holds cs r \<Longrightarrow> length cs < length urls \<Longrightarrow>
      \<exists>u resp r'. env_parse env (urls ! length cs) = Inr u \<and>
        env_do env (put_request u h c (int (length c))) r = (Inr resp, r') \<and> rsp_StatusCode resp = 200 \<and>
        Header_Get (rsp_Header resp) ''ETag'' = hex_encode (env_md5 env c) \<and> holds (cs @ [c]) r'"
    and complete: "holds cs r \<Longrightarrow>
      \<exists>u body resp r'. env_marshal env (parts_of (env_md5 env) 0 cs) = Inr body \<and> env_parse env completeURL = Inr u \<and>
        env_do env (complete_request u body) r = (Inr resp, r') \<and> rsp_StatusCode resp = 200 \<and>
        env_decode env (rsp_Body resp) = Inr (Complete_result (multipart_ETag (env_md5 env) cs)) \<and>
        stored (multipart_ETag (env_md5 env) cs) r'"
begin

lemma part_accepted:
  assumes "holds cs r" "length cs < length urls" "c \<noteq> []"
  shows "\<exists>r'. readAndUploadOnePart env (urls ! length cs) h c (Suc (length cs)) (r, m) =
      (Return (Inr (Some \<lparr>PartNumber = int (Suc (length cs)), part_ETag = hex_encode (env_md5 env c)\<rparr>)), r', m) \<and> holds (cs @ [c]) r'"
proof -
  obtain u resp r' where "env_parse env (urls ! length cs) = Inr u"
    "env_do env (put_request u h c (int (length c))) r = (Inr resp, r')" "rsp_StatusCode resp = 200"
    "Header_Get (rsp_Header resp) ''ETag'' = hex_encode (env_md5 env c)" "holds (cs @ [c]) r'"
    using put [OF assms(1,2)] by blast
  then show ?thesis using assms(3)
    by (simp add: readAndUploadOnePart_def tempfile newObject_def object_upload_def md5Sum_def)
qed

lemma parts_accepted:
  "holds cs r \<Longrightarrow> us = drop (length cs) urls \<Longrightarrow>
   \<exists>r'. upload_parts env n h us (length cs) data (parts_of (env_md5 env) 0 cs) (r, m) =
      (Return (Inr (parts_of (env_md5 env) 0 (cs @ take (length us) (chunks n data)),
         if n = 0 then data else drop (n * length us) data)), r', m) \<and>
    holds (cs @ take (length us) (chunks n data)) r'"
proof (induction us arbitrary: cs data r)
  case Nil
  then show ?case by simp
next
  case (Cons u us)
  have lt: "length cs < length urls" using Cons.prems(2) by (metis drop_all list.discI not_le)
  then have u: "u = urls ! length cs" and us: "us = drop (Suc (length cs)) urls"
    using Cons.prems(2) by (simp_all add: Cons_nth_drop_Suc [symmetric])
  show ?case
  proof (cases "take n data = []")
    case True
    then show ?thesis using Cons.prems(1) by (auto simp: readAndUploadOnePart_def tempfile)
  next
    case False
    then have n: "0 < n" "data \<noteq> []" by auto
    let ?c = "take n data"
    obtain r1 where one: "readAndUploadOnePart env u h ?c (Suc (length cs)) (r, m) =
        (Return (Inr (Some \<lparr>PartNumber = int (Suc (length cs)), part_ETag = hex_encode (env_md5 env ?c)\<rparr>)), r1, m)"
      and h1: "holds (cs @ [?c]) r1"
      using part_accepted [OF Cons.prems(1) lt False] u by blast
    have "us = drop (length (cs @ [?c])) urls" using us by simp
    from Cons.IH [OF h1 this, of "drop n data"] one n show ?thesis
      by (auto simp: parts_of_snoc chunks_step [of n data] add.commute)
  qed
qed

text \<open>Every upload that fits ends with the object stored, and one that does not is turned down.\<close>

lemma upload_works:
  assumes "holds [] r" "length data \<le> nat partSize * length urls"
  shows "\<exists>r'. NewMultipart env urls completeURL h partSize data (r, m) =
      (Return (None, multipart_ETag (env_md5 env) (chunks (nat partSize) data)), r', m) \<and>
    stored (multipart_ETag (env_md5 env) (chunks (nat partSize) data)) r'"
proof -
  let ?n = "nat partSize"
  let ?cs = "chunks ?n data"
  let ?m = "m\<lparr>uploadsOpen := uploadsOpen m + 1\<rparr>"
  have all: "take (length urls) ?cs = ?cs"
  proof (cases "?n = 0")
    case False
    then have "concat (take (length urls) ?cs) = concat ?cs"
      using assms(2) by (simp add: take_chunks concat_chunks)
    then show ?thesis using concat_take_all chunks_nonempty by metis
  qed simp
  obtain r1 where up: "upload_parts env ?n h urls 0 data [] (r, ?m) =
      (Return (Inr (parts_of (env_md5 env) 0 ?cs, if ?n = 0 then data else drop (?n * length urls) data)), r1, ?m)"
    and h1: "holds ?cs r1"
    using parts_accepted [OF assms(1), of urls ?n h data ?m] all by auto
  have rest: "(if ?n = 0 then data else drop (?n * length urls) data) = []" using assms(2) by auto
  obtain u body resp r2 where "env_marshal env (parts_of (env_md5 env) 0 ?cs) = Inr body" "env_parse env completeURL = Inr u"
      "env_do env (complete_request u body) r1 = (Inr resp, r2)" "rsp_StatusCode resp = 200"
      "env_decode env (rsp_Body resp) = Inr (Complete_result (multipart_ETag (env_md5 env) ?cs))"
      and st: "stored (multipart_ETag (env_md5 env) ?cs) r2"
    using complete [OF h1] by blast
  then have "multipart_complete env completeURL (parts_of (env_md5 env) 0 ?cs) r1 =
      (Return (None, multipart_ETag (env_md5 env) ?cs), r2)"
    by (simp add: multipart_complete_def verifyETag_def Build_parts_of)
  with up rest st show ?thesis by (simp add: NewMultipart_def Let_def)
qed

lemma upload_refused:
  assumes "holds [] r" "length data > nat partSize * length urls"
  shows "\<exists>cs r'. NewMultipart env urls completeURL h partSize data (r, m) =
      (Return (Some ErrNotEnoughParts, []), r', m) \<and> holds cs r'"
proof -
  let ?m = "m\<lparr>uploadsOpen := uploadsOpen m + 1\<rparr>"
  obtain cs ps r1 where "upload_parts env (nat partSize) h urls 0 data [] (r, ?m) =
      (Return (Inr (ps, if nat partSize = 0 then data else drop (nat partSize * length urls) data)), r1, ?m)" "holds cs r1"
    using parts_accepted [OF assms(1), of urls "nat partSize" h data ?m] by auto
  with assms(2) show ?thesis by (auto simp: NewMultipart_def Let_def)
qed

end

section \<open>The stub keeps the contract\<close>

definition stub_store :: "stub_env \<Rightarrow> (string \<Rightarrow> url result) \<Rightarrow> (completeMultipartUploadPart list \<Rightarrow> bytes result) \<Rightarrow>
    (stream \<Rightarrow> complete_answer result) \<Rightarrow> ObjectstoreStub store_env" where
  "stub_store env parse marshal decode =
     \<lparr>env_parse = parse, env_do = stub_client env, env_md5 = stub_md5 env, env_marshal = marshal, env_decode = decode,
      env_tempfile = (\<lambda>_. None)\<rparr>"

text \<open>URLs as the backend hands them out: those of the parts carry their number, all name the same object.\<close>

definition upload_urls :: "(string \<Rightarrow> url result) \<Rightarrow> string \<Rightarrow> string list \<Rightarrow> string \<Rightarrow> bool" where
  "upload_urls parse path urls completeURL \<longleftrightarrow>
     (\<forall>i < length urls. \<exists>u. parse (urls ! i) = Inr u \<and> url_Path u = path \<and>
        Atoi (Query_Get (url_RawQuery u) ''partNumber'') = Inr (int (Suc i))) \<and>
     (\<exists>u. parse completeURL = Inr u \<and> url_Path u = path)"

text \<open>What the XML codecs promise: each side reads what the other has written.\<close>

definition xml_codecs :: "stub_env \<Rightarrow> (completeMultipartUploadPart list \<Rightarrow> bytes result) \<Rightarrow> (stream \<Rightarrow> complete_answer result) \<Rightarrow> bool" where
  "xml_codecs env marshal decode \<longleftrightarrow>
     (\<forall>cs. \<exists>body. marshal (parts_of (stub_md5 env) 0 cs) = Inr body \<and>
        stub_unmarshal env body = Inr (parts_of (stub_md5 env) 0 cs)) \<and>
     (\<forall>l b k t. \<exists>body. stub_encode env (Answer_result l b k t) = Inr body \<and>
        decode (reader_of body) = Inr (Complete_result t))"

definition parts_held :: "stub_env \<Rightarrow> string \<Rightarrow> (string \<rightharpoonup> string) \<Rightarrow> bytes list \<Rightarrow> ObjectstoreStub \<Rightarrow> bool" where
  "parts_held env path objects cs o' \<longleftrightarrow> overwriteMD5 o' path = None \<and> bucket o' = objects \<and>
     (\<exists>mp. multipart o' path = Some mp \<and>
        (\<forall>i < length cs. mp (int (Suc i)) = Some (hex_encode (stub_md5 env (cs ! i)))))"

definition object_stored :: "string \<Rightarrow> (string \<rightharpoonup> string) \<Rightarrow> string \<Rightarrow> ObjectstoreStub \<Rightarrow> bool" where
  "object_stored path objects etag o' \<longleftrightarrow> bucket o' = objects(path \<mapsto> etag) \<and> multipart o' path = None"

lemma answer_ok:
  "wire_response (net_WriteHeader 200 (new_response\<lparr>n_header := h\<rparr>)) =
     \<lparr>rsp_Status = ''200 OK'', rsp_StatusCode = 200, rsp_Header = h, rsp_Body = reader_of []\<rparr>"
proof -
  have "FormatInt 200 @ '' '' @ StatusText 200 = ''200 OK''" by code_simp
  then show ?thesis by (simp add: wire_response_def net_WriteHeader_def new_response_def no_response_def)
qed

lemma etag_mismatch_parts_of:
  "\<forall>i < length cs. mp (int (Suc (k + i))) = Some (hex_encode (md5 (cs ! i))) \<Longrightarrow>
   etag_mismatch mp (parts_of md5 k cs) = None"
proof (induction cs arbitrary: k)
  case (Cons c cs)
  from Cons.prems have "mp (int (Suc k)) = Some (hex_encode (md5 c))" by force
  moreover have "\<forall>i < length cs. mp (int (Suc (Suc k + i))) = Some (hex_encode (md5 (cs ! i)))"
    using Cons.prems by force
  ultimately show ?case using Cons.IH [of "Suc k"] by simp
qed simp

lemma stub_put_part:
  assumes "parts_held env path objects cs o'" "url_Path u = path" "path \<noteq> []"
    "Atoi (Query_Get (url_RawQuery u) ''partNumber'') = Inr (int (Suc (length cs)))"
  shows "\<exists>resp o''. stub_client env (put_request u h c n) o' = (Inr resp, o'') \<and> rsp_StatusCode resp = 200 \<and>
    Header_Get (rsp_Header resp) ''ETag'' = hex_encode (stub_md5 env c) \<and> parts_held env path objects (cs @ [c]) o''"
proof -
  obtain mp where mp: "multipart o' path = Some mp" "overwriteMD5 o' path = None" "bucket o' = objects"
    "\<forall>i < length cs. mp (int (Suc i)) = Some (hex_encode (stub_md5 env (cs ! i)))"
    using assms(1) by (auto simp: parts_held_def)
  have "parts_held env path objects (cs @ [c])
      (o'\<lparr>stub_headers := hs, puts := p, multipart := (multipart o')(path \<mapsto> mp(int (Suc (length cs)) \<mapsto> hex_encode (stub_md5 env c)))\<rparr>)"
    for hs p
    using mp by (auto simp: parts_held_def nth_append)
  then show ?thesis using assms mp
    by (simp add: stub_client_def stub_ServeHTTP_def put_request_def client_request_def putObject_def Let_def answer_ok Header_Get_Set)
qed

lemma stub_complete:
  assumes held: "parts_held env path objects cs o'" and "url_Path u = path" and path: "path = ''/'' @ b @ ''/'' @ k" "CHR ''/'' \<notin> set b"
    and "xml_codecs env marshal decode"
  shows "\<exists>body resp o''. marshal (parts_of (stub_md5 env) 0 cs) = Inr body \<and>
    stub_client env (complete_request u body) o' = (Inr resp, o'') \<and> rsp_StatusCode resp = 200 \<and>
    decode (rsp_Body resp) = Inr (Complete_result (multipart_ETag (stub_md5 env) cs)) \<and>
    object_stored path objects (multipart_ETag (stub_md5 env) cs) o''"
proof -
  obtain mp where mp: "multipart o' path = Some mp" "overwriteMD5 o' path = None" "bucket o' = objects"
    "\<forall>i < length cs. mp (int (Suc i)) = Some (hex_encode (stub_md5 env (cs ! i)))"
    using held by (auto simp: parts_held_def)
  then have "etag_mismatch mp (parts_of (stub_md5 env) 0 cs) = None" by (simp add: etag_mismatch_parts_of)
  moreover obtain body where "marshal (parts_of (stub_md5 env) 0 cs) = Inr body"
      "stub_unmarshal env body = Inr (parts_of (stub_md5 env) 0 cs)"
    using assms(5) unfolding xml_codecs_def by blast
  moreover obtain answer where "stub_encode env (Answer_result (stub_URL_String env u) b k (multipart_ETag (stub_md5 env) cs)) = Inr answer"
      "decode (reader_of answer) = Inr (Complete_result (multipart_ETag (stub_md5 env) cs))"
    using assms(5) unfolding xml_codecs_def by blast
  moreover have "SplitN2 (tl path) (CHR ''/'') = [b, k]" using path by (simp add: SplitN2_key_value)
  moreover have "path \<noteq> []" using path by simp
  ultimately show ?thesis using mp \<open>url_Path u = path\<close>
    by (simp add: stub_client_def stub_ServeHTTP_def complete_request_def client_request_def completeMultipartUpload_def Let_def
        Build_parts_of encodeXMLAnswer_def wire_response_def net_writer_def net_Write_def net_WriteHeader_def new_response_def
        no_response_def object_stored_def)
qed

lemma stub_working:
  assumes "upload_urls parse path urls completeURL" "path = ''/'' @ b @ ''/'' @ k" "CHR ''/'' \<notin> set b"
    "xml_codecs env marshal decode"
  shows "working_store (stub_store env parse marshal decode) urls completeURL
    (parts_held env path objects) (object_stored path objects)"
proof unfold_locales
  fix cs o' h c
  assume held: "parts_held env path objects cs o'" and "length cs < length urls"
  then obtain u where "parse (urls ! length cs) = Inr u" "url_Path u = path"
      "Atoi (Query_Get (url_RawQuery u) ''partNumber'') = Inr (int (Suc (length cs)))"
    using assms(1) by (auto simp: upload_urls_def)
  moreover from this obtain resp o'' where "stub_client env (put_request u h c (int (length c))) o' = (Inr resp, o'')"
      "rsp_StatusCode resp = 200" "Header_Get (rsp_Header resp) ''ETag'' = hex_encode (stub_md5 env c)"
      "parts_held env path objects (cs @ [c]) o''"
    using stub_put_part [OF held, of u h c "int (length c)"] assms(2) by auto
  ultimately show "\<exists>u resp r'. env_parse (stub_store env parse marshal decode) (urls ! length cs) = Inr u \<and>
      env_do (stub_store env parse marshal decode) (put_request u h c (int (length c))) o' = (Inr resp, r') \<and>
      rsp_StatusCode resp = 200 \<and>
      Header_Get (rsp_Header resp) ''ETag'' = hex_encode (env_md5 (stub_store env parse marshal decode) c) \<and>
      parts_held env path objects (cs @ [c]) r'"
    by (auto simp: stub_store_def)
next
  fix cs o'
  assume held: "parts_held env path objects cs o'"
  obtain u where "parse completeURL = Inr u" "url_Path u = path"
    using assms(1) by (auto simp: upload_urls_def)
  with stub_complete [OF held _ assms(2-4), of u]
  show "\<exists>u body resp r'. env_marshal (stub_store env parse marshal decode) (parts_of (env_md5 (stub_store env parse marshal decode)) 0 cs) = Inr body \<and>
      env_parse (stub_store env parse marshal decode) completeURL = Inr u \<and>
      env_do (stub_store env parse marshal decode) (complete_request u body) o' = (Inr resp, r') \<and> rsp_StatusCode resp = 200 \<and>
      env_decode (stub_store env parse marshal decode) (rsp_Body resp) =
        Inr (Complete_result (multipart_ETag (env_md5 (stub_store env parse marshal decode)) cs)) \<and>
      object_stored path objects (multipart_ETag (env_md5 (stub_store env parse marshal decode)) cs) r'"
    by (auto simp: stub_store_def)
qed (simp add: stub_store_def)

section \<open>Properties\<close>

lemma stub_delete:
  assumes "u \<noteq> []" "parse u = Inr v" "url_Path v \<noteq> []"
  shows "syncAndDelete parse (stub_client env) u o' =
    (let path = url_Path v in
     if isMultipartUpload o' path then o'\<lparr>deletes := Suc (deletes o'), multipart := (multipart o')(path := None)\<rparr>
     else if bucket o' path \<noteq> None then o'\<lparr>deletes := Suc (deletes o'), bucket := (bucket o')(path := None)\<rparr> else o')"
  using assms
  by (simp add: syncAndDelete_def stub_client_def stub_ServeHTTP_def client_request_def removeObject_def Let_def)


text \<open>
  A world in which everything has a plain form: MD5 is the identity, a list of parts is written as its ETags, each followed by a
  comma, an answer as its ETag, and a URL is a path with a query.
\<close>

fun number_parts :: "nat \<Rightarrow> string list \<Rightarrow> completeMultipartUploadPart list" where
  "number_parts i [] = []"
| "number_parts i (t # ts) = \<lparr>PartNumber = int (Suc i), part_ETag = t\<rparr> # number_parts (Suc i) ts"

definition plain_marshal :: "completeMultipartUploadPart list \<Rightarrow> bytes result" where
  "plain_marshal ps = Inr (concat (map (\<lambda>p. part_ETag p @ '','') ps))"

definition plain_decode :: "stream \<Rightarrow> complete_answer result" where
  "plain_decode r = Inr (Complete_result (stream_bytes r))"

definition plain_parse :: "string \<Rightarrow> url result" where
  "plain_parse u =
     (let path = takeWhile (\<lambda>c. c \<noteq> CHR ''?'') u in
      Inr \<lparr>url_Scheme = ''http'', url_Host = ''store'', url_Path = path, url_RawQuery = drop (Suc (length path)) u\<rparr>)"

definition plain_env :: stub_env where
  "plain_env = \<lparr>stub_md5 = (\<lambda>b. b), stub_unmarshal = (\<lambda>b. Inr (number_parts 0 (butlast (Split (CHR '','') b)))),
     stub_encode = (\<lambda>a. case a of Answer_result l b k t \<Rightarrow> Inr t | Answer_error c m \<Rightarrow> Inl (Errorf m)), stub_URL_String = url_Path\<rparr>"

lemma hex_encode_chars: "c \<in> set (hex_encode bs) \<Longrightarrow> hex_value c \<noteq> None"
proof (induction bs)
  case (Cons b bs)
  have "(of_char b :: nat) div 16 < 16" using of_char_less [of b] by linarith
  then show ?case using Cons by (auto simp: hex_value_digit)
qed simp

lemma number_parts_hex: "number_parts i (map hex_encode cs) = parts_of (\<lambda>b. b) i cs"
  by (induction cs arbitrary: i) simp_all

lemma part_ETag_parts_of: "map part_ETag (parts_of md5 i cs) = map (\<lambda>c. hex_encode (md5 c)) cs"
  by (induction cs arbitrary: i) simp_all

lemma Split_terminated:
  "\<forall>t \<in> set ts. c \<notin> set t \<Longrightarrow> butlast (Split c (concat (map (\<lambda>t. t @ [c]) ts))) = ts"
  by (induction ts) (simp_all add: Split_append_sep)

lemma plain_codecs: "xml_codecs plain_env plain_marshal plain_decode"
proof -
  have "butlast (Split (CHR '','') (concat (map (\<lambda>p. part_ETag p @ '','') (parts_of (\<lambda>b. b) 0 cs)))) = map hex_encode cs" for cs
  proof -
    have "\<forall>t \<in> set (map hex_encode cs). CHR '','' \<notin> set t"
      using hex_encode_chars [of "CHR '',''"] by (auto simp: hex_value_def)
    from Split_terminated [OF this] part_ETag_parts_of [of "\<lambda>b. b" 0 cs] show ?thesis
      by (simp flip: map_map [of "\<lambda>t. t @ '',''" part_ETag, unfolded comp_def])
  qed
  then show ?thesis by (simp add: xml_codecs_def plain_env_def plain_marshal_def plain_decode_def number_parts_hex)
qed

lemma plain_urls: "upload_urls plain_parse ''/b/k'' [''/b/k?partNumber=1'', ''/b/k?partNumber=2''] ''/b/k''"
proof -
  have "Atoi (Query_Get ''partNumber=1'' ''partNumber'') = Inr 1" "Atoi (Query_Get ''partNumber=2'' ''partNumber'') = Inr 2"
    by code_simp+
  then show ?thesis by (simp add: upload_urls_def plain_parse_def All_less_Suc2 Let_def numeral_2_eq_2)
qed

interpretation stub: working_store "stub_store plain_env plain_parse plain_marshal plain_decode"
  "[''/b/k?partNumber=1'', ''/b/k?partNumber=2'']" "''/b/k''" "parts_held plain_env ''/b/k'' Map.empty" "object_stored ''/b/k'' Map.empty"
  by (rule stub_working [OF plain_urls _ _ plain_codecs, of "''b''" "''k''"]) simp_all

definition sample_upload :: "bytes \<Rightarrow> (gerror option \<times> string) go \<times> ObjectstoreStub \<times> upload_metrics" where
  "sample_upload data = NewMultipart (stub_store plain_env plain_parse plain_marshal plain_decode)
     [''/b/k?partNumber=1'', ''/b/k?partNumber=2''] ''/b/k'' [] 2 data
     (snd (InitiateMultipartUpload ''/b/k'' StartObjectStore), no_uploads)"


text \<open>The number of a part survives the way through the query of its URL.\<close>

lemma QueryUnescape_id: "\<forall>c \<in> set s. c \<noteq> CHR ''%'' \<and> c \<noteq> CHR ''+'' \<Longrightarrow> QueryUnescape s = Some s"
  by (induction s rule: QueryUnescape.induct) (auto split: list.splits)

theorem part_number_roundtrip:
  assumes "int n < 2 ^ 63"
  shows "Atoi (Query_Get (''partNumber='' @ format_nat n) ''partNumber'') = Inr (int n)"
proof -
  have digits: "\<forall>c \<in> set (format_nat n). is_digit c" using format_nat_digits by blast
  then have plain: "\<forall>c \<in> set (format_nat n). c \<noteq> CHR ''&'' \<and> c \<noteq> CHR '';'' \<and> c \<noteq> CHR ''%'' \<and> c \<noteq> CHR ''+'' \<and> c \<noteq> CHR ''-''"
    by (auto simp: is_digit_def)
  have "CHR ''&'' \<notin> set (''partNumber='' @ format_nat n)" "CHR '';'' \<notin> set (''partNumber='' @ format_nat n)"
    using plain by auto
  note one_field = this [THEN Split_no_sep_id]
  have "SplitN2 (''partNumber='' @ format_nat n) (CHR ''='') = [''partNumber'', format_nat n]"
    using SplitN2_key_value [of "CHR ''=''" "''partNumber''" "format_nat n"] by simp
  then have "Query_Get (''partNumber='' @ format_nat n) ''partNumber'' = format_nat n"
    using one_field plain by (simp add: Query_Get_def query_field_def QueryUnescape_id List.map_filter_simps)
  moreover have "hd (format_nat n) \<noteq> CHR ''-'' \<and> hd (format_nat n) \<noteq> CHR ''+''" using plain by simp
  ultimately show ?thesis using assms digits by (simp add: Atoi_def list_all_iff)
qed

theorem part_number_roundtrip_witness:
  "Atoi (Query_Get (''partNumber='' @ format_nat 10000) ''partNumber'') = Inr 10000"
  using part_number_roundtrip [of 10000] by simp

text \<open>An upload in one request reports success exactly when the checksum the store answers with is that of the data.
  For the object store of the repository and any data: the object is stored under the checksum the store computes, which
  a test may overwrite, the metrics are as before, and an ETag other than the MD5 sum of the data is reported.\<close>

theorem object_checksum_checked:
  assumes "parse putURL = Inr u" "url_Path u \<noteq> []" "multipart o' (url_Path u) = None"
    "\<forall>t. overwriteMD5 o' (url_Path u) = Some t \<longrightarrow> hd (t @ ''x'') \<noteq> CHR 0x22"
  shows "\<exists>err o2. let sum = hex_encode (stub_md5 env data);
             etag = (case overwriteMD5 o' (url_Path u) of None \<Rightarrow> sum | Some t \<Rightarrow> t) in
     newObject parse (stub_client env) (stub_md5 env) metrics putURL putHeaders sz data (o', m) = (Return (err, etag), o2, m) \<and>
     (err = None \<longleftrightarrow> etag = sum) \<and> bucket o2 = (bucket o')(url_Path u \<mapsto> etag) \<and> multipart o2 = multipart o' \<and>
     puts o2 = Suc (puts o')"
proof -
  define etag where "etag = (case overwriteMD5 o' (url_Path u) of None \<Rightarrow> hex_encode (stub_md5 env data) | Some t \<Rightarrow> t)"
  define o2 where "o2 = o'\<lparr>stub_headers := (stub_headers o')(url_Path u \<mapsto> req_Header (put_request u putHeaders data sz)),
      puts := Suc (puts o'), bucket := (bucket o')(url_Path u \<mapsto> etag)\<rparr>"
  have "extractETag etag = Return etag"
  proof (cases "overwriteMD5 o' (url_Path u)")
    case (Some t)
    then show ?thesis using assms(4) by (cases t) (auto simp: etag_def extractETag_def)
  qed (simp add: etag_def)
  moreover have "stub_client env (put_request u putHeaders data sz) o' =
      (Inr \<lparr>rsp_Status = ''200 OK'', rsp_StatusCode = 200, rsp_Header = Header_Set [] ''ETag'' etag, rsp_Body = reader_of []\<rparr>, o2)"
    using assms(2,3) answer_ok [of "Header_Set [] ''ETag'' etag"]
    by (cases "overwriteMD5 o' (url_Path u)")
      (simp_all add: stub_client_def stub_ServeHTTP_def put_request_def client_request_def putObject_def Let_def etag_def o2_def
        new_response_def)
  ultimately have "\<exists>err. newObject parse (stub_client env) (stub_md5 env) metrics putURL putHeaders sz data (o', m) =
      (Return (err, etag), o2, m) \<and> (err = None \<longleftrightarrow> etag = hex_encode (stub_md5 env data))"
    using assms(1) by (simp add: newObject_def object_upload_def Header_Get_Set md5Sum_def)
  moreover have "bucket o2 = (bucket o')(url_Path u \<mapsto> etag)" "multipart o2 = multipart o'" "puts o2 = Suc (puts o')"
    by (simp_all add: o2_def)
  ultimately show ?thesis unfolding etag_def [symmetric] Let_def by blast
qed

theorem object_checksum_checked_witness:
  "\<exists>err o2. newObject plain_parse (stub_client plain_env) (stub_md5 plain_env) True ''/b/k'' [] 3 ''abc''
       (StartObjectStoreWithCustomMD5 [''/b/k'' \<mapsto> ''00''], no_uploads) = (Return (err, ''00''), o2, no_uploads) \<and>
     err \<noteq> None \<and> bucket o2 ''/b/k'' = Some ''00''"
proof -
  let ?o = "StartObjectStoreWithCustomMD5 [''/b/k'' \<mapsto> ''00'']"
  let ?u = "\<lparr>url_Scheme = ''http'', url_Host = ''store'', url_Path = ''/b/k'', url_RawQuery = []\<rparr>"
  have "plain_parse ''/b/k'' = Inr ?u" by code_simp
  moreover have "hex_encode (stub_md5 plain_env ''abc'') = ''616263''" by code_simp
  ultimately show ?thesis
    using object_checksum_checked [of plain_parse "''/b/k''" ?u ?o plain_env "''abc''" True "[]" 3 no_uploads]
    by (auto simp: StartObjectStoreWithCustomMD5_def Let_def)
qed

section \<open>What the store can hold\<close>

text \<open>The states of a store that has been sent any requests, in any order and by anyone.\<close>

inductive stub_run :: "stub_env \<Rightarrow> ObjectstoreStub \<Rightarrow> bool" for env where
  run_start: "stub_run env StartObjectStore"
| run_initiate: "stub_run env o' \<Longrightarrow> stub_run env (snd (InitiateMultipartUpload path o'))"
| run_request: "stub_run env o' \<Longrightarrow> stub_run env (snd (stub_client env q o'))"

definition part_tag :: "stub_env \<Rightarrow> string \<Rightarrow> bool" where
  "part_tag env t \<longleftrightarrow> (\<exists>b. t = hex_encode (stub_md5 env b))"

definition object_tag :: "stub_env \<Rightarrow> string \<Rightarrow> bool" where
  "object_tag env t \<longleftrightarrow> part_tag env t \<or> (\<exists>b n. t = hex_encode (stub_md5 env b) @ ''-'' @ format_nat n)"

definition well_tagged :: "stub_env \<Rightarrow> ObjectstoreStub \<Rightarrow> bool" where
  "well_tagged env o' \<longleftrightarrow> overwriteMD5 o' = Map.empty \<and> (\<forall>t \<in> ran (bucket o'). object_tag env t) \<and>
     (\<forall>mp \<in> ran (multipart o'). \<forall>t \<in> ran mp. part_tag env t)"

lemma ran_update: "x \<in> ran (m(k \<mapsto> v)) \<Longrightarrow> x = v \<or> x \<in> ran m"
  by (auto simp: ran_def split: if_splits)

lemma ran_remove: "x \<in> ran (m(k := None)) \<Longrightarrow> x \<in> ran m"
  by (auto simp: ran_def split: if_splits)

lemma Build_object_tag: "BuildMultipartUploadETag (stub_md5 env) parts = Inr t \<Longrightarrow> object_tag env t"
  by (auto simp: BuildMultipartUploadETag_def object_tag_def split: option.splits)

lemma removeObject_well_tagged: "well_tagged env o' \<Longrightarrow> well_tagged env (fst (removeObject w r (o', s)))"
  by (auto simp: removeObject_def well_tagged_def Let_def dest!: ran_remove)

lemma putObject_well_tagged:
  assumes "well_tagged env o'"
  shows "well_tagged env (fst (putObject env w r (o', s)))"
proof -
  have none: "overwriteMD5 o' = Map.empty" and tags: "\<And>t. t \<in> ran (bucket o') \<Longrightarrow> object_tag env t"
    and parts: "\<And>mp t. mp \<in> ran (multipart o') \<Longrightarrow> t \<in> ran mp \<Longrightarrow> part_tag env t"
    using assms by (auto simp: well_tagged_def)
  have new: "part_tag env (hex_encode (stub_md5 env b))" "object_tag env (hex_encode (stub_md5 env b))" for b
    by (auto simp: part_tag_def object_tag_def)
  have old: "part_tag env t" if "multipart o' path = Some mp" "t \<in> ran mp" for path mp t
    using parts [OF _ that(2)] ranI [of "multipart o'" path mp] that(1) by simp
  show ?thesis
    by (auto simp: putObject_def well_tagged_def Let_def none new split: option.splits sum.splits
        dest!: ran_update intro: tags parts old)
qed

lemma completeMultipartUpload_well_tagged:
  assumes "well_tagged env o'"
  shows "well_tagged env (fst (completeMultipartUpload env w r (o', s)))"
proof -
  have none: "overwriteMD5 o' = Map.empty" using assms by (simp add: well_tagged_def)
  show ?thesis using assms
    by (auto simp: completeMultipartUpload_def well_tagged_def Let_def none split: option.splits sum.splits prod.splits
        dest!: ran_update ran_remove dest: Build_object_tag)
qed

lemma stub_run_well_tagged: "stub_run env o' \<Longrightarrow> well_tagged env o'"
proof (induction rule: stub_run.induct)
  case run_start
  then show ?case by (simp add: well_tagged_def StartObjectStore_def StartObjectStoreWithCustomMD5_def)
next
  case (run_initiate o' path)
  then show ?case by (auto simp: InitiateMultipartUpload_def well_tagged_def dest!: ran_update)
next
  case (run_request o' q)
  then show ?case
    by (simp add: stub_client_def stub_ServeHTTP_def split_beta
        removeObject_well_tagged putObject_well_tagged completeMultipartUpload_well_tagged)
qed

lemma error_status:
  "code \<noteq> 0 \<Longrightarrow> rsp_StatusCode (wire_response (http_Error net_writer msg code new_response)) = code"
  by (simp add: wire_response_def http_Error_def net_writer_def net_WriteHeader_def net_Write_def new_response_def no_response_def Let_def)

lemma put_answer:
  assumes "well_tagged env o'" "stub_client env (put_request u h data n) o' = (Inr resp, o'')" "rsp_StatusCode resp = 200"
  shows "Header_Get (rsp_Header resp) ''ETag'' = hex_encode (stub_md5 env data)"
proof -
  have "overwriteMD5 o' = Map.empty" using assms(1) by (simp add: well_tagged_def)
  then show ?thesis using assms(2,3)
    by (auto simp: stub_client_def stub_ServeHTTP_def put_request_def client_request_def putObject_def Let_def answer_ok
        error_status Header_Get_Set split: if_splits option.splits sum.splits)
qed



end
