(* ===== verification/Pktline.thy ===== *)
theory Pktline
  imports Codec
begin

text \<open>
  \<open>internal/git/pktline.go\<close>: splitting a Git request into packet lines, and the search for a
  \<open>deepen\<close> line. \<open>bufio.Scanner\<close>, which calls the splitter on a growing buffer, is modelled as the
  loop it is. Its limit of 65536 bytes on one token is never reached, because a packet line has at
  most 65535 bytes; readers that deliver nothing without ending are left out.
\<close>

section \<open>The splitter\<close>

text \<open>\<open>strconv.ParseInt(s, 16, 0)\<close> on at most 15 digits, where the range of \<open>int\<close> does not matter.\<close>

fun parse_hex :: "nat \<Rightarrow> string \<Rightarrow> nat option" where
  "parse_hex n [] = Some n"
| "parse_hex n (c # s) = (case hex_value c of None \<Rightarrow> None | Some d \<Rightarrow> parse_hex (16 * n + d) s)"

definition ParseInt16 :: "string \<Rightarrow> int option" where
  "ParseInt16 s =
     (case s of
        [] \<Rightarrow> None
      | c # t \<Rightarrow>
          if c = CHR ''+'' then (if t = [] then None else map_option int (parse_hex 0 t))
          else if c = CHR ''-'' then (if t = [] then None else map_option (\<lambda>n. - int n) (parse_hex 0 t))
          else map_option int (parse_hex 0 s))"

text \<open>
  The results of a \<open>bufio.SplitFunc\<close>: an error, more data wanted, or how far to advance and the
  token. Slicing the data outside of its bounds panics.
\<close>

datatype split_result = Split_error gerror | Want_more | Token nat bytes

definition pktLineSplitter :: "bytes \<Rightarrow> bool \<Rightarrow> split_result go" where
  "pktLineSplitter data atEOF =
     (if length data < 4 then
        if atEOF \<and> length data > 0
        then Return (Split_error (Errorf (''pktLineSplitter: incomplete length prefix on '' @ Quote data)))
        else Return Want_more
      else if HasPrefix data ''0000'' then Return (Token 4 [])
      else case ParseInt16 (take 4 data) of
        None \<Rightarrow> Return (Split_error (Errorf (''pktLineSplitter: decode length: strconv.ParseInt: parsing '' @
                  Quote (take 4 data) @ '': invalid syntax'')))
      | Some pktLength \<Rightarrow>
          if pktLength < 0
          then Return (Split_error (Errorf (''pktLineSplitter: invalid length: '' @ FormatInt pktLength)))
          else if int (length data) < pktLength then
            if atEOF
            then Return (Split_error (Errorf (''pktLineSplitter: less than '' @ FormatInt pktLength @
                   '' bytes in input '' @ Quote data)))
            else Return Want_more
          else if pktLength < 4 then Panic ''slice bounds out of range''
          else Return (Token (nat pktLength) (drop 4 (take (nat pktLength) data))))"

section \<open>The scanner\<close>

record scanner =
  sc_buf :: bytes
  sc_rest :: "bytes list"
  sc_end :: gerror
  sc_err :: "gerror option"

text \<open>\<open>setErr\<close> keeps the first error other than end of file.\<close>

definition setErr :: "gerror \<Rightarrow> scanner \<Rightarrow> scanner" where
  "setErr e s = (if sc_err s = None \<or> sc_err s = Some EOF then s\<lparr>sc_err := Some e\<rparr> else s)"

definition scanner_Err :: "scanner \<Rightarrow> gerror option" where
  "scanner_Err s = (if sc_err s = Some EOF then None else sc_err s)"

function Scan :: "scanner \<Rightarrow> (bytes option \<times> scanner) go" where
  "Scan s =
     (case (if sc_buf s \<noteq> [] \<or> sc_err s \<noteq> None then pktLineSplitter (sc_buf s) (sc_err s \<noteq> None) else Return Want_more) of
        Panic m \<Rightarrow> Panic m
      | Return (Split_error e) \<Rightarrow> Return (None, setErr e s)
      | Return (Token n token) \<Rightarrow> Return (Some token, s\<lparr>sc_buf := drop n (sc_buf s)\<rparr>)
      | Return Want_more \<Rightarrow>
          if sc_err s \<noteq> None then Return (None, s\<lparr>sc_buf := []\<rparr>)
          else case sc_rest s of
            [] \<Rightarrow> Scan (s\<lparr>sc_err := Some (sc_end s)\<rparr>)
          | c # cs \<Rightarrow> Scan (s\<lparr>sc_buf := sc_buf s @ c, sc_rest := cs\<rparr>))"
  by pat_completeness auto

termination
  by (relation "measure (\<lambda>s. length (sc_rest s) + (if sc_err s = None then 1 else 0))") auto

declare Scan.simps [simp del]

definition pending :: "scanner \<Rightarrow> bytes" where
  "pending s = sc_buf s @ concat (sc_rest s)"

lemma splitter_advance: "pktLineSplitter d b = Return (Token n t) \<Longrightarrow> 4 \<le> n \<and> n \<le> length d"
  by (auto simp: pktLineSplitter_def split: if_splits option.splits)

text \<open>What \<open>Scan\<close> does with the current buffer before it reads on.\<close>

definition scan_now :: "scanner \<Rightarrow> split_result go" where
  "scan_now s = (if sc_buf s \<noteq> [] \<or> sc_err s \<noteq> None then pktLineSplitter (sc_buf s) (sc_err s \<noteq> None) else Return Want_more)"

lemma Scan_unfold:
  "Scan s =
     (case scan_now s of
        Panic m \<Rightarrow> Panic m
      | Return (Split_error e) \<Rightarrow> Return (None, setErr e s)
      | Return (Token n token) \<Rightarrow> Return (Some token, s\<lparr>sc_buf := drop n (sc_buf s)\<rparr>)
      | Return Want_more \<Rightarrow>
          if sc_err s \<noteq> None then Return (None, s\<lparr>sc_buf := []\<rparr>)
          else case sc_rest s of
            [] \<Rightarrow> Scan (s\<lparr>sc_err := Some (sc_end s)\<rparr>)
          | c # cs \<Rightarrow> Scan (s\<lparr>sc_buf := sc_buf s @ c, sc_rest := cs\<rparr>))"
  unfolding scan_now_def by (rule Scan.simps)

lemma scan_induct [case_names step]:
  assumes "\<And>s. (\<And>c cs. sc_err s = None \<Longrightarrow> sc_rest s = c # cs \<Longrightarrow> P (s\<lparr>sc_buf := sc_buf s @ c, sc_rest := cs\<rparr>)) \<Longrightarrow>
      (sc_err s = None \<Longrightarrow> sc_rest s = [] \<Longrightarrow> P (s\<lparr>sc_err := Some (sc_end s)\<rparr>)) \<Longrightarrow> P s"
  shows "P s"
proof (induction s rule: measure_induct_rule [where f = "\<lambda>s. length (sc_rest s) + (if sc_err s = None then 1 else 0)"])
  case (less s)
  show ?case by (rule assms) (auto intro!: less)
qed

lemma Scan_consumes:
  "Scan s = Return (Some t, s') \<Longrightarrow> length (pending s') < length (pending s)"
proof (induction s rule: scan_induct)
  case (step s)
  consider (now) n where "scan_now s = Return (Token n t)" "s' = s\<lparr>sc_buf := drop n (sc_buf s)\<rparr>"
    | (ended) "sc_err s = None" "sc_rest s = []" "Scan (s\<lparr>sc_err := Some (sc_end s)\<rparr>) = Return (Some t, s')"
    | (read) c cs where "sc_err s = None" "sc_rest s = c # cs"
        "Scan (s\<lparr>sc_buf := sc_buf s @ c, sc_rest := cs\<rparr>) = Return (Some t, s')"
    using step.prems
    by (subst (asm) Scan_unfold) (auto split: go.splits split_result.splits if_splits list.splits)
  then show ?case
  proof cases
    case now
    then show ?thesis by (auto simp: scan_now_def pending_def dest!: splitter_advance split: if_splits)
  next
    case ended
    then show ?thesis using step.IH(2) by (simp add: pending_def)
  next
    case read
    then show ?thesis using step.IH(1) [OF read(1,2)] by (simp add: pending_def)
  qed
qed

function scan_deepen :: "scanner \<Rightarrow> bool go" where
  "scan_deepen s =
     (case Scan s of
        Panic m \<Rightarrow> Panic m
      | Return (None, s') \<Rightarrow> Return False
      | Return (Some token, s') \<Rightarrow>
          if HasPrefix token ''deepen'' \<and> scanner_Err s' = None then Return True else scan_deepen s')"
  by pat_completeness auto

termination
  by (relation "measure (\<lambda>s. length (pending s))") (auto dest: Scan_consumes)

declare scan_deepen.simps [simp del]

definition scanDeepen :: "stream \<Rightarrow> bool go" where
  "scanDeepen body =
     scan_deepen \<lparr>sc_buf = [], sc_rest = fst body, sc_end = (case snd body of None \<Rightarrow> EOF | Some e \<Rightarrow> e), sc_err = None\<rparr>"

section \<open>Chunks do not matter\<close>

text \<open>The same search on the whole request at once.\<close>

function pkt_deepen :: "bytes \<Rightarrow> bool go" where
  "pkt_deepen data =
     (case pktLineSplitter data True of
        Panic m \<Rightarrow> Panic m
      | Return (Token n token) \<Rightarrow> if HasPrefix token ''deepen'' then Return True else pkt_deepen (drop n data)
      | Return _ \<Rightarrow> Return False)"
  by pat_completeness auto

termination
  by (relation "measure length") (auto dest: splitter_advance)

declare pkt_deepen.simps [simp del]

lemma HasPrefix_long: "length p \<le> length d \<Longrightarrow> HasPrefix (d @ x) p = HasPrefix d p"
  by (simp add: HasPrefix_def)

text \<open>Once the splitter has decided on a buffer, more data changes nothing.\<close>

lemma splitter_more:
  assumes "pktLineSplitter d False \<noteq> Return Want_more"
  shows "pktLineSplitter (d @ x) b = pktLineSplitter d False"
  using assms by (auto simp: pktLineSplitter_def HasPrefix_long split: if_splits option.splits)

lemma splitter_end:
  "pktLineSplitter d False = Return Want_more \<Longrightarrow>
   pktLineSplitter d True = Return Want_more \<or> (\<exists>e. pktLineSplitter d True = Return (Split_error e))"
  by (auto simp: pktLineSplitter_def split: if_splits option.splits)

lemma splitter_Nil [simp]: "pktLineSplitter [] b = Return Want_more"
  by (simp add: pktLineSplitter_def)

lemma scan_now_reading: "sc_err s = None \<Longrightarrow> scan_now s = pktLineSplitter (sc_buf s) False"
  by (simp add: scan_now_def)

lemma scan_now_ended: "sc_err s \<noteq> None \<Longrightarrow> scan_now s = pktLineSplitter (sc_buf s) True"
  by (simp add: scan_now_def)

lemma Scan_whole:
  "sc_err s = None \<Longrightarrow>
   (case pktLineSplitter (pending s) True of
      Panic m \<Rightarrow> Scan s = Panic m
    | Return (Token n t) \<Rightarrow> \<exists>s'. Scan s = Return (Some t, s') \<and> pending s' = drop n (pending s) \<and> sc_err s' = None
    | Return _ \<Rightarrow> \<exists>s'. Scan s = Return (None, s'))"
proof (induction s rule: scan_induct)
  case (step s)
  note now = scan_now_reading [OF step.prems]
  show ?case
  proof (cases "scan_now s = Return Want_more")
    case False
    then have eq: "pktLineSplitter (pending s) True = scan_now s"
      unfolding now pending_def by (rule splitter_more)
    have "drop n (pending s) = drop n (sc_buf s) @ concat (sc_rest s)" if "scan_now s = Return (Token n t)" for n t
      using that splitter_advance [of "sc_buf s" False n t] by (simp add: now pending_def)
    with False step.prems show ?thesis
      unfolding eq by (subst (1 2 3) Scan_unfold) (auto simp: pending_def split: go.split split_result.split)
  next
    case True
    show ?thesis
    proof (cases "sc_rest s")
      case Nil
      let ?s = "s\<lparr>sc_err := Some (sc_end s)\<rparr>"
      have "Scan s = Scan ?s" by (subst Scan_unfold) (simp add: True step.prems Nil)
      moreover from True have "pktLineSplitter (pending s) True = Return Want_more \<or>
          (\<exists>e. pktLineSplitter (pending s) True = Return (Split_error e))"
        unfolding now pending_def by (simp add: Nil splitter_end)
      moreover have "scan_now ?s = pktLineSplitter (pending s) True"
        by (simp add: scan_now_ended pending_def Nil)
      ultimately show ?thesis by (auto simp: Scan_unfold [of ?s])
    next
      case (Cons c cs)
      let ?s = "s\<lparr>sc_buf := sc_buf s @ c, sc_rest := cs\<rparr>"
      have "Scan s = Scan ?s" by (subst Scan_unfold) (simp add: True step.prems Cons)
      moreover have "pending ?s = pending s" by (simp add: pending_def Cons)
      ultimately show ?thesis using step.IH(1) [OF step.prems Cons] step.prems
        by (auto split: go.splits split_result.splits)
    qed
  qed
qed

lemma scan_deepen_whole: "sc_err s = None \<Longrightarrow> scan_deepen s = pkt_deepen (pending s)"
proof (induction "length (pending s)" arbitrary: s rule: less_induct)
  case less
  note whole = Scan_whole [OF less.prems]
  show ?case
  proof (cases "\<exists>n t. pktLineSplitter (pending s) True = Return (Token n t)")
    case True
    then obtain n t where eq: "pktLineSplitter (pending s) True = Return (Token n t)" by blast
    with whole obtain s' where s': "Scan s = Return (Some t, s')" "pending s' = drop n (pending s)" "sc_err s' = None"
      by auto
    have "scan_deepen s' = pkt_deepen (drop n (pending s))"
      using less.hyps [OF Scan_consumes [OF s'(1)] s'(3)] s'(2) by simp
    then show ?thesis
      by (subst scan_deepen.simps, subst pkt_deepen.simps) (simp add: eq s' scanner_Err_def)
  next
    case False
    then show ?thesis using whole
      by (subst scan_deepen.simps, subst pkt_deepen.simps) (auto split: go.split split_result.split)
  qed
qed

section \<open>Packet lines as Git writes them\<close>

datatype pkt = Flush | Line bytes

definition hex4 :: "nat \<Rightarrow> string" where
  "hex4 n = map hex_lower [n div 4096, n div 256 mod 16, n div 16 mod 16, n mod 16]"

primrec pkt_bytes :: "pkt \<Rightarrow> bytes" where
  "pkt_bytes Flush = ''0000''"
| "pkt_bytes (Line l) = hex4 (length l + 4) @ l"

primrec pkt_ok :: "pkt \<Rightarrow> bool" where
  "pkt_ok Flush = True"
| "pkt_ok (Line l) = (length l \<le> 65531)"

primrec pkt_is_deepen :: "pkt \<Rightarrow> bool" where
  "pkt_is_deepen Flush = False"
| "pkt_is_deepen (Line l) = HasPrefix l ''deepen''"

lemma hex_lower_sign: "n < 16 \<Longrightarrow> hex_lower n \<noteq> CHR ''+'' \<and> hex_lower n \<noteq> CHR ''-''"
  using hex_value_digit [of n] by (auto simp: hex_value_def)

lemma ParseInt16_hex4:
  assumes "n < 65536"
  shows "ParseInt16 (hex4 n) = Some (int n)"
proof -
  have small: "n div 4096 < 16" using assms by simp
  have "n div 256 = n div 16 div 16" "n div 4096 = n div 16 div 16 div 16"
    by (simp_all flip: div_mult2_eq)
  then have "n = 16 * (16 * (16 * (n div 4096) + n div 256 mod 16) + n div 16 mod 16) + n mod 16"
    by (simp only: mult_div_mod_eq)
  then show ?thesis using small hex_lower_sign [OF small] by (simp add: ParseInt16_def hex4_def hex_value_digit)
qed

lemma hex4_nonzero: "0 < n \<Longrightarrow> n < 65536 \<Longrightarrow> hex4 n \<noteq> ''0000''"
  using ParseInt16_hex4 [of n] by (auto simp: ParseInt16_def hex_value_def)

lemma length_hex4 [simp]: "length (hex4 n) = 4"
  by (simp add: hex4_def)

lemma splitter_line:
  assumes "length l \<le> 65531"
  shows "pktLineSplitter (pkt_bytes (Line l) @ rest) True = Return (Token (length l + 4) l)"
proof -
  have "\<not> HasPrefix (hex4 (length l + 4) @ l @ rest) ''0000''"
    using assms hex4_nonzero [of "length l + 4"] by (simp add: HasPrefix_def)
  then show ?thesis
    using assms by (simp add: pktLineSplitter_def ParseInt16_hex4 nat_add_distrib)
qed

lemma pkt_deepen_lines:
  "list_all pkt_ok ps \<Longrightarrow> pkt_deepen (concat (map pkt_bytes ps) @ rest) =
     (if list_ex pkt_is_deepen ps then Return True else pkt_deepen rest)"
proof (induction ps)
  case (Cons p ps)
  show ?case
  proof (cases p)
    case Flush
    with Cons show ?thesis
      by (subst pkt_deepen.simps) (simp add: pktLineSplitter_def HasPrefix_def)
  next
    case (Line l)
    with Cons.prems have "length l \<le> 65531" by simp
    from splitter_line [OF this, of "concat (map pkt_bytes ps) @ rest"] Line Cons show ?thesis
      by (subst pkt_deepen.simps) (simp del: append_assoc add: append_assoc [symmetric])
  qed
qed simp

lemma pkt_deepen_Nil: "pkt_deepen [] = Return False"
  by (subst pkt_deepen.simps) simp

lemma scanDeepen_whole: "scanDeepen body = pkt_deepen (stream_bytes body)"
  by (simp add: scanDeepen_def scan_deepen_whole pending_def stream_bytes_def)

text \<open>C40. A request made of packet lines is read back exactly: however the body arrives in chunks, and whatever the
  connection does at its end, \<open>scanDeepen\<close> answers whether one of the lines starts with \<open>deepen\<close>; it does
  not run on, and it does not panic.\<close>

theorem scanDeepen_exact:
  assumes "list_all pkt_ok ps" "stream_bytes body = concat (map pkt_bytes ps)"
  shows "scanDeepen body = Return (list_ex pkt_is_deepen ps)"
  using pkt_deepen_lines [OF assms(1), of "[]"] by (simp add: scanDeepen_whole assms(2) pkt_deepen_Nil)

theorem scanDeepen_exact_witness:
  "scanDeepen ([''000'', ''dsomething00000'', ''00cdeepen 1''], Some DeadlineExceeded) = Return True"
proof -
  have "concat (map pkt_bytes [Line ''something'', Flush, Line ''deepen 1'']) = ''000dsomething0000000cdeepen 1''"
    by code_simp
  then show ?thesis
    using scanDeepen_exact [of "[Line ''something'', Flush, Line ''deepen 1'']"
      "([''000'', ''dsomething00000'', ''00cdeepen 1''], Some DeadlineExceeded)"]
    by (simp add: stream_bytes_def)
qed

text \<open>A length below four that is not the flush packet is sliced out of bounds: the request makes the process panic.\<close>

theorem short_packet_panics:
  "pktLineSplitter (''0001'' @ rest) b = Panic ''slice bounds out of range''"
  "pktLineSplitter (''+000'' @ rest) b = Panic ''slice bounds out of range''"
  by (simp_all add: pktLineSplitter_def ParseInt16_def hex_value_def HasPrefix_def Let_def)

end
