(* ===== verification/Write_After_Reader.thy ===== *)
theory Write_After_Reader
  imports Helper
begin

text \<open>
  \<open>internal/helper/tempfile.go\<close> and \<open>internal/helper/writeafterreader.go\<close>: a request body read into a
  temporary file, and a reader and a writer coupled so that what is written waits in a temporary file
  until the reader has been drained. The temporary files of the operating system are a parameter: each
  of their operations may fail, and a write may be cut short.
\<close>

section \<open>Temporary files\<close>

record tempfiles =
  tf_create :: "gerror option"
  tf_remove :: "gerror option"
  tf_seek :: "gerror option"
  tf_write :: "bytes \<Rightarrow> bytes \<Rightarrow> nat \<times> gerror option"

definition file_Write :: "tempfiles \<Rightarrow> bytes \<Rightarrow> bytes \<Rightarrow> bytes \<times> nat \<times> gerror option" where
  "file_Write tf contents data = (let (n, err) = tf_write tf contents data in (contents @ take n data, n, err))"

text \<open>\<open>io.Copy\<close> into a file; first the number of bytes it has taken from the reader.\<close>

fun copy_to_file :: "tempfiles \<Rightarrow> bytes \<Rightarrow> bytes list \<Rightarrow> gerror option \<Rightarrow> nat \<times> bytes result" where
  "copy_to_file tf contents [] e = (0, case e of None \<Rightarrow> Inr contents | Some err \<Rightarrow> Inl err)"
| "copy_to_file tf contents (c # cs) e =
     (case file_Write tf contents c of (contents', n, we) \<Rightarrow>
      (case we of Some err \<Rightarrow> (length c, Inl err)
       | None \<Rightarrow> if n \<noteq> length c then (length c, Inl ErrShortWrite)
                 else (case copy_to_file tf contents' cs e of (k, res) \<Rightarrow> (length c + k, res))))"

text \<open>The result is what can be read from the file, positioned at its start.\<close>

definition ReadAllTempfile :: "tempfiles \<Rightarrow> stream \<Rightarrow> nat \<times> bytes result" where
  "ReadAllTempfile tf r =
     (case tf_create tf of Some err \<Rightarrow> (0, Inl err) | None \<Rightarrow>
      case tf_remove tf of Some err \<Rightarrow> (0, Inl err) | None \<Rightarrow>
      case copy_to_file tf [] (fst r) (snd r) of
        (n, Inl err) \<Rightarrow> (n, Inl err)
      | (n, Inr contents) \<Rightarrow> (case tf_seek tf of Some err \<Rightarrow> (n, Inl err) | None \<Rightarrow> (n, Inr contents)))"

section \<open>The coupled reader and writer\<close>

record busyReader =
  br_Reader :: stream
  br_error :: "gerror option"

record 's coupledWriter =
  cw_Writer :: 's
  cw_busyReader :: busyReader
  cw_tempfile :: "bytes option"
  cw_writeError :: "gerror option"

definition NewWriteAfterReader :: "stream \<Rightarrow> 's \<Rightarrow> 's coupledWriter" where
  "NewWriteAfterReader r w =
     \<lparr>cw_Writer = w, cw_busyReader = \<lparr>br_Reader = r, br_error = None\<rparr>, cw_tempfile = None, cw_writeError = None\<rparr>"

definition busyReader_Read :: "busyReader \<Rightarrow> (bytes \<times> gerror option) \<times> busyReader" where
  "busyReader_Read r =
     (case br_error r of
        Some err \<Rightarrow> (([], Some err), r)
      | None \<Rightarrow>
          (case fst (br_Reader r) of
             c # cs \<Rightarrow> ((c, None), r\<lparr>br_Reader := (cs, snd (br_Reader r))\<rparr>)
           | [] \<Rightarrow> let err = (case snd (br_Reader r) of None \<Rightarrow> EOF | Some e \<Rightarrow> wrap_err ''busyReader: '' e)
                  in (([], Some err), r\<lparr>br_error := Some err\<rparr>)))"

definition IsBusy :: "busyReader \<Rightarrow> bool" where
  "IsBusy r \<longleftrightarrow> br_error r = None"

definition newTempfile :: "tempfiles \<Rightarrow> bytes result" where
  "newTempfile tf =
     (case tf_create tf of Some err \<Rightarrow> Inl err | None \<Rightarrow>
      case tf_remove tf of Some err \<Rightarrow> Inl err | None \<Rightarrow> Inr [])"

definition tempfileWrite :: "tempfiles \<Rightarrow> bytes \<Rightarrow> 's coupledWriter \<Rightarrow> (nat \<times> gerror option) \<times> 's coupledWriter" where
  "tempfileWrite tf data c =
     (case (case cw_tempfile c of Some contents \<Rightarrow> Inr contents | None \<Rightarrow> newTempfile tf) of
        Inl err \<Rightarrow> ((0, Some err), c)
      | Inr contents \<Rightarrow>
          let (contents', n, err) = file_Write tf contents data in ((n, err), c\<lparr>cw_tempfile := Some contents'\<rparr>))"

definition coupled_Flush :: "tempfiles \<Rightarrow> 's writer \<Rightarrow> 's coupledWriter \<Rightarrow> gerror option \<times> 's coupledWriter" where
  "coupled_Flush tf w c =
     (case cw_tempfile c of
        None \<Rightarrow> (None, c)
      | Some contents \<Rightarrow>
          let c = c\<lparr>cw_tempfile := None\<rparr> in
          case tf_seek tf of Some err \<Rightarrow> (Some err, c)
          | None \<Rightarrow> let (s, n, err) = io_Copy w (chunks 32768 contents) None (cw_Writer c) in (err, c\<lparr>cw_Writer := s\<rparr>))"

definition coupled_Write :: "tempfiles \<Rightarrow> 's writer \<Rightarrow> bytes \<Rightarrow> 's coupledWriter \<Rightarrow> (nat \<times> gerror option) \<times> 's coupledWriter" where
  "coupled_Write tf w data c =
     (case cw_writeError c of
        Some err \<Rightarrow> ((0, Some err), c)
      | None \<Rightarrow>
          if IsBusy (cw_busyReader c) then
            let ((n, err), c) = tempfileWrite tf data c;
                c = (case err of None \<Rightarrow> c | Some e \<Rightarrow> c\<lparr>cw_writeError := Some (wrap_err ''coupledWriter: '' e)\<rparr>)
            in ((n, cw_writeError c), c)
          else
            let (err, c) = coupled_Flush tf w c in
            case err of
              Some e \<Rightarrow> let c = c\<lparr>cw_writeError := Some (wrap_err ''coupledWriter: '' e)\<rparr> in ((0, cw_writeError c), c)
            | None \<Rightarrow> let (s, n, err) = w_Write w data (cw_Writer c) in ((n, err), c\<lparr>cw_Writer := s\<rparr>))"

text \<open>
  The two ends are used from different goroutines, in any order. A \<open>Write\<close> that finds the reader busy
  touches nothing the reader touches afterwards, so the calls can be taken one at a time.
\<close>

datatype coupled_call = Couple_Read | Couple_Write bytes | Couple_Flush

fun run_call :: "tempfiles \<Rightarrow> 's writer \<Rightarrow> coupled_call \<Rightarrow> 's coupledWriter \<Rightarrow> 's coupledWriter" where
  "run_call tf w Couple_Read c = c\<lparr>cw_busyReader := snd (busyReader_Read (cw_busyReader c))\<rparr>"
| "run_call tf w (Couple_Write d) c = snd (coupled_Write tf w d c)"
| "run_call tf w Couple_Flush c = snd (coupled_Flush tf w c)"

definition coupled_calls :: "tempfiles \<Rightarrow> 's writer \<Rightarrow> coupled_call list \<Rightarrow> 's coupledWriter \<Rightarrow> 's coupledWriter" where
  "coupled_calls tf w ops c = fold (run_call tf w) ops c"

section \<open>A request body in a temporary file\<close>

lemma copy_to_file_result:
  "copy_to_file tf contents cs e = (n, Inr b) \<Longrightarrow> b = contents @ concat cs \<and> e = None \<and> n = length (concat cs)"
  by (induction tf contents cs e arbitrary: n rule: copy_to_file.induct)
    (fastforce simp: file_Write_def Let_def split: option.splits prod.splits if_splits)+

text \<open>Whatever fails, what is handed out is the whole body and the body ended properly.\<close>

lemma ReadAllTempfile_whole:
  "ReadAllTempfile tf r = (n, Inr b) \<Longrightarrow> b = stream_bytes r \<and> snd r = None \<and> n = length (stream_bytes r)"
  by (auto simp: ReadAllTempfile_def stream_bytes_def dest: copy_to_file_result split: option.splits sum.splits prod.splits)

section \<open>The writer waits for the reader\<close>

lemma coupled_calls_Nil [simp]: "coupled_calls tf w [] c = c"
  by (simp add: coupled_calls_def)

lemma coupled_calls_snoc [simp]: "coupled_calls tf w (ops @ [x]) c = run_call tf w x (coupled_calls tf w ops c)"
  by (simp add: coupled_calls_def)

lemma tempfileWrite_rest:
  "cw_Writer (snd (tempfileWrite tf d c)) = cw_Writer c"
  "cw_busyReader (snd (tempfileWrite tf d c)) = cw_busyReader c"
  "cw_writeError (snd (tempfileWrite tf d c)) = cw_writeError c"
  by (auto simp: tempfileWrite_def Let_def split: option.splits sum.splits prod.splits)

lemma Flush_reader [simp]: "cw_busyReader (snd (coupled_Flush tf w c)) = cw_busyReader c"
  by (auto simp: coupled_Flush_def Let_def split: option.splits prod.splits)

lemma Write_reader [simp]: "cw_busyReader (snd (coupled_Write tf w d c)) = cw_busyReader c"
  using tempfileWrite_rest(2) [of tf d c] Flush_reader [of tf w c]
  by (auto simp: coupled_Write_def Let_def simp del: Flush_reader split: option.splits prod.splits)

lemma Write_busy: "IsBusy (cw_busyReader c) \<Longrightarrow> cw_Writer (snd (coupled_Write tf w d c)) = cw_Writer c"
  using tempfileWrite_rest(1) [of tf d c]
  by (auto simp: coupled_Write_def Let_def split: option.splits prod.splits)

lemma Read_keeps_idle: "IsBusy (snd (busyReader_Read r)) \<Longrightarrow> IsBusy r"
  by (auto simp: busyReader_Read_def IsBusy_def Let_def split: option.splits list.splits)

lemma run_call_busy: "IsBusy (cw_busyReader (run_call tf w x c)) \<Longrightarrow> IsBusy (cw_busyReader c)"
  by (cases x) (auto dest: Read_keeps_idle)

lemma held_back:
  "Couple_Flush \<notin> set ops \<Longrightarrow> IsBusy (cw_busyReader (coupled_calls tf w ops c)) \<Longrightarrow>
   cw_Writer (coupled_calls tf w ops c) = cw_Writer c"
proof (induction ops rule: rev_induct)
  case (snoc x ops)
  then have busy: "IsBusy (cw_busyReader (coupled_calls tf w ops c))" using run_call_busy by simp
  with snoc have "cw_Writer (coupled_calls tf w ops c) = cw_Writer c" "x \<noteq> Couple_Flush" by auto
  with busy show ?case by (cases x) (simp_all add: Write_busy)
qed simp

text \<open>The reader is busy until a \<open>Read\<close> has met the end of the body.\<close>

lemma busy_reads:
  "br_error r = None \<Longrightarrow> IsBusy (((\<lambda>r. snd (busyReader_Read r)) ^^ n) r) \<longleftrightarrow> n \<le> length (fst (br_Reader r))"
proof (induction n arbitrary: r)
  case (Suc n)
  have stuck: "\<not> IsBusy (((\<lambda>r. snd (busyReader_Read r)) ^^ k) r')" if "br_error r' \<noteq> None" for k and r' :: busyReader
    using that
  proof (induction k)
    case (Suc k)
    then show ?case using Read_keeps_idle by auto
  qed (simp add: IsBusy_def)
  show ?case
  proof (cases "fst (br_Reader r)")
    case Nil
    with Suc.prems have "br_error (snd (busyReader_Read r)) \<noteq> None" by (simp add: busyReader_Read_def Let_def)
    with stuck Nil show ?thesis by (simp add: funpow_Suc_right del: funpow.simps)
  next
    case (Cons c cs)
    with Suc show ?thesis by (simp add: busyReader_Read_def funpow_Suc_right del: funpow.simps)
  qed
qed (simp add: IsBusy_def)

lemma calls_reader:
  "cw_busyReader (coupled_calls tf w ops c) =
     ((\<lambda>r. snd (busyReader_Read r)) ^^ length (filter ((=) Couple_Read) ops)) (cw_busyReader c)"
proof (induction ops rule: rev_induct)
  case (snoc x ops)
  then show ?case by (cases x) simp_all
qed simp

section \<open>Nothing is lost or reordered\<close>

text \<open>Temporary files on a disk that works.\<close>

definition disk_ok :: "tempfiles \<Rightarrow> bool" where
  "disk_ok tf \<longleftrightarrow> tf_create tf = None \<and> tf_remove tf = None \<and> tf_seek tf = None \<and>
     (\<forall>contents d. tf_write tf contents d = (length d, None))"

primrec call_data :: "coupled_call \<Rightarrow> bytes" where
  "call_data Couple_Read = []"
| "call_data (Couple_Write d) = d"
| "call_data Couple_Flush = []"

definition waiting :: "'s coupledWriter \<Rightarrow> bytes" where
  "waiting c = (case cw_tempfile c of None \<Rightarrow> [] | Some contents \<Rightarrow> contents)"

lemma ReadAllTempfile_works:
  assumes "disk_ok tf"
  shows "ReadAllTempfile tf r = (length (stream_bytes r), ReadAll r)"
proof -
  have "copy_to_file tf contents cs e =
      (length (concat cs), case e of None \<Rightarrow> Inr (contents @ concat cs) | Some err \<Rightarrow> Inl err)" for contents cs e
    using assms by (induction cs arbitrary: contents) (auto simp: disk_ok_def file_Write_def split: option.split)
  with assms show ?thesis by (auto simp: ReadAllTempfile_def ReadAll_def disk_ok_def stream_bytes_def split: option.split)
qed

lemma tempfileWrite_ok:
  assumes "disk_ok tf"
  shows "tempfileWrite tf d c = ((length d, None), c\<lparr>cw_tempfile := Some (waiting c @ d)\<rparr>)"
  using assms by (simp add: tempfileWrite_def disk_ok_def newTempfile_def file_Write_def waiting_def split: option.split)

context reliable_writer
begin

definition coupled_ok :: "bytes \<Rightarrow> 'a coupledWriter \<Rightarrow> bool" where
  "coupled_ok data c \<longleftrightarrow> ok (cw_Writer c) \<and> cw_writeError c = None \<and> o_body (out (cw_Writer c)) @ waiting c = data"

lemma Flush_ok:
  assumes "disk_ok tf" "coupled_ok data c"
  obtains c' where "coupled_Flush tf w c = (None, c')" "coupled_ok data c'" "cw_tempfile c' = None"
proof (cases "cw_tempfile c")
  case None
  then show ?thesis using assms that [of c] by (simp add: coupled_Flush_def)
next
  case (Some contents)
  from assms have "ok (cw_Writer c)" by (simp add: coupled_ok_def)
  from io_Copy_all [OF this, of "chunks 32768 contents" None] obtain s' where
    "io_Copy w (chunks 32768 contents) None (cw_Writer c) = (s', length contents, None)" "ok s'"
    "o_body (out s') = o_body (out (cw_Writer c)) @ contents"
    by (auto simp: concat_chunks)
  then show ?thesis using assms Some that [of "c\<lparr>cw_tempfile := None, cw_Writer := s'\<rparr>"]
    by (simp add: coupled_Flush_def coupled_ok_def disk_ok_def waiting_def)
qed

lemma Write_ok:
  assumes "disk_ok tf" "coupled_ok data c"
  shows "coupled_ok (data @ d) (snd (coupled_Write tf w d c))"
proof (cases "IsBusy (cw_busyReader c)")
  case True
  then show ?thesis using assms
    by (simp add: coupled_Write_def coupled_ok_def tempfileWrite_ok waiting_def split: option.split)
next
  case False
  obtain c' where c': "coupled_Flush tf w c = (None, c')" "coupled_ok data c'" "cw_tempfile c' = None"
    using assms by (rule Flush_ok)
  then have "ok (cw_Writer c')" by (simp add: coupled_ok_def)
  with False c' assms show ?thesis
    by (auto simp: coupled_Write_def coupled_ok_def waiting_def Let_def split_beta Write_all fresh_body ok_Write)
qed

lemma calls_ok:
  "disk_ok tf \<Longrightarrow> coupled_ok data c \<Longrightarrow>
   coupled_ok (data @ concat (map call_data ops)) (coupled_calls tf w ops c)"
proof (induction ops rule: rev_induct)
  case (snoc x ops)
  then have IH: "coupled_ok (data @ concat (map call_data ops)) (coupled_calls tf w ops c)" by simp
  show ?case
  proof (cases x)
    case Couple_Read
    with IH show ?thesis by (simp add: coupled_ok_def waiting_def)
  next
    case (Couple_Write d)
    with Write_ok [OF snoc.prems(1) IH] show ?thesis by simp
  next
    case Couple_Flush
    obtain c' where "coupled_Flush tf w (coupled_calls tf w ops c) = (None, c')"
      "coupled_ok (data @ concat (map call_data ops)) c'" by (rule Flush_ok [OF snoc.prems(1) IH])
    with Couple_Flush show ?thesis by simp
  qed
qed simp

lemma all_delivered:
  assumes "disk_ok tf" "ok s"
  shows "o_body (out (cw_Writer (coupled_calls tf w (ops @ [Couple_Flush]) (NewWriteAfterReader r s)))) =
     o_body (out s) @ concat (map call_data ops)"
proof -
  have "coupled_ok (o_body (out s)) (NewWriteAfterReader r s)"
    using assms by (simp add: coupled_ok_def NewWriteAfterReader_def waiting_def)
  note calls = calls_ok [OF assms(1) this, of ops]
  obtain c' where
    "coupled_Flush tf w (coupled_calls tf w ops (NewWriteAfterReader r s)) = (None, c')"
    "coupled_ok (o_body (out s) @ concat (map call_data ops)) c'" "cw_tempfile c' = None"
    by (rule Flush_ok [OF assms(1) calls])
  then show ?thesis by (simp add: coupled_ok_def waiting_def)
qed

end

text \<open>However reads and writes interleave, nothing reaches the writer before a \<open>Read\<close> has met the end of the body.\<close>

lemma nothing_before_end:
  assumes "Couple_Flush \<notin> set ops" "length (filter ((=) Couple_Read) ops) \<le> length (fst body)"
  shows "cw_Writer (coupled_calls tf w ops (NewWriteAfterReader body s)) = s"
proof -
  have "IsBusy (cw_busyReader (coupled_calls tf w ops (NewWriteAfterReader body s)))"
    unfolding calls_reader using assms by (subst busy_reads) (simp_all add: NewWriteAfterReader_def)
  from held_back [OF assms(1) this] show ?thesis by (simp add: NewWriteAfterReader_def)
qed

end
