(* ===== verification/Gitaly.thy ===== *)
theory Gitaly
  imports Api Write_After_Reader
begin

text \<open>
  \<open>internal/gitaly\<close>: the cache of connections (\<open>gitaly.go\<close>) and the clients of the Gitaly services
  (\<open>smarthttp.go\<close>, \<open>blob.go\<close>, \<open>diff.go\<close>, \<open>repository.go\<close>). The gRPC calls are parameters: a call fails
  to open, or it delivers a sequence of messages that ends with end of file (\<open>None\<close>) or an error.
\<close>

section \<open>The cache of connections\<close>

text \<open>
  Every request for a client runs \<open>getOrCreateConnection\<close> in its own goroutine. It looks the server up
  under the read lock, and if there is no connection it looks again under the write lock and dials.
  These two critical sections are the steps; what a dial returns is left open.
\<close>

datatype 'c conn_phase = Conn_looking | Conn_missed | Conn_done "'c result"

record 'c conn_cache =
  connections :: "gitaly_Server \<Rightarrow> 'c option"
  conn_phase :: "nat \<Rightarrow> 'c conn_phase"
  conn_dialed :: "(gitaly_Server \<times> 'c) list"
  conn_closed :: "'c set"

definition no_connections :: "'c conn_cache" where
  "no_connections = \<lparr>connections = (\<lambda>_. None), conn_phase = (\<lambda>_. Conn_looking), conn_dialed = [], conn_closed = {}\<rparr>"

definition conn_lookup :: "gitaly_Server \<Rightarrow> nat \<Rightarrow> 'c conn_cache \<Rightarrow> 'c conn_cache" where
  "conn_lookup server g x =
     x\<lparr>conn_phase := (conn_phase x)(g := (case connections x server of Some conn \<Rightarrow> Conn_done (Inr conn) | None \<Rightarrow> Conn_missed))\<rparr>"

definition conn_create :: "'c result \<Rightarrow> gitaly_Server \<Rightarrow> nat \<Rightarrow> 'c conn_cache \<Rightarrow> 'c conn_cache" where
  "conn_create newConnection server g x =
     (case connections x server of
        Some conn \<Rightarrow> x\<lparr>conn_phase := (conn_phase x)(g := Conn_done (Inr conn))\<rparr>
      | None \<Rightarrow>
          (case newConnection of
             Inl err \<Rightarrow> x\<lparr>conn_phase := (conn_phase x)(g := Conn_done (Inl err))\<rparr>
           | Inr conn \<Rightarrow> x\<lparr>connections := (connections x)(server \<mapsto> conn),
               conn_phase := (conn_phase x)(g := Conn_done (Inr conn)), conn_dialed := (server, conn) # conn_dialed x\<rparr>))"

definition CloseConnections :: "'c conn_cache \<Rightarrow> 'c conn_cache" where
  "CloseConnections x = x\<lparr>conn_closed := conn_closed x \<union> ran (connections x)\<rparr>"

text \<open>\<open>srv g\<close> is the server goroutine \<open>g\<close> asks for.\<close>

inductive conn_step :: "(nat \<Rightarrow> gitaly_Server) \<Rightarrow> 'c conn_cache \<Rightarrow> 'c conn_cache \<Rightarrow> bool" for srv where
  step_lookup: "conn_phase x g = Conn_looking \<Longrightarrow> conn_step srv x (conn_lookup (srv g) g x)"
| step_create: "conn_phase x g = Conn_missed \<Longrightarrow> conn_step srv x (conn_create newConnection (srv g) g x)"
| step_close: "conn_step srv x (CloseConnections x)"

text \<open>
  Dialling. The default options of the client library are a parameter; the token of the server is the
  credential of every call made over the connection.
\<close>

datatype 'o dial_option = Default_option 'o | PerRPCCredentials string | StreamInterceptor string | UnaryInterceptor string

definition newConnection :: "(string \<Rightarrow> 'o dial_option list \<Rightarrow> 'c result) \<Rightarrow> 'o list \<Rightarrow> gitaly_Server \<Rightarrow> 'c result" where
  "newConnection dial DefaultDialOpts server =
     (let connOpts = map Default_option DefaultDialOpts @
        [PerRPCCredentials (gs_Token server), StreamInterceptor ''grpc_prometheus'', UnaryInterceptor ''grpc_prometheus'']
      in dial (gs_Address server) connOpts)"

text \<open>\<open>getOrCreateConnection\<close> without interruption, and the clients made from its connection.\<close>

definition getOrCreateConnection :: "(gitaly_Server \<Rightarrow> 'c result) \<Rightarrow> gitaly_Server \<Rightarrow> nat \<Rightarrow> 'c conn_cache \<Rightarrow> 'c result \<times> 'c conn_cache" where
  "getOrCreateConnection connect server g x =
     (let x = conn_lookup server g x in
      case connections x server of
        Some conn \<Rightarrow> (Inr conn, x)
      | None \<Rightarrow>
          let x = conn_create (connect server) server g x in
          (case conn_phase x g of Conn_done res \<Rightarrow> (res, x) | _ \<Rightarrow> (Inl EOF, x)))"

datatype 'c gitaly_client = SmartHTTPClient 'c | BlobClient 'c | RepositoryClient 'c | NamespaceClient 'c | DiffClient 'c

definition new_client :: "('c \<Rightarrow> 'c gitaly_client) \<Rightarrow> (gitaly_Server \<Rightarrow> 'c result) \<Rightarrow> gitaly_Server \<Rightarrow> nat \<Rightarrow> 'c conn_cache \<Rightarrow>
    'c gitaly_client result \<times> 'c conn_cache" where
  "new_client service connect server g x =
     (case getOrCreateConnection connect server g x of
        (Inl err, x) \<Rightarrow> (Inl err, x)
      | (Inr conn, x) \<Rightarrow> (Inr (service conn), x))"

definition NewSmartHTTPClient :: "(gitaly_Server \<Rightarrow> 'c result) \<Rightarrow> gitaly_Server \<Rightarrow> nat \<Rightarrow> 'c conn_cache \<Rightarrow> 'c gitaly_client result \<times> 'c conn_cache" where
  "NewSmartHTTPClient = new_client SmartHTTPClient"

definition NewBlobClient :: "(gitaly_Server \<Rightarrow> 'c result) \<Rightarrow> gitaly_Server \<Rightarrow> nat \<Rightarrow> 'c conn_cache \<Rightarrow> 'c gitaly_client result \<times> 'c conn_cache" where
  "NewBlobClient = new_client BlobClient"

definition NewRepositoryClient :: "(gitaly_Server \<Rightarrow> 'c result) \<Rightarrow> gitaly_Server \<Rightarrow> nat \<Rightarrow> 'c conn_cache \<Rightarrow> 'c gitaly_client result \<times> 'c conn_cache" where
  "NewRepositoryClient = new_client RepositoryClient"

definition NewNamespaceClient :: "(gitaly_Server \<Rightarrow> 'c result) \<Rightarrow> gitaly_Server \<Rightarrow> nat \<Rightarrow> 'c conn_cache \<Rightarrow> 'c gitaly_client result \<times> 'c conn_cache" where
  "NewNamespaceClient = new_client NamespaceClient"

definition NewDiffClient :: "(gitaly_Server \<Rightarrow> 'c result) \<Rightarrow> gitaly_Server \<Rightarrow> nat \<Rightarrow> 'c conn_cache \<Rightarrow> 'c gitaly_client result \<times> 'c conn_cache" where
  "NewDiffClient = new_client DiffClient"

section \<open>Streams of messages\<close>

text \<open>\<open>WriteTo\<close> of \<open>streamio.Reader\<close>, which \<open>io.Copy\<close> calls: a short write is not an error here.\<close>

fun WriteTo :: "'s writer \<Rightarrow> bytes list \<Rightarrow> gerror option \<Rightarrow> 's \<Rightarrow> 's \<times> gerror option" where
  "WriteTo w [] e s = (s, e)"
| "WriteTo w (c # cs) e s =
     (if c = [] then WriteTo w cs e s
      else case w_Write w c s of (s', n, we) \<Rightarrow> (case we of Some x \<Rightarrow> (s', Some x) | None \<Rightarrow> WriteTo w cs e s'))"

section \<open>Smart HTTP\<close>

record InfoRefsRequest =
  ir_Repository :: Repository
  ir_GitConfigOptions :: "string list"
  ir_GitProtocol :: string

definition InfoRefsResponseReader :: "(InfoRefsRequest \<Rightarrow> stream result) \<Rightarrow> (InfoRefsRequest \<Rightarrow> stream result) \<Rightarrow>
    Repository \<Rightarrow> string \<Rightarrow> string list \<Rightarrow> string \<Rightarrow> stream result" where
  "InfoRefsResponseReader infoRefsUploadPack infoRefsReceivePack repo rpc gitConfigOptions gitProtocol =
     (let rpcRequest = \<lparr>ir_Repository = repo, ir_GitConfigOptions = gitConfigOptions, ir_GitProtocol = gitProtocol\<rparr> in
      if rpc = ''git-upload-pack'' then infoRefsUploadPack rpcRequest
      else if rpc = ''git-receive-pack'' then infoRefsReceivePack rpcRequest
      else Inl (Errorf (''InfoRefsResponseWriterTo: Unsupported RPC: '' @ Quote rpc)))"

record PostUploadPackRequest =
  up_Repository :: Repository
  up_GitConfigOptions :: "string list"
  up_GitProtocol :: string

record PostReceivePackRequest =
  rp_Repository :: Repository
  rp_GlId :: string
  rp_GlUsername :: string
  rp_GlRepository :: string
  rp_GitConfigOptions :: "string list"
  rp_GitProtocol :: string

text \<open>The first error the two goroutines send, in the order in which they end.\<close>

fun first_error :: "gerror option list \<Rightarrow> gerror option" where
  "first_error [] = None"
| "first_error (Some err # errC) = Some err"
| "first_error (None # errC) = first_error errC"

text \<open>
  One call of \<open>PostUploadPack\<close>: the messages of the response, how copying the request to Gitaly ended and
  whether it ended first. If it ends first with an error, \<open>UploadPack\<close> returns while the response is still
  being copied; \<open>ur_before\<close> messages have been by then.
\<close>

record upload_rpc =
  ur_open :: "gerror option"
  ur_initial :: "gerror option"
  ur_response :: stream
  ur_send :: "gerror option"
  ur_send_first :: bool
  ur_before :: nat

definition smarthttp_UploadPack :: "(PostUploadPackRequest \<Rightarrow> bytes \<Rightarrow> upload_rpc) \<Rightarrow> 's writer \<Rightarrow> Repository \<Rightarrow> bytes \<Rightarrow>
    string list \<Rightarrow> string \<Rightarrow> 's \<Rightarrow> gerror option \<times> 's" where
  "smarthttp_UploadPack postUploadPack w repo clientRequest gitConfigOptions gitProtocol s =
     (let stream = postUploadPack \<lparr>up_Repository = repo, up_GitConfigOptions = gitConfigOptions, up_GitProtocol = gitProtocol\<rparr> clientRequest in
      case ur_open stream of Some err \<Rightarrow> (Some err, s) | None \<Rightarrow>
      case ur_initial stream of Some err \<Rightarrow> (Some (wrap_err ''initial request: '' err), s) | None \<Rightarrow>
      if ur_send_first stream \<and> ur_send stream \<noteq> None
      then (ur_send stream, fst (WriteTo w (take (ur_before stream) (fst (ur_response stream))) None s))
      else let (s, err) = WriteTo w (fst (ur_response stream)) (snd (ur_response stream)) s
           in (first_error (if ur_send_first stream then [ur_send stream, err] else [err, ur_send stream]), s))"

text \<open>
  One call of \<open>PostReceivePack\<close>: here the request is read while the response is written, so what the two
  goroutines do is given in the order it happens: \<open>None\<close> is a \<open>Read\<close> of the request, \<open>Some d\<close> a \<open>Write\<close> of
  a message of the response.
\<close>

record receive_rpc =
  rr_open :: "gerror option"
  rr_initial :: "gerror option"
  rr_calls :: "bytes option list"
  rr_errors :: "gerror option list"

primrec stream_call :: "bytes option \<Rightarrow> coupled_call" where
  "stream_call None = Couple_Read"
| "stream_call (Some d) = Couple_Write d"

definition smarthttp_ReceivePack :: "(PostReceivePackRequest \<Rightarrow> stream \<Rightarrow> receive_rpc) \<Rightarrow> tempfiles \<Rightarrow> 's writer \<Rightarrow> Repository \<Rightarrow>
    string \<Rightarrow> string \<Rightarrow> string \<Rightarrow> string list \<Rightarrow> string \<Rightarrow> 's coupledWriter \<Rightarrow> gerror option \<times> 's coupledWriter" where
  "smarthttp_ReceivePack postReceivePack tf w repo glId glUsername glRepository gitConfigOptions gitProtocol c =
     (let stream = postReceivePack \<lparr>rp_Repository = repo, rp_GlId = glId, rp_GlUsername = glUsername, rp_GlRepository = glRepository,
            rp_GitConfigOptions = gitConfigOptions, rp_GitProtocol = gitProtocol\<rparr> (br_Reader (cw_busyReader c)) in
      case rr_open stream of Some err \<Rightarrow> (Some err, c) | None \<Rightarrow>
      case rr_initial stream of Some err \<Rightarrow> (Some (wrap_err ''initial request: '' err), c) | None \<Rightarrow>
      (first_error (rr_errors stream), coupled_calls tf w (map stream_call (rr_calls stream)) c))"

section \<open>Blobs, diffs, archives and snapshots\<close>

record GetBlobRequest =
  gb_Repository :: "Repository option"
  gb_Oid :: string
  gb_Limit :: int

text \<open>Each message carries the size of the blob, which the first one is asked for, and data.\<close>

definition SendBlob :: "(GetBlobRequest \<Rightarrow> ((int \<times> bytes) list \<times> gerror option) result) \<Rightarrow> 's writer \<Rightarrow> GetBlobRequest \<Rightarrow> 's \<Rightarrow>
    gerror option \<times> 's" where
  "SendBlob getBlob w request s =
     (case getBlob request of
        Inl err \<Rightarrow> (Some (wrap_err ''rpc failed: '' err), s)
      | Inr (messages, end) \<Rightarrow>
          let s = (case messages of [] \<Rightarrow> s | (sz, _) # _ \<Rightarrow> w_Set w ''Content-Length'' (FormatInt sz) s);
              (s, err) = WriteTo w (map snd messages) end s
          in (map_option (wrap_err ''copy rpc data: '') err, s))"

text \<open>\<open>SendRawDiff\<close> and \<open>SendRawPatch\<close> differ in the call they make.\<close>

definition send_raw :: "('q \<Rightarrow> stream result) \<Rightarrow> 's writer \<Rightarrow> 'q \<Rightarrow> 's \<Rightarrow> gerror option \<times> 's" where
  "send_raw call w request s =
     (case call request of
        Inl err \<Rightarrow> (Some (wrap_err ''rpc failed: '' err), s)
      | Inr (messages, end) \<Rightarrow>
          let s = w_Del w ''Content-Length'' s;
              (s, err) = WriteTo w messages end s
          in (map_option (wrap_err ''copy rpc data: '') err, s))"

datatype archive_format = ZIP | TAR | TAR_GZ | TAR_BZ2

record GetArchiveRequest =
  ga_Repository :: Repository
  ga_CommitId :: string
  ga_Prefix :: string
  ga_Format :: archive_format

definition ArchiveReader :: "(GetArchiveRequest \<Rightarrow> stream result) \<Rightarrow> GetArchiveRequest \<Rightarrow> stream result" where
  "ArchiveReader getArchive request =
     (case getArchive request of Inl err \<Rightarrow> Inl (wrap_err ''RepositoryService::GetArchive: '' err) | Inr r \<Rightarrow> Inr r)"

definition SnapshotReader :: "('q \<Rightarrow> stream result) \<Rightarrow> 'q \<Rightarrow> stream result" where
  "SnapshotReader getSnapshot request =
     (case getSnapshot request of Inl err \<Rightarrow> Inl (wrap_err ''RepositoryService::GetSnapshot: '' err) | Inr r \<Rightarrow> Inr r)"

section \<open>A stream of messages reaches the client\<close>

context reliable_writer
begin

lemma WriteTo_all:
  "ok s \<Longrightarrow> \<exists>s'. WriteTo w cs e s = (s', e) \<and> ok s' \<and> o_body (out s') = o_body (out s) @ concat cs \<and>
     (o_status (out s) \<noteq> 0 \<longrightarrow> out s' = (out s)\<lparr>o_body := o_body (out s')\<rparr>) \<and>
     (o_status (out s) = 0 \<and> concat cs \<noteq> [] \<longrightarrow> o_status (out s') = 200 \<and> o_header (out s') = w_Header w s) \<and>
     (concat cs = [] \<longrightarrow> s' = s)"
proof (induction cs arbitrary: s)
  case (Cons c cs)
  show ?case
  proof (cases "c = []")
    case False
    from Write_result [OF Cons.prems, of c] obtain s1 where w: "w_Write w c s = (s1, length c, None)"
      by (cases "w_Write w c s") simp
    have s1: "ok s1" "out s1 = (if o_status (out s) = 0 then \<lparr>o_status = 200, o_header = w_Header w s, o_body = c\<rparr>
        else (out s)\<lparr>o_body := o_body (out s) @ c\<rparr>)"
      using ok_Write [OF Cons.prems, of c] Write_all [OF Cons.prems, of c] by (simp_all add: w)
    then have started: "o_status (out s1) \<noteq> 0" by simp
    from Cons.IH [OF s1(1)] started obtain s' where "WriteTo w cs e s1 = (s', e)" "ok s'"
      "o_body (out s') = o_body (out s1) @ concat cs" "out s' = (out s1)\<lparr>o_body := o_body (out s')\<rparr>"
      by blast
    then show ?thesis using False s1 Cons.prems
      by (intro exI [of _ s']) (auto simp: w fresh_body dest: arg_cong [where f = o_status] arg_cong [where f = o_header])
  qed (use Cons in simp)
qed simp

end

section \<open>One connection per server\<close>

inductive_cases conn_stepE: "conn_step srv x y"

text \<open>What is cached was dialled, once for each server, and whoever has a connection has the cached one.\<close>

definition conn_inv :: "(nat \<Rightarrow> gitaly_Server) \<Rightarrow> 'c conn_cache \<Rightarrow> bool" where
  "conn_inv srv x \<longleftrightarrow> distinct (map fst (conn_dialed x)) \<and> connections x = map_of (conn_dialed x) \<and>
     (\<forall>g conn. conn_phase x g = Conn_done (Inr conn) \<longrightarrow> connections x (srv g) = Some conn)"

lemma conn_inv_start: "conn_inv srv no_connections"
  by (auto simp: conn_inv_def no_connections_def)

lemma conn_inv_step:
  assumes "conn_step srv x y" "conn_inv srv x"
  shows "conn_inv srv y"
  using assms(1)
proof cases
  case (step_lookup g)
  with assms(2) show ?thesis by (auto simp: conn_inv_def conn_lookup_def split: option.splits)
next
  case (step_create g newConnection)
  show ?thesis
  proof (cases "connections x (srv g)")
    case None
    with assms(2) have "srv g \<notin> fst ` set (conn_dialed x)" by (simp add: conn_inv_def map_of_eq_None_iff)
    moreover from None assms(2) have "\<And>h conn. srv h = srv g \<Longrightarrow> conn_phase x h \<noteq> Conn_done (Inr conn)"
      by (fastforce simp: conn_inv_def)
    ultimately show ?thesis using None assms(2) step_create
      by (auto simp: conn_inv_def conn_create_def split: sum.splits)
  qed (use assms(2) step_create in \<open>auto simp: conn_inv_def conn_create_def\<close>)
next
  case step_close
  with assms(2) show ?thesis by (auto simp: conn_inv_def CloseConnections_def)
qed

text \<open>However the goroutines interleave, a server is dialled successfully at most once, and everyone who obtains a
  connection to it obtains the same one.\<close>

lemma one_connection:
  assumes "(conn_step srv)\<^sup>*\<^sup>* no_connections x"
  shows "distinct (map fst (conn_dialed x))"
    and "conn_phase x g = Conn_done (Inr conn) \<Longrightarrow> conn_phase x h = Conn_done (Inr conn') \<Longrightarrow> srv g = srv h \<Longrightarrow> conn = conn'"
proof -
  from assms have "conn_inv srv x"
    by (induction rule: rtranclp_induct) (auto intro: conn_inv_start conn_inv_step)
  then show "distinct (map fst (conn_dialed x))" by (simp add: conn_inv_def)
  from \<open>conn_inv srv x\<close> have cached: "\<And>g conn. conn_phase x g = Conn_done (Inr conn) \<Longrightarrow> connections x (srv g) = Some conn"
    unfolding conn_inv_def by blast
  show "conn_phase x g = Conn_done (Inr conn) \<Longrightarrow> conn_phase x h = Conn_done (Inr conn') \<Longrightarrow> srv g = srv h \<Longrightarrow> conn = conn'"
    using cached [of g conn] cached [of h conn'] by simp
qed

text \<open>
  Every connection in the cache was made for the server it is cached under. So a client, of whatever service, speaks to the
  address of its server with the token of that server, and the cache stays that way.
\<close>

definition conn_authentic :: "(gitaly_Server \<Rightarrow> 'c result) \<Rightarrow> 'c conn_cache \<Rightarrow> bool" where
  "conn_authentic connect x \<longleftrightarrow> (\<forall>server conn. connections x server = Some conn \<longrightarrow> connect server = Inr conn)"

lemma getOrCreateConnection_authentic:
  assumes "conn_authentic connect x"
  shows "fst (getOrCreateConnection connect server g x) = connect server"
    and "conn_authentic connect (snd (getOrCreateConnection connect server g x))"
  using assms
  by (auto simp: conn_authentic_def getOrCreateConnection_def conn_lookup_def conn_create_def Let_def split: option.splits sum.splits)

theorem client_speaks_to_server:
  assumes "conn_authentic (newConnection dial opts) x"
  shows "\<forall>service \<in> {SmartHTTPClient, BlobClient, RepositoryClient, NamespaceClient, DiffClient}.
    conn_authentic (newConnection dial opts) (snd (new_client service (newConnection dial opts) server g x)) \<and>
    (\<forall>c. fst (new_client service (newConnection dial opts) server g x) = Inr c \<longrightarrow>
       (\<exists>conn. c = service conn \<and> dial (gs_Address server) (map Default_option opts @
          [PerRPCCredentials (gs_Token server), StreamInterceptor ''grpc_prometheus'', UnaryInterceptor ''grpc_prometheus'']) = Inr conn))"
proof -
  note auth = getOrCreateConnection_authentic [OF assms, of server g]
  obtain res x' where r: "getOrCreateConnection (newConnection dial opts) server g x = (res, x')" by fastforce
  with auth have "res = newConnection dial opts server" "conn_authentic (newConnection dial opts) x'" by simp_all
  then show ?thesis using r by (auto simp: new_client_def newConnection_def Let_def split: sum.splits)
qed

theorem client_speaks_to_server_witness:
  "fst (NewBlobClient (newConnection (\<lambda>a opts. Inr (a, length opts)) [()]) \<lparr>gs_Address = ''unix:/s'', gs_Token = ''t''\<rparr> 0 no_connections) =
     Inr (BlobClient (''unix:/s'', 4))"
proof -
  let ?connect = "newConnection (\<lambda>a opts. Inr (a, length opts)) [()]" and ?s = "\<lparr>gs_Address = ''unix:/s'', gs_Token = ''t''\<rparr>"
  have a: "conn_authentic ?connect no_connections" by (simp add: conn_authentic_def no_connections_def)
  have "fst (new_client BlobClient ?connect ?s 0 no_connections) = Inr (BlobClient (''unix:/s'', 4))"
    using client_speaks_to_server [OF a, of ?s 0] getOrCreateConnection_authentic [OF a, of ?s 0]
    by (auto simp: new_client_def newConnection_def Let_def split: prod.splits sum.splits)
  then show ?thesis by (simp add: NewBlobClient_def)
qed

end
