(* ===== verification/Git_Http.thy ===== *)
theory Git_Http
  imports Gitaly Paths Codec
begin

text \<open>
  Git over HTTP, \<open>internal/git\<close>: the handlers of \<open>info/refs\<close>, \<open>git-upload-pack\<close> and \<open>git-receive-pack\<close>
  (\<open>git-http.go\<close>, \<open>info-refs.go\<close>, \<open>upload-pack.go\<close>, \<open>receive-pack.go\<close>), the response writer that counts
  for the metrics (\<open>responsewriter.go\<close>) and the environment of Git processes (\<open>command.go\<close>). Gitaly, the
  operating system's processes and its temporary files are parameters.
\<close>

section \<open>Query parameters and credentials\<close>

fun QueryUnescape :: "string \<Rightarrow> string option" where
  "QueryUnescape [] = Some []"
| "QueryUnescape (c # s) =
     (if c = CHR ''+'' then map_option ((#) (CHR '' '')) (QueryUnescape s)
      else if c = CHR ''%'' then
        (case s of
           a # b # t \<Rightarrow>
             (case (hex_value a, hex_value b) of
                (Some x, Some y) \<Rightarrow> map_option ((#) (char_of (16 * x + y))) (QueryUnescape (drop 2 s))
              | _ \<Rightarrow> None)
         | _ \<Rightarrow> None)
      else map_option ((#) c) (QueryUnescape s))"

text \<open>\<open>URL.Query()\<close>, as Go 1.8 to 1.16 have it: pairs end at \<open>&\<close> or \<open>;\<close>, and malformed ones are dropped.\<close>

definition query_pair :: "string \<Rightarrow> (string \<times> string) list" where
  "query_pair p =
     (if p = [] then [] else
      let (k, v) = (case SplitN2 p (CHR ''='') of [k, v] \<Rightarrow> (k, v) | _ \<Rightarrow> (p, [])) in
      case (QueryUnescape k, QueryUnescape v) of (Some k, Some v) \<Rightarrow> [(k, v)] | _ \<Rightarrow> [])"

definition Query :: "string \<Rightarrow> (string \<times> string) list" where
  "Query q = concat (map query_pair (Split (CHR ''&'') (map (\<lambda>c. if c = CHR '';'' then CHR ''&'' else c) q)))"

definition Query_Get :: "string \<Rightarrow> string \<Rightarrow> string" where
  "Query_Get q k = (case map_of (Query q) k of None \<Rightarrow> [] | Some v \<Rightarrow> v)"

text \<open>\<open>Request.BasicAuth\<close>: the user name, if there are credentials.\<close>

definition BasicAuth :: "request \<Rightarrow> string option" where
  "BasicAuth r =
     (let auth = Header_Get (req_Header r) ''Authorization'' in
      if \<not> HasPrefix auth ''Basic '' then None else
      case b64_decode False (drop 6 auth) of
        None \<Rightarrow> None
      | Some c \<Rightarrow> (case SplitN2 c (CHR '':'') of [user, password] \<Rightarrow> Some user | _ \<Rightarrow> None))"

section \<open>Git processes\<close>

record command =
  cmd_Name :: string
  cmd_Args :: "string list"
  cmd_Env :: "string list"
  cmd_Setpgid :: bool

definition gitCommandApi :: "(string \<Rightarrow> string) \<Rightarrow> Response option \<Rightarrow> string \<Rightarrow> string list \<Rightarrow> command" where
  "gitCommandApi getenv a name args =
     \<lparr>cmd_Name = name, cmd_Args = args,
      cmd_Env = [''HOME='' @ getenv ''HOME'', ''PATH='' @ getenv ''PATH'',
          ''LD_LIBRARY_PATH='' @ getenv ''LD_LIBRARY_PATH'', ''GL_PROTOCOL=http''] @
        (case a of
           None \<Rightarrow> []
         | Some a \<Rightarrow> [''GL_ID='' @ a_GL_ID a, ''GL_USERNAME='' @ a_GL_USERNAME a] @
             (if a_GL_REPOSITORY a \<noteq> [] then [''GL_REPOSITORY='' @ a_GL_REPOSITORY a] else [])),
      cmd_Setpgid = True\<rparr>"

definition gitCommand :: "(string \<Rightarrow> string) \<Rightarrow> string \<Rightarrow> string list \<Rightarrow> command" where
  "gitCommand getenv name args = gitCommandApi getenv None name args"

definition subCommand :: "string \<Rightarrow> string" where
  "subCommand rpc = TrimPrefix rpc ''git-''"

text \<open>
  A process started with a reader as its standard input and a writer as its standard output: whether it
  starts, how it reads and writes, and the error \<open>Wait\<close> reports.
\<close>

record process =
  ps_start :: "gerror option"
  ps_calls :: "bytes option list"
  ps_wait :: "gerror option"

definition startGitCommand :: "(string \<Rightarrow> string) \<Rightarrow> (command \<Rightarrow> process) \<Rightarrow> Response \<Rightarrow> string \<Rightarrow> string list \<Rightarrow> process result" where
  "startGitCommand getenv exec a action options =
     (let cmd = gitCommandApi getenv (Some a) ''git'' ([subCommand action, ''--stateless-rpc''] @ options @ [a_RepoPath a]);
          p = exec cmd
      in case ps_start p of Some err \<Rightarrow> Inl (wrap_err (''start ['' @ Join (cmd_Name cmd # cmd_Args cmd) '' '' @ '']: '') err) | None \<Rightarrow> Inr p)"

section \<open>The response writer and its metrics\<close>

record git_metrics =
  gitHTTPSessionsActive :: int
  gitHTTPRequests :: "string \<times> string \<times> string \<times> string \<Rightarrow> nat"
  gitHTTPBytes :: "string \<times> string \<times> string \<times> string \<times> string \<Rightarrow> int"

definition getService :: "request \<Rightarrow> string" where
  "getService r =
     (if req_Method r = ''GET'' then Query_Get (url_RawQuery (req_URL r)) ''service'' else path_Base (url_Path (req_URL r)))"

definition getRequestAgent :: "request \<Rightarrow> string" where
  "getRequestAgent r =
     (case BasicAuth r of
        None \<Rightarrow> ''anonymous''
      | Some u \<Rightarrow> if u = ''gitlab-ci-token'' then ''gitlab-ci'' else ''logged'')"

definition NewHttpResponseWriter :: "'s \<Rightarrow> git_metrics \<Rightarrow> 's counting \<times> git_metrics" where
  "NewHttpResponseWriter rw m =
     (NewCountingResponseWriter rw, m\<lparr>gitHTTPSessionsActive := gitHTTPSessionsActive m + 1\<rparr>)"

definition HttpResponseWriter_Log :: "request \<Rightarrow> int \<Rightarrow> 's counting \<Rightarrow> git_metrics \<Rightarrow> git_metrics" where
  "HttpResponseWriter_Log r writtenIn c m =
     (let service = getService r; agent = getRequestAgent r; code = FormatInt (c_status c);
          rq = (req_Method r, code, service, agent);
          inn = (req_Method r, code, service, agent, ''in''); out = (req_Method r, code, service, agent, ''out'');
          m = m\<lparr>gitHTTPSessionsActive := gitHTTPSessionsActive m - 1\<rparr>;
          m = m\<lparr>gitHTTPRequests := (gitHTTPRequests m)(rq := Suc (gitHTTPRequests m rq))\<rparr>;
          m = m\<lparr>gitHTTPBytes := (gitHTTPBytes m)(inn := gitHTTPBytes m inn + writtenIn)\<rparr>
      in m\<lparr>gitHTTPBytes := (gitHTTPBytes m)(out := gitHTTPBytes m out + c_count c)\<rparr>)"

section \<open>The environment and the handlers\<close>

record git_env =
  g_getenv :: "string \<Rightarrow> string"
  g_tempfiles :: tempfiles
  g_connect :: "gitaly_Server \<Rightarrow> gerror option"
  g_infoRefsUploadPack :: "InfoRefsRequest \<Rightarrow> stream result"
  g_infoRefsReceivePack :: "InfoRefsRequest \<Rightarrow> stream result"
  g_postUploadPack :: "PostUploadPackRequest \<Rightarrow> bytes \<Rightarrow> upload_rpc"
  g_postReceivePack :: "PostReceivePackRequest \<Rightarrow> stream \<Rightarrow> receive_rpc"
  g_receivePackProcess :: "stream \<Rightarrow> command \<Rightarrow> process"

definition GitConfigShowAllRefs :: string where
  "GitConfigShowAllRefs = ''transfer.hideRefs=!refs''"

definition gitConfigOptions :: "Response \<Rightarrow> string list" where
  "gitConfigOptions a = (if a_ShowAllRefs a then [GitConfigShowAllRefs] else [])"

definition writePostRPCHeader :: "'s writer \<Rightarrow> string \<Rightarrow> 's \<Rightarrow> 's" where
  "writePostRPCHeader w action s =
     w_Set w ''Cache-Control'' ''no-cache'' (w_Set w ''Content-Type'' (''application/x-'' @ action @ ''-result'') s)"

definition handleUploadPackWithGitaly :: "git_env \<Rightarrow> 's writer \<Rightarrow> Response \<Rightarrow> bytes \<Rightarrow> string \<Rightarrow> 's \<Rightarrow> gerror option \<times> 's" where
  "handleUploadPackWithGitaly env w a clientRequest gitProtocol s =
     (case g_connect env (a_GitalyServer a) of
        Some err \<Rightarrow> (Some (wrap_err ''smarthttp.UploadPack: '' err), s)
      | None \<Rightarrow>
          let (err, s) = smarthttp_UploadPack (g_postUploadPack env) w (a_Repository a) clientRequest (gitConfigOptions a) gitProtocol s
          in (map_option (wrap_err ''smarthttp.UploadPack: '') err, s))"

text \<open>A handler returns its error and the number of bytes it has read from the request body.\<close>

definition handleUploadPack :: "git_env \<Rightarrow> 's writer \<Rightarrow> request \<Rightarrow> Response \<Rightarrow> 's \<Rightarrow> (gerror option \<times> nat) \<times> 's" where
  "handleUploadPack env w r a s =
     (case ReadAllTempfile (g_tempfiles env) (LimitReader (req_Body r) (10 * 1024 * 1024)) of
        (n, Inl err) \<Rightarrow> ((Some (wrap_err ''ReadAllTempfile: '' err), n), s)
      | (n, Inr buffer) \<Rightarrow>
          let s = writePostRPCHeader w (getService r) s;
              (err, s) = handleUploadPackWithGitaly env w a buffer (Header_Get (req_Header r) ''Git-Protocol'') s
          in ((err, n), s))"

definition handleReceivePackLocally :: "git_env \<Rightarrow> 's writer \<Rightarrow> Response \<Rightarrow> string \<Rightarrow> 's coupledWriter \<Rightarrow> gerror option \<times> 's coupledWriter" where
  "handleReceivePackLocally env w a action c =
     (case startGitCommand (g_getenv env) (g_receivePackProcess env (br_Reader (cw_busyReader c))) a action [] of
        Inl err \<Rightarrow> (Some (wrap_err ''startGitCommand: '' err), c)
      | Inr p \<Rightarrow> (None, coupled_calls (g_tempfiles env) w (map stream_call (ps_calls p)) c))"

definition handleReceivePackWithGitaly :: "git_env \<Rightarrow> 's writer \<Rightarrow> Response \<Rightarrow> string \<Rightarrow> 's coupledWriter \<Rightarrow> gerror option \<times> 's coupledWriter" where
  "handleReceivePackWithGitaly env w a gitProtocol c =
     (case g_connect env (a_GitalyServer a) of
        Some err \<Rightarrow> (Some (wrap_err ''smarthttp.ReceivePack: '' err), c)
      | None \<Rightarrow>
          let (err, c) = smarthttp_ReceivePack (g_postReceivePack env) (g_tempfiles env) w (a_Repository a) (a_GL_ID a) (a_GL_USERNAME a)
                (a_GL_REPOSITORY a) (a_GitConfigOptions a) gitProtocol c
          in (map_option (wrap_err ''smarthttp.ReceivePack: '') err, c))"

definition handleReceivePack :: "git_env \<Rightarrow> 's writer \<Rightarrow> request \<Rightarrow> Response \<Rightarrow> 's \<Rightarrow> (gerror option \<times> nat) \<times> 's" where
  "handleReceivePack env w r a s =
     (let action = getService r;
          c = NewWriteAfterReader (req_Body r) (writePostRPCHeader w action s);
          (err, c) =
            (if gs_Address (a_GitalyServer a) = [] then handleReceivePackLocally env w a action c
             else handleReceivePackWithGitaly env w a (Header_Get (req_Header r) ''Git-Protocol'') c);
          n = length (stream_bytes (req_Body r)) - length (stream_bytes (br_Reader (cw_busyReader c)))
      in ((err, n), cw_Writer (snd (coupled_Flush (g_tempfiles env) w c))))"

text \<open>The metrics are carried along with the state of the writer, which works on the first component.\<close>

definition metered :: "'s writer \<Rightarrow> ('s \<times> git_metrics) writer" where
  "metered w = \<lparr>w_Header = (\<lambda>x. w_Header w (fst x)), w_putHeader = (\<lambda>h x. (w_putHeader w h (fst x), snd x)),
     w_WriteHeader = (\<lambda>st x. (w_WriteHeader w st (fst x), snd x)),
     w_Write = (\<lambda>d x. (case w_Write w d (fst x) of (s, n, e) \<Rightarrow> ((s, snd x), n, e)))\<rparr>"

text \<open>The function \<open>postRPCHandler\<close> passes to the pre-authorizer, and the handlers themselves.\<close>

definition post_rpc :: "'s writer \<Rightarrow> (request \<Rightarrow> Response \<Rightarrow> 's counting \<Rightarrow> (gerror option \<times> nat) \<times> 's counting) \<Rightarrow>
    request \<Rightarrow> Response \<Rightarrow> 's \<times> git_metrics \<Rightarrow> 's \<times> git_metrics" where
  "post_rpc w handler r ar sm =
     (let (c, m) = NewHttpResponseWriter (fst sm) (snd sm);
          ((err, n), c) = handler r ar c;
          c = (case err of Some _ \<Rightarrow> counting_WriteHeader w 500 c | None \<Rightarrow> c)
      in (c_rw c, HttpResponseWriter_Log r (int n) c m))"

definition repoPreAuthorizeHandler :: "((request \<Rightarrow> Response \<Rightarrow> 's \<Rightarrow> 's) \<Rightarrow> string \<Rightarrow> 'x) \<Rightarrow> (request \<Rightarrow> Response \<Rightarrow> 's \<Rightarrow> 's) \<Rightarrow> 'x" where
  "repoPreAuthorizeHandler preAuthorizeHandler handleFunc = preAuthorizeHandler handleFunc ''''"

definition UploadPack :: "((request \<Rightarrow> Response \<Rightarrow> 's \<times> git_metrics \<Rightarrow> 's \<times> git_metrics) \<Rightarrow> string \<Rightarrow> 'x) \<Rightarrow> git_env \<Rightarrow> 's writer \<Rightarrow> 'x" where
  "UploadPack preAuthorizeHandler env w =
     repoPreAuthorizeHandler preAuthorizeHandler (post_rpc w (handleUploadPack env (counting_writer w)))"

definition ReceivePack :: "((request \<Rightarrow> Response \<Rightarrow> 's \<times> git_metrics \<Rightarrow> 's \<times> git_metrics) \<Rightarrow> string \<Rightarrow> 'x) \<Rightarrow> git_env \<Rightarrow> 's writer \<Rightarrow> 'x" where
  "ReceivePack preAuthorizeHandler env w =
     repoPreAuthorizeHandler preAuthorizeHandler (post_rpc w (handleReceivePack env (counting_writer w)))"

definition handleGetInfoRefsWithGitaly :: "git_env \<Rightarrow> 's writer \<Rightarrow> Response \<Rightarrow> string \<Rightarrow> string \<Rightarrow> 's \<Rightarrow> gerror option \<times> 's" where
  "handleGetInfoRefsWithGitaly env w a rpc gitProtocol s =
     (case g_connect env (a_GitalyServer a) of
        Some err \<Rightarrow> (Some (wrap_err ''GetInfoRefsHandler: '' err), s)
      | None \<Rightarrow>
          (case InfoRefsResponseReader (g_infoRefsUploadPack env) (g_infoRefsReceivePack env) (a_Repository a) rpc
              (gitConfigOptions a) gitProtocol of
             Inl err \<Rightarrow> (Some (wrap_err ''GetInfoRefsHandler: '' err), s)
           | Inr infoRefsResponseReader \<Rightarrow>
               let (s, err) = WriteTo w (fst infoRefsResponseReader) (snd infoRefsResponseReader) s
               in (map_option (wrap_err ''GetInfoRefsHandler: copy Gitaly response: '') err, s)))"

definition handleGetInfoRefs :: "git_env \<Rightarrow> 's writer \<Rightarrow> request \<Rightarrow> Response \<Rightarrow> 's \<times> git_metrics \<Rightarrow> 's \<times> git_metrics" where
  "handleGetInfoRefs env rw r a sm =
     (let (c, m) = NewHttpResponseWriter (fst sm) (snd sm); w = counting_writer rw; rpc = getService r;
          c = (if \<not> (rpc = ''git-upload-pack'' \<or> rpc = ''git-receive-pack'') then http_Error w ''Not Found'' 404 c
            else
              let c = w_Set w ''Content-Type'' (''application/x-'' @ rpc @ ''-advertisement'') c;
                  c = w_Set w ''Cache-Control'' ''no-cache'' c;
                  (err, c) = handleGetInfoRefsWithGitaly env w a rpc (Header_Get (req_Header r) ''Git-Protocol'') c
              in (case err of Some _ \<Rightarrow> Fail500 w c | None \<Rightarrow> c))
      in (c_rw c, HttpResponseWriter_Log r 0 c m))"

definition GetInfoRefsHandler :: "((request \<Rightarrow> Response \<Rightarrow> 's \<times> git_metrics \<Rightarrow> 's \<times> git_metrics) \<Rightarrow> string \<Rightarrow> 'x) \<Rightarrow> git_env \<Rightarrow> 's writer \<Rightarrow> 'x" where
  "GetInfoRefsHandler preAuthorizeHandler env w = repoPreAuthorizeHandler preAuthorizeHandler (handleGetInfoRefs env w)"

section \<open>Every handler only calls the writer's operations\<close>

lemma uses_one: "uses w s (fst (w_Write w d s))"
  by (rule uses_Write [OF uses_refl])

lemma uses_WriteTo: "uses w s (fst (WriteTo w cs e s))"
proof (induction w cs e s rule: WriteTo.induct)
  case (1 w e s)
  then show ?case by (simp add: uses_refl)
next
  case (2 w c cs e s)
  show ?case
  proof (cases "c = []")
    case False
    obtain s' n we where w: "w_Write w c s = (s', n, we)" by (cases "w_Write w c s")
    have one: "uses w s s'" using uses_one [of w s c] by (simp add: w)
    from False 2(2) [OF False w [symmetric] refl] one show ?thesis by (auto simp: w split: option.split intro: uses_trans)
  qed (use 2(1) in simp)
qed

lemma uses_Flush: "uses w (cw_Writer c) (cw_Writer (snd (coupled_Flush tf w c)))"
  using uses_io_Copy [of w "cw_Writer c"]
  by (auto simp: coupled_Flush_def Let_def split_beta uses_refl split: option.split)

lemma uses_coupled_Write: "uses w (cw_Writer c) (cw_Writer (snd (coupled_Write tf w d c)))"
proof (cases "IsBusy (cw_busyReader c)")
  case True
  then show ?thesis by (simp add: Write_busy uses_refl)
next
  case False
  with uses_Flush [of w c tf] show ?thesis
    by (auto simp: coupled_Write_def Let_def split_beta intro: uses.intros split: option.split)
qed

lemma uses_calls: "uses w (cw_Writer c) (cw_Writer (coupled_calls tf w ops c))"
proof (induction ops rule: rev_induct)
  case (snoc x ops)
  have "uses w (cw_Writer c') (cw_Writer (run_call tf w x c'))" for c'
    by (cases x) (simp_all add: uses_refl uses_coupled_Write uses_Flush)
  from uses_trans [OF snoc.IH this] show ?case by simp
qed (simp add: uses_refl)

lemma uses_writePostRPCHeader: "uses w s (writePostRPCHeader w action s)"
  unfolding writePostRPCHeader_def by (intro uses.intros)

lemma uses_UploadPack: "uses w s (snd (smarthttp_UploadPack rpc w repo data opts proto s))"
  by (auto simp: smarthttp_UploadPack_def Let_def split_beta uses_WriteTo uses_refl split: option.split)

lemma uses_handleUploadPack: "uses w s (snd (handleUploadPack env w r a s))"
proof -
  have "uses w t (snd (handleUploadPackWithGitaly env w a buffer proto t))" for buffer proto t
    by (auto simp: handleUploadPackWithGitaly_def Let_def split_beta uses_UploadPack uses_refl split: option.split)
  from uses_trans [OF uses_writePostRPCHeader this] show ?thesis
    by (auto simp: handleUploadPack_def Let_def split_beta uses_refl split: sum.split prod.split)
qed

text \<open>Receiving a pack: what the peer does, a Git process or Gitaly, if it gets to run.\<close>

definition receive_peer :: "git_env \<Rightarrow> request \<Rightarrow> Response \<Rightarrow> bytes option list option" where
  "receive_peer env r a =
     (if gs_Address (a_GitalyServer a) = [] then
        (case startGitCommand (g_getenv env) (g_receivePackProcess env (req_Body r)) a (getService r) [] of
           Inl _ \<Rightarrow> None | Inr p \<Rightarrow> Some (ps_calls p))
      else if g_connect env (a_GitalyServer a) \<noteq> None then None
      else
        let stream = g_postReceivePack env \<lparr>rp_Repository = a_Repository a, rp_GlId = a_GL_ID a, rp_GlUsername = a_GL_USERNAME a,
              rp_GlRepository = a_GL_REPOSITORY a, rp_GitConfigOptions = a_GitConfigOptions a,
              rp_GitProtocol = Header_Get (req_Header r) ''Git-Protocol''\<rparr> (req_Body r)
        in if rr_open stream \<noteq> None \<or> rr_initial stream \<noteq> None then None else Some (rr_calls stream))"

lemma handleReceivePack_calls:
  "snd (handleReceivePack env w r a s) =
     cw_Writer (coupled_calls (g_tempfiles env) w
       (map stream_call (case receive_peer env r a of None \<Rightarrow> [] | Some calls \<Rightarrow> calls) @ [Couple_Flush])
       (NewWriteAfterReader (req_Body r) (writePostRPCHeader w (getService r) s)))"
proof -
  have reader: "br_Reader (cw_busyReader (NewWriteAfterReader b t)) = b" for b and t :: 's
    by (simp add: NewWriteAfterReader_def)
  show ?thesis
    by (auto simp: handleReceivePack_def handleReceivePackLocally_def handleReceivePackWithGitaly_def smarthttp_ReceivePack_def
      receive_peer_def Let_def split_beta reader split: option.split sum.split)
qed

lemma NewWriteAfterReader_Writer [simp]: "cw_Writer (NewWriteAfterReader b s) = s"
  by (simp add: NewWriteAfterReader_def)

lemma uses_handleReceivePack: "uses w s (snd (handleReceivePack env w r a s))"
  unfolding handleReceivePack_calls
  by (rule uses_trans [OF uses_writePostRPCHeader [of w s "getService r"]])
    (rule uses_calls [of w "NewWriteAfterReader (req_Body r) (writePostRPCHeader w (getService r) s)", simplified])

section \<open>The metrics tell what was sent\<close>

interpretation counting_net: counting_over net_writer n_out "\<lambda>s. wire_ok (n_out s)"
  by unfold_locales

lemma NewCounting_ok: "wire_ok (n_out s) \<Longrightarrow> o_status (n_out s) = 0 \<Longrightarrow> counting_net.counting_ok (NewCountingResponseWriter s)"
  unfolding counting_net.counting_ok_def NewCountingResponseWriter_def by (simp add: net.fresh_body)

text \<open>One more request and its bytes, under the labels of the response.\<close>

definition accounted :: "request \<Rightarrow> wire \<Rightarrow> nat \<Rightarrow> git_metrics \<Rightarrow> git_metrics \<Rightarrow> bool" where
  "accounted r x n m m' \<longleftrightarrow>
     (let rq = (req_Method r, FormatInt (o_status x), getService r, getRequestAgent r);
          l = (\<lambda>d. (req_Method r, FormatInt (o_status x), getService r, getRequestAgent r, d)) in
      gitHTTPSessionsActive m' = gitHTTPSessionsActive m \<and>
      gitHTTPRequests m' = (gitHTTPRequests m)(rq := Suc (gitHTTPRequests m rq)) \<and>
      gitHTTPBytes m' = (gitHTTPBytes m)(l ''in'' := gitHTTPBytes m (l ''in'') + int n,
        l ''out'' := gitHTTPBytes m (l ''out'') + int (length (o_body x))))"

lemma Log_accounted:
  assumes "counting_net.counting_ok c"
  shows "accounted r (n_out (c_rw c)) n m
     (HttpResponseWriter_Log r (int n) c (m\<lparr>gitHTTPSessionsActive := gitHTTPSessionsActive m + 1\<rparr>))"
  using assms by (simp add: accounted_def HttpResponseWriter_Log_def counting_net.counting_ok_def Let_def)

lemma post_rpc_accounted:
  assumes "\<And>c. uses (counting_writer net_writer) c (snd (handler r a c))"
    "wire_ok (n_out s)" "o_status (n_out s) = 0" "post_rpc net_writer handler r a (s, m) = (s', m')"
  shows "accounted r (n_out s') (snd (fst (handler r a (NewCountingResponseWriter s)))) m m'"
    and "fst (fst (handler r a (NewCountingResponseWriter s))) \<noteq> None \<Longrightarrow> o_status (n_out s') \<noteq> 0"
proof -
  let ?c0 = "NewCountingResponseWriter s" and ?w = "counting_writer net_writer"
  obtain err n c where h: "handler r a ?c0 = ((err, n), c)" by (metis prod.exhaust)
  have ok: "counting_net.counting_ok c"
    using counting_net.counting.uses_ok [OF assms(1) NewCounting_ok [OF assms(2,3)]] by (simp add: h)
  define c' where "c' = (case err of Some _ \<Rightarrow> counting_WriteHeader net_writer 500 c | None \<Rightarrow> c)"
  have ok': "counting_net.counting_ok c'"
    using ok counting_net.counting_WriteHeader_ok [OF ok, of 500] by (simp add: c'_def split: option.split)
  have res: "s' = c_rw c'" "m' = HttpResponseWriter_Log r (int n) c' (m\<lparr>gitHTTPSessionsActive := gitHTTPSessionsActive m + 1\<rparr>)"
    using assms(4) by (simp_all add: post_rpc_def NewHttpResponseWriter_def h c'_def Let_def)
  show "accounted r (n_out s') (snd (fst (handler r a ?c0))) m m'"
    using Log_accounted [OF ok'] by (simp add: res h)
  show "o_status (n_out s') \<noteq> 0" if "fst (fst (handler r a ?c0)) \<noteq> None"
  proof -
    from that h have "c_status c' \<noteq> 0" by (auto simp: c'_def counting_WriteHeader_def split: if_splits)
    with ok' show ?thesis by (simp add: res counting_net.counting_ok_def)
  qed
qed


definition sample_git :: git_env where
  "sample_git = \<lparr>g_getenv = (\<lambda>_. []),
     g_tempfiles = \<lparr>tf_create = None, tf_remove = None, tf_seek = None, tf_write = (\<lambda>_ d. (length d, None))\<rparr>,
     g_connect = (\<lambda>_. None), g_infoRefsUploadPack = (\<lambda>_. Inr ([''refs''], None)),
     g_infoRefsReceivePack = (\<lambda>_. Inl DeadlineExceeded),
     g_postUploadPack = (\<lambda>_ d. \<lparr>ur_open = None, ur_initial = None, ur_response = ([''pack:'', d], None), ur_send = None,
       ur_send_first = True, ur_before = 0\<rparr>),
     g_postReceivePack = (\<lambda>_ _. \<lparr>rr_open = None, rr_initial = None, rr_calls = [], rr_errors = []\<rparr>),
     g_receivePackProcess = (\<lambda>_ _. \<lparr>ps_start = None, ps_calls = [Some ''un'', None, Some ''pack'', None, None, Some '' ok''], ps_wait = None\<rparr>)\<rparr>"

definition push_request :: request where
  "push_request = sample_request\<lparr>req_Method := ''POST'', req_URL := (req_URL sample_request)\<lparr>url_Path := ''/group/project.git/git-receive-pack''\<rparr>,
     req_Body := ([''0000'', ''PACK''], None)\<rparr>"

definition no_git_metrics :: git_metrics where
  "no_git_metrics = \<lparr>gitHTTPSessionsActive = 3, gitHTTPRequests = (\<lambda>_. 0), gitHTTPBytes = (\<lambda>_. 0)\<rparr>"


section \<open>A push is answered after it has been read\<close>

lemma call_data_stream: "concat (map call_data (map stream_call calls)) = concat (map (\<lambda>x. case x of None \<Rightarrow> [] | Some d \<Rightarrow> d) calls)"
  by (rule arg_cong [where f = concat]) (auto split: option.split)

lemma no_flush_calls: "Couple_Flush \<notin> set (map stream_call calls)"
proof -
  have "Couple_Flush \<noteq> stream_call x" for x by (cases x) simp_all
  then show ?thesis by auto
qed

lemma reads_stream: "length (filter ((=) Couple_Read) (map stream_call calls)) = length (filter ((=) None) calls)"
proof -
  have "(Couple_Read = stream_call x) \<longleftrightarrow> None = x" for x by (cases x) simp_all
  then show ?thesis by (simp add: filter_map o_def)
qed

lemma counted_writePostRPCHeader:
  assumes "counted_net.counting_ok c"
  shows "counted_net.counting_ok (writePostRPCHeader (counting_writer net_writer) action c)"
    and "n_out (c_rw (writePostRPCHeader (counting_writer net_writer) action c)) = n_out (c_rw c)"
  using assms by (simp_all add: writePostRPCHeader_def counted_net.counting.ok_putHeader counted_net.counting.out_putHeader)



section \<open>Advertising references\<close>

lemma http_Error_status:
  "wire_ok (n_out s) \<Longrightarrow> o_status (n_out s) = 0 \<Longrightarrow>
   o_status (n_out (c_rw (http_Error (counting_writer net_writer) msg 404 (NewCountingResponseWriter s)))) = 404"
  using counting_net.counting.http_Error_fresh(1) [OF NewCounting_ok, of s 404 msg] by (simp add: NewCountingResponseWriter_def)

text \<open>What \<open>info/refs\<close> answers, on a connection that works. Without a service of the smart protocol it is 404, and
  Gitaly is not asked. Otherwise, if Gitaly can be reached and delivers, the client is sent its messages, with status 200 and
  the media type of the service.\<close>

theorem info_refs_answer:
  assumes s: "wire_ok (n_out s)" "o_status (n_out s) = 0" "n_room s = None"
    and res: "handleGetInfoRefs env net_writer r a (s, m) = (s', m')"
  shows "(getService r \<notin> {''git-upload-pack'', ''git-receive-pack''} \<longrightarrow>
      o_status (n_out s') = 404 \<and> handleGetInfoRefs env' net_writer r a' (s, m) = (s', m')) \<and>
    (getService r \<in> {''git-upload-pack'', ''git-receive-pack''} \<and> g_connect env (a_GitalyServer a) = None \<and>
      InfoRefsResponseReader (g_infoRefsUploadPack env) (g_infoRefsReceivePack env) (a_Repository a) (getService r)
        (gitConfigOptions a) (Header_Get (req_Header r) ''Git-Protocol'') = Inr (msgs, None) \<and> concat msgs \<noteq> [] \<longrightarrow>
      n_out s' = \<lparr>o_status = 200, o_header = Header_Set (Header_Set (n_header s) ''Content-Type''
        (''application/x-'' @ getService r @ ''-advertisement'')) ''Cache-Control'' ''no-cache'', o_body = concat msgs\<rparr>)"
proof (intro conjI impI)
  assume dumb: "getService r \<notin> {''git-upload-pack'', ''git-receive-pack''}"
  then have "s' = c_rw (http_Error (counting_writer net_writer) ''Not Found'' 404 (NewCountingResponseWriter s))"
    using res by (simp add: handleGetInfoRefs_def NewHttpResponseWriter_def Let_def)
  then show "o_status (n_out s') = 404" using http_Error_status [OF s(1,2)] by simp
  show "handleGetInfoRefs env' net_writer r a' (s, m) = (s', m')"
    using dumb res by (simp add: handleGetInfoRefs_def NewHttpResponseWriter_def Let_def)
next
  let ?w = "counting_writer net_writer"
  assume smart: "getService r \<in> {''git-upload-pack'', ''git-receive-pack''} \<and> g_connect env (a_GitalyServer a) = None \<and>
      InfoRefsResponseReader (g_infoRefsUploadPack env) (g_infoRefsReceivePack env) (a_Repository a) (getService r)
        (gitConfigOptions a) (Header_Get (req_Header r) ''Git-Protocol'') = Inr (msgs, None) \<and> concat msgs \<noteq> []"
  define h where "h = Header_Set (Header_Set (n_header s) ''Content-Type''
        (''application/x-'' @ getService r @ ''-advertisement'')) ''Cache-Control'' ''no-cache''"
  define c where "c = NewCountingResponseWriter (s\<lparr>n_header := h\<rparr>)"
  have c: "counted_net.counting_ok c" "n_out (c_rw c) = n_out s" "w_Header ?w c = h"
    using s unfolding counted_net.counting_ok_def c_def NewCountingResponseWriter_def
    by (simp_all add: net.fresh_body counting_writer_def)
  obtain c' where copy: "WriteTo ?w msgs None c = (c', None)" "o_body (n_out (c_rw c')) = o_body (n_out (c_rw c)) @ concat msgs"
    "o_status (n_out (c_rw c')) = 200" "o_header (n_out (c_rw c')) = w_Header ?w c"
    using counted_net.counted.WriteTo_all [OF c(1), of msgs None] smart s c(2) by (auto simp del: concat_eq_Nil_conv)
  have "s' = c_rw c'"
    using res smart copy(1)
    by (auto simp: handleGetInfoRefs_def handleGetInfoRefsWithGitaly_def NewHttpResponseWriter_def Let_def c_def h_def
      counting_writer_def NewCountingResponseWriter_def)
  then show "n_out s' = \<lparr>o_status = 200, o_header = Header_Set (Header_Set (n_header s) ''Content-Type''
        (''application/x-'' @ getService r @ ''-advertisement'')) ''Cache-Control'' ''no-cache'', o_body = concat msgs\<rparr>"
    using copy(2-4) c(2,3) s net.fresh_body [of s] by (simp add: h_def)
qed

definition fetch_request :: request where
  "fetch_request = sample_request\<lparr>req_Method := ''GET'', req_URL := (req_URL sample_request)\<lparr>url_Path := ''/group/project.git/info/refs'',
     url_RawQuery := ''a=%zz&service=git-upload%2Dpack''\<rparr>\<rparr>"

theorem info_refs_answer_witness:
  "o_body (n_out (fst (handleGetInfoRefs sample_git net_writer fetch_request zero_Response (new_response, no_git_metrics)))) = ''refs''"
proof -
  have service: "getService fetch_request = ''git-upload-pack''" by code_simp
  obtain s' m' where res: "handleGetInfoRefs sample_git net_writer fetch_request zero_Response (new_response, no_git_metrics) = (s', m')"
    by (metis prod.exhaust)
  have "InfoRefsResponseReader (g_infoRefsUploadPack sample_git) (g_infoRefsReceivePack sample_git) (a_Repository zero_Response)
      (getService fetch_request) (gitConfigOptions zero_Response) (Header_Get (req_Header fetch_request) ''Git-Protocol'') = Inr ([''refs''], None)"
    unfolding service by (simp add: InfoRefsResponseReader_def sample_git_def)
  moreover have "wire_ok (n_out new_response)" "o_status (n_out new_response) = 0" "n_room new_response = None"
    "g_connect sample_git (a_GitalyServer zero_Response) = None"
    by (simp_all add: new_response_def no_response_def wire_ok_def sample_git_def)
  ultimately show ?thesis
    using info_refs_answer [OF _ _ _ res, of sample_git zero_Response "[''refs'']"] service by (simp add: res)
qed

section \<open>Fetching\<close>

text \<open>What a fetch asks of Gitaly: the first ten megabytes of the request body, and no more is read; a body that breaks off
  before is an error, and then Gitaly is not asked and nothing is written.\<close>

theorem upload_pack_limit:
  assumes "disk_ok (g_tempfiles env)"
  shows "handleUploadPack env w r a s =
     (let body = take 10485760 (stream_bytes (req_Body r)) in
      if length (stream_bytes (req_Body r)) < 10485760 \<and> snd (req_Body r) \<noteq> None
      then ((Some (wrap_err ''ReadAllTempfile: '' (the (snd (req_Body r)))), length body), s)
      else (case handleUploadPackWithGitaly env w a body (Header_Get (req_Header r) ''Git-Protocol'')
              (writePostRPCHeader w (getService r) s) of (err, s') \<Rightarrow> ((err, length body), s')))"
proof -
  let ?r = "LimitReader (req_Body r) (10 * 1024 * 1024)"
  define body where "body = take 10485760 (stream_bytes (req_Body r))"
  have bytes: "stream_bytes ?r = body" unfolding stream_bytes_LimitReader body_def by simp
  have "snd ?r = (if length (stream_bytes (req_Body r)) < 10485760 then snd (req_Body r) else None)"
    by (simp add: LimitReader_def stream_bytes_def)
  moreover have "ReadAll ?r = (case snd ?r of None \<Rightarrow> Inr body | Some e \<Rightarrow> Inl e)"
    unfolding ReadAll_def stream_bytes_def [symmetric] bytes ..
  ultimately show ?thesis
    unfolding handleUploadPack_def ReadAllTempfile_works [OF assms(1)] bytes body_def [symmetric]
    by (auto simp: Let_def split: option.split prod.split)
qed

theorem upload_pack_limit_witness:
  "n_out (c_rw (snd (handleUploadPack sample_git (counting_writer net_writer) push_request zero_Response
     (NewCountingResponseWriter new_response)))) =
   n_out (c_rw (snd (handleUploadPackWithGitaly sample_git (counting_writer net_writer) zero_Response ''0000PACK''
     (Header_Get (req_Header push_request) ''Git-Protocol'') (writePostRPCHeader (counting_writer net_writer) (getService push_request)
       (NewCountingResponseWriter new_response)))))"
proof -
  have "disk_ok (g_tempfiles sample_git)" by (simp add: disk_ok_def sample_git_def)
  from upload_pack_limit [OF this, of "counting_writer net_writer" push_request] show ?thesis
    by (simp add: push_request_def stream_bytes_def split_beta Let_def)
qed

text \<open>The comment above \<open>handleUploadPack\<close> says that it does not return an error once the response body has been written to. It does.\<close>

lemma upload_error_after_body:
  "\<exists>env err n c. handleUploadPack env (counting_writer net_writer) push_request zero_Response (NewCountingResponseWriter new_response) =
     ((Some err, n), c) \<and> o_body (n_out (c_rw c)) = ''pack''"
proof -
  define env where "env = sample_git\<lparr>g_postUploadPack := (\<lambda>_ _. \<lparr>ur_open = None, ur_initial = None,
     ur_response = ([''pack''], Some DeadlineExceeded), ur_send = None, ur_send_first = True, ur_before = 0\<rparr>)\<rparr>"
  have "disk_ok (g_tempfiles env)" by (simp add: env_def disk_ok_def sample_git_def)
  note limit = upload_pack_limit [OF this, of "counting_writer net_writer" push_request zero_Response "NewCountingResponseWriter new_response"]
  have ok: "counted_net.counting_ok (NewCountingResponseWriter new_response)"
    unfolding counted_net.counting_ok_def NewCountingResponseWriter_def
    by (simp add: new_response_def no_response_def wire_ok_def)
  let ?c = "writePostRPCHeader (counting_writer net_writer) (getService push_request) (NewCountingResponseWriter new_response)"
  obtain c where "WriteTo (counting_writer net_writer) [''pack''] (Some DeadlineExceeded) ?c = (c, Some DeadlineExceeded)"
    "o_body (n_out (c_rw c)) = ''pack''"
    using counted_net.counted.WriteTo_all [OF counted_writePostRPCHeader(1) [OF ok, of "getService push_request"], of "[''pack'']" "Some DeadlineExceeded"]
      counted_writePostRPCHeader(2) [OF ok, of "getService push_request"]
    by (auto simp: new_response_def no_response_def NewCountingResponseWriter_def)
  then show ?thesis
    by (intro exI [of _ env]) (simp add: limit, simp add: Let_def push_request_def stream_bytes_def handleUploadPackWithGitaly_def
      smarthttp_UploadPack_def env_def sample_git_def)
qed

end
