(* ===== verification/Git_Send.thy ===== *)
theory Git_Send
  imports Git_Http Send_Data
begin

text \<open>
  Objects of a repository sent to the client on behalf of the backend, \<open>internal/git\<close>: a blob (\<open>blob.go\<close>),
  a diff (\<open>diff.go\<close>), patches (\<open>format-patch.go\<close>) and a snapshot (\<open>snapshot.go\<close>), each from Gitaly or
  from a Git process. Processes, Gitaly and the JSON decoders are parameters.
\<close>

section \<open>The environment\<close>

text \<open>A process whose standard output is read through a pipe.\<close>

record piped =
  pp_pipe :: "gerror option"
  pp_start :: "gerror option"
  pp_stdout :: stream
  pp_wait :: "gerror option"

record blobParams =
  bp_RepoPath :: string
  bp_BlobId :: string
  bp_GitalyServer :: gitaly_Server
  bp_GetBlobRequest :: GetBlobRequest

text \<open>\<open>diffParams\<close> and \<open>patchParams\<close>; the last field is the JSON of the request to Gitaly.\<close>

record diffParams =
  dp_RepoPath :: string
  dp_ShaFrom :: string
  dp_ShaTo :: string
  dp_GitalyServer :: gitaly_Server
  dp_RawRequest :: string

record snapshotParams =
  sp_GitalyServer :: gitaly_Server
  sp_GetSnapshotRequest :: string

text \<open>\<open>RawDiffRequest\<close> and \<open>RawPatchRequest\<close>.\<close>

record RawDiffRequest =
  rd_Repository :: "Repository option"
  rd_LeftCommitId :: string
  rd_RightCommitId :: string

text \<open>A JSON decoder fills its target in: it leaves a request behind whether it reports an error or not.\<close>

record send_env =
  se_blobParams :: "bytes \<Rightarrow> blobParams result"
  se_diffParams :: "bytes \<Rightarrow> diffParams result"
  se_snapshotParams :: "bytes \<Rightarrow> snapshotParams result"
  se_diffRequest :: "string \<Rightarrow> gerror option \<times> RawDiffRequest"
  se_snapshotRequest :: "string \<Rightarrow> gerror option \<times> Repository option"
  se_getenv :: "string \<Rightarrow> string"
  se_output :: "command \<Rightarrow> bytes result"
  se_start :: "command \<Rightarrow> piped"
  se_connect :: "gitaly_Server \<Rightarrow> gerror option"
  se_getBlob :: "GetBlobRequest \<Rightarrow> ((int \<times> bytes) list \<times> gerror option) result"
  se_rawDiff :: "RawDiffRequest \<Rightarrow> stream result"
  se_rawPatch :: "RawDiffRequest \<Rightarrow> stream result"
  se_getSnapshot :: "Repository option \<Rightarrow> stream result"

definition nil_client :: string where
  "nil_client = ''invalid memory address or nil pointer dereference''"

section \<open>Blobs\<close>

text \<open>When there is no connection the code reports the error and goes on with a client that is \<open>nil\<close>.\<close>

definition handleSendBlobWithGitaly :: "send_env \<Rightarrow> 's writer \<Rightarrow> blobParams \<Rightarrow> 's \<Rightarrow> 's go" where
  "handleSendBlobWithGitaly env w params s =
     (case se_connect env (bp_GitalyServer params) of
        Some err \<Rightarrow> let s = Fail500 w s in Panic nil_client
      | None \<Rightarrow>
          (case SendBlob (se_getBlob env) w (bp_GetBlobRequest params) s of
             (Some err, s) \<Rightarrow> Return (Fail500 w s)
           | (None, s) \<Rightarrow> Return s))"

definition handleSendBlobLocally :: "send_env \<Rightarrow> 's writer \<Rightarrow> blobParams \<Rightarrow> 's \<Rightarrow> 's" where
  "handleSendBlobLocally env w params s =
     (case se_output env (gitCommand (se_getenv env) ''git'' [''--git-dir='' @ bp_RepoPath params, ''cat-file'', ''-s'', bp_BlobId params]) of
        Inl err \<Rightarrow> Fail500 w s
      | Inr sizeOutput \<Rightarrow>
          let p = se_start env (gitCommand (se_getenv env) ''git'' [''--git-dir='' @ bp_RepoPath params, ''cat-file'', ''blob'', bp_BlobId params]) in
          if pp_pipe p \<noteq> None then Fail500 w s
          else if pp_start p \<noteq> None then Fail500 w s
          else
            let s = w_Set w ''Content-Length'' (TrimSpace sizeOutput) s
            in fst (io_Copy w (fst (pp_stdout p)) (snd (pp_stdout p)) s))"

definition blob_Inject :: "send_env \<Rightarrow> 's writer \<Rightarrow> request \<Rightarrow> string \<Rightarrow> 's \<Rightarrow> 's go" where
  "blob_Inject env w r sendData s =
     (case Unpack (se_blobParams env) ''git-blob:'' sendData of
        Inl err \<Rightarrow> Return (Fail500 w s)
      | Inr params \<Rightarrow>
          if gs_Address (bp_GitalyServer params) \<noteq> [] then handleSendBlobWithGitaly env w params s
          else Return (handleSendBlobLocally env w params s))"

section \<open>Diffs and patches\<close>

text \<open>What \<open>handleSendDiffWithGitaly\<close> and \<open>handleSendPatchWithGitaly\<close> share; here too a failure is reported and the code goes on.\<close>

definition send_raw_with_gitaly :: "send_env \<Rightarrow> (RawDiffRequest \<Rightarrow> stream result) \<Rightarrow> 's writer \<Rightarrow> diffParams \<Rightarrow> 's \<Rightarrow> 's go" where
  "send_raw_with_gitaly env call w params s =
     (let (err, request) = se_diffRequest env (dp_RawRequest params);
          s = (case err of Some _ \<Rightarrow> Fail500 w s | None \<Rightarrow> s)
      in case se_connect env (dp_GitalyServer params) of
        Some err \<Rightarrow> let s = Fail500 w s in Panic nil_client
      | None \<Rightarrow> Return (snd (send_raw call w request s)))"

definition handleSendDiffWithGitaly :: "send_env \<Rightarrow> 's writer \<Rightarrow> diffParams \<Rightarrow> 's \<Rightarrow> 's go" where
  "handleSendDiffWithGitaly env w params s = send_raw_with_gitaly env (se_rawDiff env) w params s"

definition handleSendPatchWithGitaly :: "send_env \<Rightarrow> 's writer \<Rightarrow> diffParams \<Rightarrow> 's \<Rightarrow> 's go" where
  "handleSendPatchWithGitaly env w params s = send_raw_with_gitaly env (se_rawPatch env) w params s"

text \<open>Running a Git command and copying its output to the client; errors after the start are only logged.\<close>

definition send_git_output :: "send_env \<Rightarrow> 's writer \<Rightarrow> command \<Rightarrow> 's \<Rightarrow> 's" where
  "send_git_output env w cmd s =
     (let p = se_start env cmd in
      if pp_pipe p \<noteq> None then Fail500 w s
      else if pp_start p \<noteq> None then Fail500 w s
      else let s = w_Del w ''Content-Length'' s in fst (io_Copy w (fst (pp_stdout p)) (snd (pp_stdout p)) s))"

definition handleSendDiffLocally :: "send_env \<Rightarrow> 's writer \<Rightarrow> diffParams \<Rightarrow> 's \<Rightarrow> 's" where
  "handleSendDiffLocally env w params s =
     send_git_output env w (gitCommand (se_getenv env) ''git'' [''--git-dir='' @ dp_RepoPath params, ''diff'', dp_ShaFrom params, dp_ShaTo params]) s"

definition handleSendPatchLocally :: "send_env \<Rightarrow> 's writer \<Rightarrow> diffParams \<Rightarrow> 's \<Rightarrow> 's" where
  "handleSendPatchLocally env w params s =
     (let gitRange = dp_ShaFrom params @ ''..'' @ dp_ShaTo params
      in send_git_output env w (gitCommand (se_getenv env) ''git'' [''--git-dir='' @ dp_RepoPath params, ''format-patch'', gitRange, ''--stdout'']) s)"

definition diff_Inject :: "send_env \<Rightarrow> 's writer \<Rightarrow> request \<Rightarrow> string \<Rightarrow> 's \<Rightarrow> 's go" where
  "diff_Inject env w r sendData s =
     (case Unpack (se_diffParams env) ''git-diff:'' sendData of
        Inl err \<Rightarrow> Return (Fail500 w s)
      | Inr params \<Rightarrow>
          if gs_Address (dp_GitalyServer params) \<noteq> [] then handleSendDiffWithGitaly env w params s
          else Return (handleSendDiffLocally env w params s))"

definition patch_Inject :: "send_env \<Rightarrow> 's writer \<Rightarrow> request \<Rightarrow> string \<Rightarrow> 's \<Rightarrow> 's go" where
  "patch_Inject env w r sendData s =
     (case Unpack (se_diffParams env) ''git-format-patch:'' sendData of
        Inl err \<Rightarrow> Return (Fail500 w s)
      | Inr params \<Rightarrow>
          if gs_Address (dp_GitalyServer params) \<noteq> [] then handleSendPatchWithGitaly env w params s
          else Return (handleSendPatchLocally env w params s))"

section \<open>Snapshots\<close>

definition snapshot_Inject :: "send_env \<Rightarrow> 's writer \<Rightarrow> request \<Rightarrow> string \<Rightarrow> 's \<Rightarrow> 's" where
  "snapshot_Inject env w r sendData s =
     (case Unpack (se_snapshotParams env) ''git-snapshot:'' sendData of
        Inl err \<Rightarrow> Fail500 w s
      | Inr params \<Rightarrow>
          (case se_snapshotRequest env (sp_GetSnapshotRequest params) of
             (Some err, _) \<Rightarrow> Fail500 w s
           | (None, request) \<Rightarrow>
               (case se_connect env (sp_GitalyServer params) of
                  Some err \<Rightarrow> Fail500 w s
                | None \<Rightarrow>
                    (case SnapshotReader (se_getSnapshot env) request of
                       Inl err \<Rightarrow> Fail500 w s
                     | Inr reader \<Rightarrow>
                         let s = w_Del w ''Content-Length'' s;
                             s = w_Set w ''Content-Disposition'' (''attachment; filename='' @ [CHR 0x22] @ ''snapshot.tar'' @ [CHR 0x22]) s;
                             s = w_Set w ''Content-Type'' ''application/x-tar'' s;
                             s = w_Set w ''Content-Transfer-Encoding'' ''binary'' s;
                             s = w_Set w ''Cache-Control'' ''private'' s;
                             s = w_WriteHeader w 200 s
                         in fst (WriteTo w (fst reader) (snd reader) s)))))"

section \<open>What the client is sent\<close>

text \<open>A blob or a diff that a Git process writes to its output is what the client is sent, on a connection that works: a blob with
  the size Git reported, a diff without a length.\<close>

lemma local_objects_exact:
  assumes s: "wire_ok (n_out s)" "o_status (n_out s) = 0" "n_room s = None"
  shows "Unpack (se_blobParams env) ''git-blob:'' d = Inr params \<and> gs_Address (bp_GitalyServer params) = [] \<and>
      se_output env (gitCommand (se_getenv env) ''git'' [''--git-dir='' @ bp_RepoPath params, ''cat-file'', ''-s'', bp_BlobId params]) = Inr sz \<and>
      se_start env (gitCommand (se_getenv env) ''git'' [''--git-dir='' @ bp_RepoPath params, ''cat-file'', ''blob'', bp_BlobId params]) =
        \<lparr>pp_pipe = None, pp_start = None, pp_stdout = (cs, e), pp_wait = x\<rparr> \<and> cs \<noteq> [] \<longrightarrow>
      (\<exists>s'. blob_Inject env net_writer r d s = Return s' \<and> n_out s' =
        \<lparr>o_status = 200, o_header = Header_Set (n_header s) ''Content-Length'' (TrimSpace sz), o_body = concat cs\<rparr>)"
    and "Unpack (se_diffParams env) ''git-diff:'' d = Inr dparams \<and> gs_Address (dp_GitalyServer dparams) = [] \<and>
      se_start env (gitCommand (se_getenv env) ''git'' [''--git-dir='' @ dp_RepoPath dparams, ''diff'', dp_ShaFrom dparams, dp_ShaTo dparams]) =
        \<lparr>pp_pipe = None, pp_start = None, pp_stdout = (cs, e), pp_wait = x\<rparr> \<and> cs \<noteq> [] \<longrightarrow>
      (\<exists>s'. diff_Inject env net_writer r d s = Return s' \<and> n_out s' =
        \<lparr>o_status = 200, o_header = Header_Del (n_header s) ''Content-Length'', o_body = concat cs\<rparr>)"
proof -
  have copy: "n_out (fst (io_Copy net_writer cs e (s\<lparr>n_header := h\<rparr>))) = \<lparr>o_status = 200, o_header = h, o_body = concat cs\<rparr>"
    if "cs \<noteq> []" for h
    using net_up.io_Copy_all [of "s\<lparr>n_header := h\<rparr>" cs e] s that by auto
  then show "Unpack (se_blobParams env) ''git-blob:'' d = Inr params \<and> gs_Address (bp_GitalyServer params) = [] \<and>
      se_output env (gitCommand (se_getenv env) ''git'' [''--git-dir='' @ bp_RepoPath params, ''cat-file'', ''-s'', bp_BlobId params]) = Inr sz \<and>
      se_start env (gitCommand (se_getenv env) ''git'' [''--git-dir='' @ bp_RepoPath params, ''cat-file'', ''blob'', bp_BlobId params]) =
        \<lparr>pp_pipe = None, pp_start = None, pp_stdout = (cs, e), pp_wait = x\<rparr> \<and> cs \<noteq> [] \<longrightarrow>
      (\<exists>s'. blob_Inject env net_writer r d s = Return s' \<and> n_out s' =
        \<lparr>o_status = 200, o_header = Header_Set (n_header s) ''Content-Length'' (TrimSpace sz), o_body = concat cs\<rparr>)"
    by (auto simp: blob_Inject_def handleSendBlobLocally_def Let_def)
  from copy show "Unpack (se_diffParams env) ''git-diff:'' d = Inr dparams \<and> gs_Address (dp_GitalyServer dparams) = [] \<and>
      se_start env (gitCommand (se_getenv env) ''git'' [''--git-dir='' @ dp_RepoPath dparams, ''diff'', dp_ShaFrom dparams, dp_ShaTo dparams]) =
        \<lparr>pp_pipe = None, pp_start = None, pp_stdout = (cs, e), pp_wait = x\<rparr> \<and> cs \<noteq> [] \<longrightarrow>
      (\<exists>s'. diff_Inject env net_writer r d s = Return s' \<and> n_out s' =
        \<lparr>o_status = 200, o_header = Header_Del (n_header s) ''Content-Length'', o_body = concat cs\<rparr>)"
    by (auto simp: diff_Inject_def handleSendDiffLocally_def send_git_output_def Let_def)
qed

text \<open>Without a connection to Gitaly, sending a blob, a diff or patches panics: the code does not return after it has reported the error.\<close>

lemma no_connection_panics:
  "se_connect env (bp_GitalyServer params) = Some err \<Longrightarrow> handleSendBlobWithGitaly env w params s = Panic nil_client"
  "se_connect env (dp_GitalyServer dparams) = Some err \<Longrightarrow> handleSendDiffWithGitaly env w dparams s = Panic nil_client"
  "se_connect env (dp_GitalyServer dparams) = Some err \<Longrightarrow> handleSendPatchWithGitaly env w dparams s = Panic nil_client"
  by (simp_all add: handleSendBlobWithGitaly_def handleSendDiffWithGitaly_def handleSendPatchWithGitaly_def send_raw_with_gitaly_def split_beta)

definition bad_json_env :: send_env where
  "bad_json_env = \<lparr>se_blobParams = (\<lambda>_. Inl EOF), se_diffParams = (\<lambda>_. Inl EOF), se_snapshotParams = (\<lambda>_. Inl EOF),
     se_diffRequest = (\<lambda>_. (Some (Errorf ''invalid character''), \<lparr>rd_Repository = None, rd_LeftCommitId = [], rd_RightCommitId = []\<rparr>)),
     se_snapshotRequest = (\<lambda>_. (Some EOF, None)), se_getenv = (\<lambda>_. []), se_output = (\<lambda>_. Inl EOF),
     se_start = (\<lambda>_. \<lparr>pp_pipe = None, pp_start = None, pp_stdout = ([], None), pp_wait = None\<rparr>), se_connect = (\<lambda>_. None),
     se_getBlob = (\<lambda>_. Inl EOF), se_rawDiff = (\<lambda>_. Inr ([''diff --git''], None)), se_rawPatch = (\<lambda>_. Inl EOF), se_getSnapshot = (\<lambda>_. Inl EOF)\<rparr>"

text \<open>After a request that cannot be decoded, the error page is followed by a diff.\<close>

lemma undecodable_diff_goes_on:
  "(case handleSendDiffWithGitaly bad_json_env net_writer \<lparr>dp_RepoPath = [], dp_ShaFrom = [], dp_ShaTo = [],
      dp_GitalyServer = \<lparr>gs_Address = ''unix:/gitaly'', gs_Token = []\<rparr>, dp_RawRequest = ''{''\<rparr> new_response of
    Return s \<Rightarrow> o_status (n_out s) = 500 \<and> o_body (n_out s) = ''Internal server error'' @ [CHR 0x0A] @ ''diff --git''
  | Panic _ \<Rightarrow> False)"
  by code_simp

end
