(* ===== verification/Git_Archive.thy ===== *)
theory Git_Archive
  imports Git_Http Send_Data
begin

text \<open>
  Archives of a repository, \<open>internal/git/archive.go\<close> and \<open>archivereader.go\<close>: the format asked for, the
  processes or the Gitaly call that produce the archive, the response, and the cache of archives on disk.
  The file system is a map from names to contents. Processes, Gitaly, temporary files and the JSON decoder
  are parameters.
\<close>

section \<open>Formats\<close>

definition patternZip :: "string \<Rightarrow> bool" where
  "patternZip s = HasSuffix s ''.zip''"

definition patternTar :: "string \<Rightarrow> bool" where
  "patternTar s = HasSuffix s ''.tar''"

definition patternTarGz :: "string \<Rightarrow> bool" where
  "patternTarGz s = list_ex (\<lambda>e. HasSuffix s (CHR ''.'' # e)) [''tar.gz'', ''tgz'', ''gz'']"

definition patternTarBz2 :: "string \<Rightarrow> bool" where
  "patternTarBz2 s = list_ex (\<lambda>e. HasSuffix s (CHR ''.'' # e)) [''tar.bz2'', ''tbz'', ''tbz2'', ''tb2'', ''bz2'']"

definition parseBasename :: "string \<Rightarrow> archive_format option" where
  "parseBasename basename =
     (if basename = ''archive'' then Some TAR_GZ
      else if patternZip basename then Some ZIP
      else if patternTar basename then Some TAR
      else if patternTarGz basename then Some TAR_GZ
      else if patternTarBz2 basename then Some TAR_BZ2
      else None)"

text \<open>The compressing process, if there is one, and the format asked of Git.\<close>

definition parseArchiveFormat :: "archive_format \<Rightarrow> (string \<times> string list) option \<times> string" where
  "parseArchiveFormat format =
     (case format of
        TAR \<Rightarrow> (None, ''tar'')
      | TAR_GZ \<Rightarrow> (Some (''gzip'', [''-c'', ''-n'']), ''tar'')
      | TAR_BZ2 \<Rightarrow> (Some (''bzip2'', [''-c'']), ''tar'')
      | ZIP \<Rightarrow> (None, ''zip''))"

section \<open>Producing an archive\<close>

text \<open>The arguments of a command as \<open>%v\<close> prints them.\<close>

definition show_args :: "string list \<Rightarrow> string" where
  "show_args args = ''['' @ Join args '' '' @ '']: ''"

text \<open>
  What the operating system makes of a pipeline: the errors of its pipes and of starting its processes, the
  output of its last process, and what waiting for each process reports.
\<close>

record pipeline =
  pl_archive_pipe :: "gerror option"
  pl_compress_pipe :: "gerror option"
  pl_compress_start :: "gerror option"
  pl_archive_start :: "gerror option"
  pl_stdout :: stream
  pl_compress_wait :: "gerror option"
  pl_archive_wait :: "gerror option"

text \<open>\<open>wait\<close> waits for all commands and reports the first error.\<close>

definition archiveReader_wait :: "gerror option list \<Rightarrow> gerror option" where
  "archiveReader_wait waitErrors = first_error waitErrors"

text \<open>\<open>archiveReader.Read\<close> passes the output on; at its end it waits, and ends with the error of \<open>wait\<close>, if any.\<close>

definition archiveReader_stream :: "stream \<Rightarrow> gerror option list \<Rightarrow> stream" where
  "archiveReader_stream stdout waitErrors =
     (fst stdout, (case snd stdout of Some e \<Rightarrow> Some e | None \<Rightarrow> archiveReader_wait waitErrors))"

definition newArchiveReader :: "(string \<Rightarrow> string) \<Rightarrow> (command \<Rightarrow> (string \<times> string list) option \<Rightarrow> pipeline) \<Rightarrow> string \<Rightarrow>
    archive_format \<Rightarrow> string \<Rightarrow> string \<Rightarrow> stream result" where
  "newArchiveReader getenv run repoPath format archivePrefix commitId =
     (let (compressCmd, formatArg) = parseArchiveFormat format;
          archiveCmd = gitCommand getenv ''git'' [''--git-dir='' @ repoPath, ''archive'', ''--format='' @ formatArg,
            ''--prefix='' @ archivePrefix @ ''/'', commitId];
          p = run archiveCmd compressCmd
      in case pl_archive_pipe p of Some err \<Rightarrow> Inl (wrap_err ''SendArchive: archive stdout: '' err) | None \<Rightarrow>
         case (if compressCmd = None then None else pl_compress_pipe p) of
           Some err \<Rightarrow> Inl (wrap_err ''SendArchive: compress stdout: '' err) | None \<Rightarrow>
         case (if compressCmd = None then None else pl_compress_start p) of
           Some err \<Rightarrow> Inl (wrap_err (''SendArchive: start '' @ show_args (case compressCmd of None \<Rightarrow> [] | Some (n, args) \<Rightarrow> n # args)) err) | None \<Rightarrow>
         case pl_archive_start p of
           Some err \<Rightarrow> Inl (wrap_err (''SendArchive: start '' @ show_args (cmd_Name archiveCmd # cmd_Args archiveCmd)) err) | None \<Rightarrow>
         Inr (archiveReader_stream (pl_stdout p)
           ((if compressCmd = None then [] else [pl_compress_wait p]) @ [pl_archive_wait p])))"

record archiveParams =
  ap_RepoPath :: string
  ap_ArchivePath :: string
  ap_ArchivePrefix :: string
  ap_CommitId :: string
  ap_GitalyServer :: gitaly_Server
  ap_GitalyRepository :: Repository
  ap_DisableCache :: bool

record archive_env =
  av_unmarshal :: "bytes \<Rightarrow> archiveParams result"
  av_getenv :: "string \<Rightarrow> string"
  av_run :: "command \<Rightarrow> (string \<times> string list) option \<Rightarrow> pipeline"
  av_connect :: "gitaly_Server \<Rightarrow> gerror option"
  av_getArchive :: "GetArchiveRequest \<Rightarrow> stream result"
  av_mkdir :: "gerror option"
  av_tempfiles :: tempfiles
  av_close :: "gerror option"
  av_link :: "gerror option"
  av_serveContent :: serve_content

definition handleArchiveWithGitaly :: "archive_env \<Rightarrow> archiveParams \<Rightarrow> archive_format \<Rightarrow> stream result" where
  "handleArchiveWithGitaly env params format =
     (case av_connect env (ap_GitalyServer params) of
        Some err \<Rightarrow> Inl err
      | None \<Rightarrow> ArchiveReader (av_getArchive env)
          \<lparr>ga_Repository = ap_GitalyRepository params, ga_CommitId = ap_CommitId params, ga_Prefix = ap_ArchivePrefix params,
           ga_Format = format\<rparr>)"

definition archive_reader :: "archive_env \<Rightarrow> archiveParams \<Rightarrow> archive_format \<Rightarrow> stream result" where
  "archive_reader env params format =
     (if gs_Address (ap_GitalyServer params) \<noteq> [] then
        (case handleArchiveWithGitaly env params format of
           Inl err \<Rightarrow> Inl (wrap_err ''operations.GetArchive: '' err) | Inr r \<Rightarrow> Inr r)
      else newArchiveReader (av_getenv env) (av_run env) (ap_RepoPath params) format (ap_ArchivePrefix params) (ap_CommitId params))"

section \<open>The response and the cache\<close>

definition setArchiveHeaders :: "'s writer \<Rightarrow> archive_format \<Rightarrow> string \<Rightarrow> 's \<Rightarrow> 's" where
  "setArchiveHeaders w format archiveFilename s =
     (let s = w_Del w ''Content-Length'' s;
          s = w_Set w ''Content-Disposition'' (''attachment; filename='' @ [CHR 0x22] @ archiveFilename @ [CHR 0x22]) s;
          s = w_Set w ''Content-Type'' (if format = ZIP then ''application/zip'' else ''application/octet-stream'') s;
          s = w_Set w ''Content-Transfer-Encoding'' ''binary'' s
      in w_Set w ''Cache-Control'' ''private'' s)"

text \<open>
  \<open>io.Copy\<close> from an \<open>io.TeeReader\<close>: every piece goes to the temporary file before it goes to the client. If
  the file takes only a part of it, the client gets that part and the copy ends.
\<close>

fun tee_copy :: "tempfiles \<Rightarrow> 's writer \<Rightarrow> bytes \<Rightarrow> bytes list \<Rightarrow> gerror option \<Rightarrow> 's \<Rightarrow> ('s \<times> gerror option) \<times> bytes" where
  "tee_copy tf w contents [] e s = ((s, e), contents)"
| "tee_copy tf w contents (c # cs) e s =
     (case file_Write tf contents c of (contents, n, fe) \<Rightarrow>
      let got = (if fe = None then c else take n c) in
      case (if got = [] then (s, 0, None) else w_Write w got s) of (s, nw, we) \<Rightarrow>
      (case we of
         Some err \<Rightarrow> ((s, Some err), contents)
       | None \<Rightarrow>
           if nw \<noteq> length got then ((s, Some ErrShortWrite), contents)
           else (case fe of Some err \<Rightarrow> ((s, Some err), contents) | None \<Rightarrow> tee_copy tf w contents cs e s)))"

definition prepareArchiveTempfile :: "archive_env \<Rightarrow> bytes result" where
  "prepareArchiveTempfile env =
     (case av_mkdir env of Some err \<Rightarrow> Inl err | None \<Rightarrow>
      case tf_create (av_tempfiles env) of Some err \<Rightarrow> Inl err | None \<Rightarrow> Inr [])"

text \<open>\<open>os.Link\<close> does not replace a file that exists; that error is not reported.\<close>

definition finalizeCachedArchive :: "archive_env \<Rightarrow> bytes \<Rightarrow> string \<Rightarrow> (string \<Rightarrow> bytes option) \<Rightarrow> gerror option \<times> (string \<Rightarrow> bytes option)" where
  "finalizeCachedArchive env contents archivePath fs =
     (case av_close env of Some err \<Rightarrow> (Some err, fs) | None \<Rightarrow>
      if fs archivePath \<noteq> None then (None, fs) else
      case av_link env of Some err \<Rightarrow> (Some err, fs) | None \<Rightarrow> (None, fs(archivePath \<mapsto> contents)))"

text \<open>
  The part of \<open>Inject\<close> between the look at the cache and its update: the response, and with the cache
  enabled the contents of the temporary file if they are to be kept.
\<close>

definition archive_respond :: "archive_env \<Rightarrow> 's writer \<Rightarrow> archiveParams \<Rightarrow> archive_format \<Rightarrow> 's \<Rightarrow> 's \<times> bytes option" where
  "archive_respond env w params format s =
     (let cacheEnabled = (\<not> ap_DisableCache params); archiveFilename = path_Base (ap_ArchivePath params) in
      case (if cacheEnabled then prepareArchiveTempfile env else Inr []) of
        Inl err \<Rightarrow> (Fail500 w s, None)
      | Inr tempFile \<Rightarrow>
          (case archive_reader env params format of
             Inl err \<Rightarrow> (Fail500 w s, None)
           | Inr reader \<Rightarrow>
               let s = setArchiveHeaders w format archiveFilename s;
                   s = w_WriteHeader w 200 s
               in if cacheEnabled then
                    (case tee_copy (av_tempfiles env) w tempFile (fst reader) (snd reader) s of
                       ((s, Some err), _) \<Rightarrow> (s, None)
                     | ((s, None), contents) \<Rightarrow> (s, Some contents))
                  else if gs_Address (ap_GitalyServer params) \<noteq> []
                  then (fst (WriteTo w (fst reader) (snd reader) s), None)
                  else (fst (io_Copy w (fst reader) (snd reader) s), None)))"

record archive_state =
  ar_files :: "string \<Rightarrow> bytes option"
  gitArchiveCache :: "string \<Rightarrow> nat"

definition count_cache :: "string \<Rightarrow> archive_state \<Rightarrow> archive_state" where
  "count_cache l st = st\<lparr>gitArchiveCache := (gitArchiveCache st)(l := Suc (gitArchiveCache st l))\<rparr>"

definition serve_cached :: "archive_env \<Rightarrow> 's writer \<Rightarrow> archiveParams \<Rightarrow> archive_format \<Rightarrow> request \<Rightarrow> bytes \<Rightarrow> 's \<Rightarrow> 's" where
  "serve_cached env w params format r cachedArchive s =
     (let s = setArchiveHeaders w format (path_Base (ap_ArchivePath params)) s
      in exec_calls w (av_serveContent env r [] 0 cachedArchive (w_Header w s)) s)"

definition archive_Inject :: "archive_env \<Rightarrow> 's writer \<Rightarrow> request \<Rightarrow> string \<Rightarrow> 's \<times> archive_state \<Rightarrow> 's \<times> archive_state" where
  "archive_Inject env w r sendData ss =
     (let s = fst ss; st = snd ss in
      case Unpack (av_unmarshal env) ''git-archive:'' sendData of
        Inl err \<Rightarrow> (Fail500 w s, st)
      | Inr params \<Rightarrow>
          (case parseBasename (path_Base (url_Path (req_URL r))) of
             None \<Rightarrow> (Fail500 w s, st)
           | Some format \<Rightarrow>
               (case (if ap_DisableCache params then None else ar_files st (ap_ArchivePath params)) of
                  Some cachedArchive \<Rightarrow> (serve_cached env w params format r cachedArchive s, count_cache ''hit'' st)
                | None \<Rightarrow>
                    let st = count_cache ''miss'' st in
                    (case archive_respond env w params format s of
                       (s, None) \<Rightarrow> (s, st)
                     | (s, Some contents) \<Rightarrow>
                         (s, st\<lparr>ar_files := snd (finalizeCachedArchive env contents (ap_ArchivePath params) (ar_files st))\<rparr>)))))"

section \<open>Requests at the same time\<close>

text \<open>
  Requests run concurrently, and their temporary files have names of their own. What one request sees of
  the others is the cache, when it looks it up and when it links its archive. \<open>rq g\<close> is the request of
  goroutine \<open>g\<close>: its environment, parameters and format. The response of a request that missed depends on its
  client, given by the state of its writer. Old archives may be removed at any time.
\<close>

datatype archive_phase = Archive_new | Archive_missed | Archive_hit bytes | Archive_done

record archive_sys =
  as_files :: "string \<Rightarrow> bytes option"
  as_phase :: "nat \<Rightarrow> archive_phase"

inductive archive_step :: "'s writer \<Rightarrow> (nat \<Rightarrow> archive_env \<times> archiveParams \<times> archive_format) \<Rightarrow> archive_sys \<Rightarrow> archive_sys \<Rightarrow> bool" for w rq where
  archive_lookup: "rq g = (env, params, format) \<Longrightarrow> as_phase x g = Archive_new \<Longrightarrow>
    archive_step w rq x (x\<lparr>as_phase := (as_phase x)(g :=
      (case (if ap_DisableCache params then None else as_files x (ap_ArchivePath params)) of
         Some cachedArchive \<Rightarrow> Archive_hit cachedArchive | None \<Rightarrow> Archive_missed))\<rparr>)"
| archive_failed: "rq g = (env, params, format) \<Longrightarrow> as_phase x g = Archive_missed \<Longrightarrow>
    archive_respond env w params format s = (s', None) \<Longrightarrow>
    archive_step w rq x (x\<lparr>as_phase := (as_phase x)(g := Archive_done)\<rparr>)"
| archive_kept: "rq g = (env, params, format) \<Longrightarrow> as_phase x g = Archive_missed \<Longrightarrow>
    archive_respond env w params format s = (s', Some contents) \<Longrightarrow>
    archive_step w rq x (x\<lparr>as_phase := (as_phase x)(g := Archive_done),
      as_files := snd (finalizeCachedArchive env contents (ap_ArchivePath params) (as_files x))\<rparr>)"
| archive_expired: "archive_step w rq x (x\<lparr>as_files := (as_files x)(path := None)\<rparr>)"

definition no_archives :: archive_sys where
  "no_archives = \<lparr>as_files = (\<lambda>_. None), as_phase = (\<lambda>_. Archive_new)\<rparr>"

section \<open>What is cached is whole\<close>

text \<open>The contract of \<open>io.Writer\<close>: a write that reports no error has taken everything.\<close>

definition tf_honest :: "tempfiles \<Rightarrow> bool" where
  "tf_honest tf \<longleftrightarrow> (\<forall>contents d n. tf_write tf contents d = (n, None) \<longrightarrow> n = length d)"

lemma file_Write_honest: "tf_honest tf \<Longrightarrow> file_Write tf contents c = (contents', n, None) \<Longrightarrow> contents' = contents @ c"
  by (auto simp: tf_honest_def file_Write_def Let_def split: prod.splits)

lemma tee_copy_whole:
  "tf_honest tf \<Longrightarrow> tee_copy tf w contents cs e s = ((s', None), contents') \<Longrightarrow> e = None \<and> contents' = contents @ concat cs"
proof (induction cs arbitrary: contents s)
  case (Cons c cs)
  obtain c2 n fe where f: "file_Write tf contents c = (c2, n, fe)" by (cases "file_Write tf contents c")
  from Cons.prems(2) have fe: "fe = None"
    by (auto simp: f Let_def split: prod.splits option.splits if_splits)
  with Cons.prems(2) obtain s2 where tee: "tee_copy tf w c2 cs e s2 = ((s', None), contents')"
    by (auto simp: f Let_def split: prod.splits option.splits if_splits)
  have "c2 = contents @ c" using file_Write_honest [OF Cons.prems(1)] f fe by simp
  with Cons.IH [OF Cons.prems(1) tee] show ?case by simp
qed simp

lemma archive_respond_kept:
  assumes "tf_honest (av_tempfiles env)" "archive_respond env w params format s = (s', Some contents)"
  obtains reader where "archive_reader env params format = Inr reader" "snd reader = None" "contents = stream_bytes reader"
    "\<not> ap_DisableCache params"
proof -
  from assms(2) have enabled: "\<not> ap_DisableCache params"
    by (auto simp: archive_respond_def Let_def split: sum.splits if_splits)
  from assms(2) enabled obtain reader tempFile s1 where
    prep: "prepareArchiveTempfile env = Inr tempFile" and reader: "archive_reader env params format = Inr reader"
    and tee: "tee_copy (av_tempfiles env) w tempFile (fst reader) (snd reader) s1 = ((s', None), contents)"
    by (auto simp: archive_respond_def Let_def split: sum.splits prod.splits option.splits)
  from prep have "tempFile = []" by (auto simp: prepareArchiveTempfile_def split: option.splits)
  with tee_copy_whole [OF assms(1) tee] that [OF reader] enabled show thesis by (simp add: stream_bytes_def)
qed

text \<open>An archive made for a path by some request, from its first to its last byte.\<close>

definition whole_archive :: "(nat \<Rightarrow> archive_env \<times> archiveParams \<times> archive_format) \<Rightarrow> string \<Rightarrow> bytes \<Rightarrow> bool" where
  "whole_archive rq path b \<longleftrightarrow> (\<exists>g env params format reader. rq g = (env, params, format) \<and> ap_ArchivePath params = path \<and>
     archive_reader env params format = Inr reader \<and> snd reader = None \<and> b = stream_bytes reader)"

definition archive_path :: "(nat \<Rightarrow> archive_env \<times> archiveParams \<times> archive_format) \<Rightarrow> nat \<Rightarrow> string" where
  "archive_path rq g = ap_ArchivePath (fst (snd (rq g)))"

definition archive_inv :: "(nat \<Rightarrow> archive_env \<times> archiveParams \<times> archive_format) \<Rightarrow> archive_sys \<Rightarrow> bool" where
  "archive_inv rq x \<longleftrightarrow> (\<forall>path b. as_files x path = Some b \<longrightarrow> whole_archive rq path b) \<and>
     (\<forall>g b. as_phase x g = Archive_hit b \<longrightarrow> whole_archive rq (archive_path rq g) b)"

lemma finalize_files:
  "snd (finalizeCachedArchive env contents p fs) q = Some b \<Longrightarrow> fs q = Some b \<or> q = p \<and> b = contents"
  by (auto simp: finalizeCachedArchive_def split: option.splits if_splits)

lemma archive_inv_start: "archive_inv rq no_archives"
  by (simp add: archive_inv_def no_archives_def)

lemma archive_inv_step:
  assumes "\<And>g. tf_honest (av_tempfiles (fst (rq g)))" "archive_step w rq x y" "archive_inv rq x"
  shows "archive_inv rq y"
  using assms(2)
proof cases
  case (archive_lookup g env params format)
  with assms(3) show ?thesis
    by (auto simp: archive_inv_def archive_path_def split: option.splits if_splits)
next
  case (archive_failed g env params format s s')
  with assms(3) show ?thesis by (auto simp: archive_inv_def)
next
  case (archive_kept g env params format s s' contents)
  have "tf_honest (av_tempfiles env)" using assms(1) [of g] archive_kept by simp
  from archive_respond_kept [OF this archive_kept(4)] archive_kept(2)
  have "whole_archive rq (ap_ArchivePath params) contents"
    unfolding whole_archive_def by metis
  with assms(3) archive_kept show ?thesis
    by (auto simp: archive_inv_def dest!: finalize_files)
next
  case (archive_expired path)
  with assms(3) show ?thesis by (auto simp: archive_inv_def)
qed

text \<open>C12. The cache of archives. However requests interleave, and whichever of them fail, are abandoned by their clients or run
  out of disk, an archive served from the cache is a whole one: all of the output of a request for the
  same path whose archive was produced without an error.\<close>

theorem archive_cache_whole:
  assumes "\<And>g. tf_honest (av_tempfiles (fst (rq g)))" "(archive_step w rq)\<^sup>*\<^sup>* no_archives x" "as_phase x h = Archive_hit b"
  shows "\<exists>g env params format reader. rq g = (env, params, format) \<and> ap_ArchivePath params = ap_ArchivePath (fst (snd (rq h))) \<and>
     archive_reader env params format = Inr reader \<and> snd reader = None \<and> b = stream_bytes reader"
proof -
  from assms(2) have "archive_inv rq x"
    by (induction rule: rtranclp_induct) (auto intro: archive_inv_step [OF assms(1)] archive_inv_start)
  with assms(3) have "whole_archive rq (archive_path rq h) b" unfolding archive_inv_def by blast
  then show ?thesis unfolding whole_archive_def archive_path_def .
qed

definition sample_archive :: "archive_env" where
  "sample_archive = \<lparr>av_unmarshal = (\<lambda>_. Inl EOF), av_getenv = (\<lambda>_. []),
     av_run = (\<lambda>_ _. \<lparr>pl_archive_pipe = None, pl_compress_pipe = None, pl_compress_start = None, pl_archive_start = None,
       pl_stdout = ([''PK'', ''zip''], None), pl_compress_wait = None, pl_archive_wait = None\<rparr>),
     av_connect = (\<lambda>_. None), av_getArchive = (\<lambda>_. Inl EOF), av_mkdir = None, av_tempfiles = g_tempfiles sample_git,
     av_close = None, av_link = None, av_serveContent = (\<lambda>_ _ _ _ _. [])\<rparr>"

definition sample_archiveParams :: archiveParams where
  "sample_archiveParams = \<lparr>ap_RepoPath = ''/repo.git'', ap_ArchivePath = ''/cache/a.zip'', ap_ArchivePrefix = ''a'', ap_CommitId = ''1a2b'',
     ap_GitalyServer = \<lparr>gs_Address = [], gs_Token = []\<rparr>, ap_GitalyRepository = a_Repository zero_Response, ap_DisableCache = False\<rparr>"

lemma sample_archive_kept:
  "snd (archive_respond sample_archive net_writer sample_archiveParams ZIP new_response) = Some ''PKzip''"
  by code_simp

theorem archive_cache_whole_witness:
  "\<exists>x reader. (archive_step net_writer (\<lambda>_. (sample_archive, sample_archiveParams, ZIP)))\<^sup>*\<^sup>* no_archives x \<and>
     as_phase x 1 = Archive_hit ''PKzip'' \<and> archive_reader sample_archive sample_archiveParams ZIP = Inr reader \<and>
     snd reader = None \<and> stream_bytes reader = ''PKzip''"
proof -
  let ?rq = "\<lambda>_ :: nat. (sample_archive, sample_archiveParams, ZIP)" and ?step = "archive_step net_writer (\<lambda>_. (sample_archive, sample_archiveParams, ZIP))"
  let ?x1 = "no_archives\<lparr>as_phase := (\<lambda>_. Archive_new)(0 := Archive_missed)\<rparr>"
  let ?x2 = "no_archives\<lparr>as_phase := (\<lambda>_. Archive_new)(0 := Archive_done), as_files := [''/cache/a.zip'' \<mapsto> ''PKzip'']\<rparr>"
  let ?x3 = "?x2\<lparr>as_phase := ((\<lambda>_. Archive_new)(0 := Archive_done))(1 := Archive_hit ''PKzip'')\<rparr>"
  have 1: "?step no_archives ?x1"
    using archive_lookup [of ?rq 0 sample_archive sample_archiveParams ZIP no_archives net_writer]
    by (simp add: no_archives_def sample_archiveParams_def)
  obtain s' where "archive_respond sample_archive net_writer sample_archiveParams ZIP new_response = (s', Some ''PKzip'')"
    using sample_archive_kept by (metis prod.collapse)
  with archive_kept [of ?rq 0 sample_archive sample_archiveParams ZIP ?x1 net_writer new_response s' "''PKzip''"] have 2: "?step ?x1 ?x2"
    by (simp add: no_archives_def finalizeCachedArchive_def sample_archive_def sample_archiveParams_def)
  have 3: "?step ?x2 ?x3"
    using archive_lookup [of ?rq 1 sample_archive sample_archiveParams ZIP ?x2 net_writer]
    by (simp add: no_archives_def sample_archiveParams_def)
  from 1 2 3 have reach: "?step\<^sup>*\<^sup>* no_archives ?x3"
    by (meson converse_rtranclp_into_rtranclp rtranclp.rtrancl_refl)
  moreover have "tf_honest (av_tempfiles (fst (?rq g)))" for g
    by (simp add: tf_honest_def sample_archive_def sample_git_def)
  ultimately show ?thesis
    using archive_cache_whole [of ?rq net_writer ?x3 1 "''PKzip''"] by (intro exI [of _ ?x3]) auto
qed

end
