(* ===== verification/Terminal.thy ===== *)
theory Terminal
  imports Api Codec Channel
begin

text \<open>
  \<open>internal/terminal\<close>: web terminals. The codecs of the subprotocols (\<open>wrappers.go\<close>), the check that the
  authorization still holds (\<open>auth_checker.go\<close>), the proxy between browser and terminal (\<open>proxy.go\<close>) and
  the handler (\<open>terminal.go\<close>). The websocket library is a parameter: it dials, upgrades and carries messages.
  The four goroutines that may stop a session, and the one that waits for them, are a step relation.
\<close>

section \<open>Subprotocols\<close>

type_synonym message = "int \<times> bytes"

definition TextMessage :: int where
  "TextMessage = 1"

definition BinaryMessage :: int where
  "BinaryMessage = 2"

definition isData :: "int \<Rightarrow> bool" where
  "isData mt \<longleftrightarrow> mt = BinaryMessage \<or> mt = TextMessage"

definition encodeBase64 :: "bytes \<Rightarrow> bytes" where
  "encodeBase64 data = b64_encode False data"

definition decodeBase64 :: "bytes \<Rightarrow> bytes result" where
  "decodeBase64 data = (case b64_decode False data of None \<Rightarrow> Inl (Errorf ''illegal base64 data'') | Some d \<Rightarrow> Inr d)"

text \<open>A connection, bare or wrapped; the flag tells whether the data is in base 64.\<close>

datatype wrapper = Bare | KubeWrapper bool | GitlabWrapper bool

definition Wrap :: "string \<Rightarrow> wrapper" where
  "Wrap subprotocol =
     (if subprotocol = ''channel.k8s.io'' then KubeWrapper False
      else if subprotocol = ''base64.channel.k8s.io'' then KubeWrapper True
      else if subprotocol = ''terminal.gitlab.com'' then GitlabWrapper False
      else if subprotocol = ''base64.terminal.gitlab.com'' then GitlabWrapper True
      else Bare)"

text \<open>What \<open>ReadMessage\<close> makes of a message of the underlying connection. Data that comes with an error is not used.\<close>

definition gitlab_ReadMessage :: "bool \<Rightarrow> message \<Rightarrow> message result" where
  "gitlab_ReadMessage base64 m =
     (case m of (mt, data) \<Rightarrow>
      if isData mt then
        (if base64 then (case decodeBase64 data of Inl err \<Rightarrow> Inl err | Inr d \<Rightarrow> Inr (BinaryMessage, d)) else Inr (BinaryMessage, data))
      else Inr (mt, data))"

definition gitlab_WriteMessage :: "bool \<Rightarrow> message \<Rightarrow> message" where
  "gitlab_WriteMessage base64 m =
     (case m of (mt, data) \<Rightarrow>
      if isData mt then (if base64 then (TextMessage, encodeBase64 data) else (BinaryMessage, data)) else (mt, data))"

definition kube_ReadMessage :: "bool \<Rightarrow> message \<Rightarrow> message result" where
  "kube_ReadMessage base64 m =
     (case m of (mt, data) \<Rightarrow>
      if isData mt then
        (if length data > 0 then
           let data = drop 1 data in
           (if base64 then (case decodeBase64 data of Inl err \<Rightarrow> Inl err | Inr d \<Rightarrow> Inr (BinaryMessage, d)) else Inr (BinaryMessage, data))
         else Inr (BinaryMessage, data))
      else Inr (mt, data))"

definition kube_WriteMessage :: "bool \<Rightarrow> message \<Rightarrow> message" where
  "kube_WriteMessage base64 m =
     (case m of (mt, data) \<Rightarrow>
      if isData mt then
        (if base64 then (TextMessage, CHR ''0'' # encodeBase64 data) else (BinaryMessage, CHR 0x00 # data))
      else (mt, data))"

fun ReadMessage :: "wrapper \<Rightarrow> message \<Rightarrow> message result" where
  "ReadMessage Bare m = Inr m"
| "ReadMessage (KubeWrapper base64) m = kube_ReadMessage base64 m"
| "ReadMessage (GitlabWrapper base64) m = gitlab_ReadMessage base64 m"

fun WriteMessage :: "wrapper \<Rightarrow> message \<Rightarrow> message" where
  "WriteMessage Bare m = m"
| "WriteMessage (KubeWrapper base64) m = kube_WriteMessage base64 m"
| "WriteMessage (GitlabWrapper base64) m = gitlab_WriteMessage base64 m"

section \<open>Checking the authorization\<close>

definition authCheckFunc :: "string result \<Rightarrow> (request \<Rightarrow> http_response result) \<Rightarrow> (stream \<Rightarrow> Response result) \<Rightarrow> api \<Rightarrow>
    request \<Rightarrow> string \<Rightarrow> api_metrics \<Rightarrow> TerminalSettings option \<times> api_metrics" where
  "authCheckFunc jwt roundTrip decode myAPI r sfx m =
     (case PreAuthorize jwt roundTrip decode myAPI sfx r m of
        ((httpResponse, authResponse, Some err), m) \<Rightarrow> (None, m)
      | ((Some httpResponse, Some a, None), m) \<Rightarrow> (if rsp_StatusCode httpResponse \<noteq> 200 then None else a_Terminal a, m)
      | (_, m) \<Rightarrow> (None, m))"

text \<open>
  \<open>Loop\<close>: at every tick the checker is asked, until its answer differs from the template or \<open>Done\<close> is closed.
  The result is the number of successful checks and what is sent to \<open>StopCh\<close>.
\<close>

datatype tick = Tick "TerminalSettings option" | Done_closed

fun AuthChecker_Loop :: "TerminalSettings option \<Rightarrow> tick list \<Rightarrow> nat \<Rightarrow> nat \<times> gerror option" where
  "AuthChecker_Loop template [] count = (count, None)"
| "AuthChecker_Loop template (Done_closed # ticks) count = (count, None)"
| "AuthChecker_Loop template (Tick settings # ticks) count =
     (if \<not> IsEqual template settings then (count, Some ErrAuthChanged) else AuthChecker_Loop template ticks (Suc count))"

section \<open>Connecting\<close>

definition subprotocols :: "string list" where
  "subprotocols = [''terminal.gitlab.com'', ''base64.terminal.gitlab.com'']"

text \<open>The websocket library: dialling gives the subprotocol agreed on, upgrading answers the client and gives its subprotocol.\<close>

record terminal_env =
  te_scheme :: "string \<Rightarrow> string result"
  te_dial :: "websocket_Dialer \<Rightarrow> string \<Rightarrow> header \<Rightarrow> string result"
  te_upgrade :: "string list \<Rightarrow> request \<Rightarrow> call list \<times> string result"

definition connectToServer :: "terminal_env \<Rightarrow> TerminalSettings \<Rightarrow> request \<Rightarrow> wrapper result" where
  "connectToServer env terminal r =
     (let terminal = TerminalSettings_Clone terminal;
          terminal = terminal\<lparr>t_Header := SetForwardedFor (t_Header terminal) r\<rparr>
      in case TerminalSettings_Dial (te_dial env) terminal of Inl err \<Rightarrow> Inl err | Inr subprotocol \<Rightarrow> Inr (Wrap subprotocol))"

definition upgradeClient :: "terminal_env \<Rightarrow> 's writer \<Rightarrow> request \<Rightarrow> 's \<Rightarrow> wrapper result \<times> 's" where
  "upgradeClient env w r s =
     (case te_upgrade env subprotocols r of (calls, res) \<Rightarrow>
      (case res of Inl err \<Rightarrow> Inl err | Inr subprotocol \<Rightarrow> Inr (Wrap subprotocol), exec_calls w calls s))"

record session =
  ss_server :: wrapper
  ss_client :: wrapper
  ss_clientAddr :: string

text \<open>\<open>pingLoop\<close> for what its \<open>WriteControl\<close> calls return: the number of pings sent.\<close>

fun pingLoop :: "gerror option list \<Rightarrow> nat" where
  "pingLoop [] = 0"
| "pingLoop (None # errs) = Suc (pingLoop errs)"
| "pingLoop (Some err # errs) = 0"

definition getClientAddr :: "request \<Rightarrow> string" where
  "getClientAddr r = req_RemoteAddr r"

definition ProxyTerminal :: "terminal_env \<Rightarrow> 's writer \<Rightarrow> request \<Rightarrow> TerminalSettings \<Rightarrow> 's \<Rightarrow> session option \<times> 's" where
  "ProxyTerminal env w r terminal s =
     (case connectToServer env terminal r of
        Inl err \<Rightarrow> (None, Fail500 w s)
      | Inr server \<Rightarrow>
          (case upgradeClient env w r s of
             (Inl err, s) \<Rightarrow> (None, s)
           | (Inr conn, s) \<Rightarrow> (Some \<lparr>ss_server = server, ss_client = conn, ss_clientAddr = getClientAddr r\<rparr>, s)))"

text \<open>The function \<open>Handler\<close> passes to the pre-authorizer: the session it starts, if any.\<close>

definition terminal_handler :: "terminal_env \<Rightarrow> 's writer \<Rightarrow> request \<Rightarrow> Response \<Rightarrow> 's \<Rightarrow> session option \<times> 's" where
  "terminal_handler env w r a s =
     (case (Validate (te_scheme env) (a_Terminal a), a_Terminal a) of
        (None, Some terminal) \<Rightarrow> ProxyTerminal env w r terminal s
      | _ \<Rightarrow> (None, Fail500 w s))"

definition terminal_Handler :: "((request \<Rightarrow> Response \<Rightarrow> 's \<Rightarrow> session option \<times> 's) \<Rightarrow> string \<Rightarrow> 'x) \<Rightarrow> terminal_env \<Rightarrow> 's writer \<Rightarrow> 'x" where
  "terminal_Handler preAuthorizeHandler env w = preAuthorizeHandler (terminal_handler env w) ''authorize''"

section \<open>A session\<close>

text \<open>The four goroutines that may stop it: two copy messages, one checks the authorization, one waits for the maximal time.\<close>

datatype stopper = From_client | From_server | Auth_checker | Max_time

datatype stop_phase =
    Running
  | Forwarding message    \<comment> \<open>a copying goroutine inside \<open>WriteMessage\<close>\<close>
  | Stopping gerror       \<comment> \<open>about to send to \<open>StopCh\<close>\<close>
  | Stopped

text \<open>
  \<open>tm_served\<close> is what \<open>Serve\<close> has received, \<open>tm_eot\<close> the message it then sends to the server itself; the lists are
  the messages read from each side and copied to the other.
\<close>

record terminal_sys =
  tm_StopCh :: "gerror chan"
  tm_phase :: "stopper \<Rightarrow> stop_phase"
  tm_served :: "gerror option"
  tm_eot :: "message option"
  tm_from_client :: "message list"
  tm_to_server :: "message list"
  tm_from_server :: "message list"
  tm_to_client :: "message list"
  tm_checks :: nat

definition eot :: bytes where
  "eot = [CHR 0x04]"

definition NewProxy_StopCh :: "nat \<Rightarrow> gerror chan" where
  "NewProxy_StopCh stoppers = make_chan (stoppers + 2)"

text \<open>\<open>closeAfterMaxTime\<close>: with no limit it does not wait at all. The nanoseconds wrap around.\<close>

definition closeAfterMaxTime_delay :: "int \<Rightarrow> int option" where
  "closeAfterMaxTime_delay maxSessionTime = (if maxSessionTime = 0 then None else Some (int64 (maxSessionTime * 1000000000)))"

definition closeAfterMaxTime_error :: "int \<Rightarrow> gerror" where
  "closeAfterMaxTime_error maxSessionTime =
     Errorf (''connection closed: session time greater than maximum time allowed - '' @ FormatInt maxSessionTime @ '' seconds'')"

definition start_session :: "int \<Rightarrow> terminal_sys" where
  "start_session maxSessionTime =
     \<lparr>tm_StopCh = NewProxy_StopCh 2,
      tm_phase = (\<lambda>_. Running)(Max_time := (if closeAfterMaxTime_delay maxSessionTime = None then Stopped else Running)),
      tm_served = None, tm_eot = None, tm_from_client = [], tm_to_server = [], tm_from_server = [], tm_to_client = [], tm_checks = 0\<rparr>"

inductive terminal_step :: "wrapper \<Rightarrow> wrapper \<Rightarrow> TerminalSettings \<Rightarrow> terminal_sys \<Rightarrow> terminal_sys \<Rightarrow> bool"
  for server browser template where
  read_client: "tm_phase x From_client = Running \<Longrightarrow> ReadMessage browser raw = Inr m \<Longrightarrow>
    terminal_step server browser template x
      (x\<lparr>tm_phase := (tm_phase x)(From_client := Forwarding m), tm_from_client := tm_from_client x @ [raw]\<rparr>)"
| write_server: "tm_phase x From_client = Forwarding m \<Longrightarrow>
    terminal_step server browser template x
      (x\<lparr>tm_phase := (tm_phase x)(From_client := Running), tm_to_server := tm_to_server x @ [WriteMessage server m]\<rparr>)"
| read_server: "tm_phase x From_server = Running \<Longrightarrow> ReadMessage server raw = Inr m \<Longrightarrow>
    terminal_step server browser template x
      (x\<lparr>tm_phase := (tm_phase x)(From_server := Forwarding m), tm_from_server := tm_from_server x @ [raw]\<rparr>)"
| write_client: "tm_phase x From_server = Forwarding m \<Longrightarrow>
    terminal_step server browser template x
      (x\<lparr>tm_phase := (tm_phase x)(From_server := Running), tm_to_client := tm_to_client x @ [WriteMessage browser m]\<rparr>)"
| read_failed: "g = From_client \<or> g = From_server \<Longrightarrow> tm_phase x g = Running \<Longrightarrow>
    terminal_step server browser template x
      (x\<lparr>tm_phase := (tm_phase x)(g := Stopping (wrap_err (''reading from '' @ addr @ '': '') err))\<rparr>)"
| write_failed: "tm_phase x g = Forwarding m \<Longrightarrow>
    terminal_step server browser template x
      (x\<lparr>tm_phase := (tm_phase x)(g := Stopping (wrap_err (''writing to '' @ addr @ '': '') err))\<rparr>)"
| check_passed: "tm_phase x Auth_checker = Running \<Longrightarrow> IsEqual (Some template) settings \<Longrightarrow>
    terminal_step server browser template x (x\<lparr>tm_checks := Suc (tm_checks x)\<rparr>)"
| check_failed: "tm_phase x Auth_checker = Running \<Longrightarrow> \<not> IsEqual (Some template) settings \<Longrightarrow>
    terminal_step server browser template x (x\<lparr>tm_phase := (tm_phase x)(Auth_checker := Stopping ErrAuthChanged)\<rparr>)"
| check_closed: "tm_phase x Auth_checker = Running \<Longrightarrow> tm_eot x \<noteq> None \<Longrightarrow>
    terminal_step server browser template x (x\<lparr>tm_phase := (tm_phase x)(Auth_checker := Stopped)\<rparr>)"
| time_over: "tm_phase x Max_time = Running \<Longrightarrow>
    terminal_step server browser template x
      (x\<lparr>tm_phase := (tm_phase x)(Max_time := Stopping (closeAfterMaxTime_error (t_MaxSessionTime template)))\<rparr>)"
| send_stop: "tm_phase x g = Stopping err \<Longrightarrow> ch_send err (tm_StopCh x) = Some c \<Longrightarrow>
    terminal_step server browser template x (x\<lparr>tm_StopCh := c, tm_phase := (tm_phase x)(g := Stopped)\<rparr>)"
| serve_stop: "tm_served x = None \<Longrightarrow> ch_recv (tm_StopCh x) = Some (err, c) \<Longrightarrow>
    terminal_step server browser template x (x\<lparr>tm_StopCh := c, tm_served := Some err\<rparr>)"
| send_eot: "tm_served x = Some err \<Longrightarrow> tm_eot x = None \<Longrightarrow>
    terminal_step server browser template x (x\<lparr>tm_eot := Some (WriteMessage server (BinaryMessage, eot))\<rparr>)"

section \<open>The codecs lose nothing\<close>

lemma decode_encodeBase64 [simp]: "decodeBase64 (encodeBase64 d) = Inr d"
  by (simp add: decodeBase64_def encodeBase64_def)

lemma message_types [simp]: "isData TextMessage" "isData BinaryMessage"
  by (simp_all add: isData_def)

lemma Read_Write: "ReadMessage w (WriteMessage w (mt, d)) = Inr (if w \<noteq> Bare \<and> isData mt then BinaryMessage else mt, d)"
  by (cases w) (simp_all add: gitlab_ReadMessage_def gitlab_WriteMessage_def kube_ReadMessage_def kube_WriteMessage_def)

text \<open>The bytes a message carries, for who reads it with the codec of the connection.\<close>

definition payload :: "wrapper \<Rightarrow> message \<Rightarrow> bytes option" where
  "payload w raw = (case ReadMessage w raw of Inl _ \<Rightarrow> None | Inr m \<Rightarrow> Some (snd m))"

lemma payload_Write [simp]: "payload w (WriteMessage w m) = Some (snd m)"
  by (cases m) (simp add: payload_def Read_Write)

section \<open>Invariants of a session\<close>

fun in_flight :: "stop_phase \<Rightarrow> message list" where
  "in_flight (Forwarding m) = [m]"
| "in_flight _ = []"

text \<open>What was read and what was written differ by the message being written, or the one whose write failed.\<close>

definition copied :: "wrapper \<Rightarrow> wrapper \<Rightarrow> stop_phase \<Rightarrow> message list \<Rightarrow> message list \<Rightarrow> bool" where
  "copied src dst p from_src to_dst \<longleftrightarrow>
     (\<exists>lost. map (payload src) from_src = map (payload dst) to_dst @ map Some lost \<and> length lost \<le> 1 \<and>
        (p = Running \<longrightarrow> lost = []) \<and> (\<forall>m. p = Forwarding m \<longrightarrow> lost = [snd m]))"

definition stopped :: "(stopper \<Rightarrow> stop_phase) \<Rightarrow> nat" where
  "stopped f = card {g. f g = Stopped}"

definition terminal_inv :: "wrapper \<Rightarrow> wrapper \<Rightarrow> terminal_sys \<Rightarrow> bool" where
  "terminal_inv server browser x \<longleftrightarrow>
     copied browser server (tm_phase x From_client) (tm_from_client x) (tm_to_server x) \<and>
     copied server browser (tm_phase x From_server) (tm_from_server x) (tm_to_client x) \<and>
     ch_cap (tm_StopCh x) = 4 \<and> length (ch_buf (tm_StopCh x)) \<le> stopped (tm_phase x) \<and>
     (\<forall>m. tm_phase x Auth_checker \<noteq> Forwarding m) \<and> (\<forall>m. tm_phase x Max_time \<noteq> Forwarding m)"

lemma finite_stoppers [simp]: "finite (A :: stopper set)"
  by (rule finite_subset [of _ "{From_client, From_server, Auth_checker, Max_time}"]) (use stopper.exhaust in auto)

lemma stopped_same: "f g \<noteq> Stopped \<Longrightarrow> p \<noteq> Stopped \<Longrightarrow> stopped (f(g := p)) = stopped f"
  unfolding stopped_def by (rule arg_cong [where f = card]) auto

lemma stopped_more: "f g \<noteq> Stopped \<Longrightarrow> stopped (f(g := Stopped)) = Suc (stopped f)"
proof -
  assume "f g \<noteq> Stopped"
  moreover have "{h. (f(g := Stopped)) h = Stopped} = insert g {h. f h = Stopped}" by auto
  ultimately show ?thesis by (simp add: stopped_def)
qed

lemma stopped_less: "f g \<noteq> Stopped \<Longrightarrow> stopped f < 4"
proof -
  assume "f g \<noteq> Stopped"
  then have "{h. f h = Stopped} \<subset> {From_client, From_server, Auth_checker, Max_time}"
    using stopper.exhaust by auto
  then have "stopped f < card {From_client, From_server, Auth_checker, Max_time}"
    unfolding stopped_def by (intro psubset_card_mono) auto
  then show ?thesis by simp
qed

lemma copied_read: "copied src dst Running a b \<Longrightarrow> ReadMessage src raw = Inr m \<Longrightarrow> copied src dst (Forwarding m) (a @ [raw]) b"
  by (auto simp: copied_def payload_def)

lemma copied_write: "copied src dst (Forwarding m) a b \<Longrightarrow> copied src dst Running a (b @ [WriteMessage dst m])"
  by (auto simp: copied_def)

lemma copied_stop: "copied src dst p a b \<Longrightarrow> q = Stopping e \<or> q = Stopped \<Longrightarrow> copied src dst q a b"
  by (auto simp: copied_def)

lemma start_inv: "terminal_inv server browser (start_session n)"
  by (auto simp: terminal_inv_def start_session_def copied_def NewProxy_StopCh_def)

lemma terminal_inv_step:
  assumes "terminal_step server browser template x y" "terminal_inv server browser x"
  shows "terminal_inv server browser y"
  using assms
proof cases
  case (write_failed m g addr err)
  with assms(2) show ?thesis
    by (cases g) (auto simp: terminal_inv_def stopped_same intro: copied_stop)
next
  case (send_stop g err c)
  with assms(2) show ?thesis
    by (cases g) (auto simp: terminal_inv_def stopped_more intro: copied_stop dest: ch_send_SomeD)
next
  case (serve_stop err c)
  then show ?thesis using assms(2) by (auto simp: terminal_inv_def dest: ch_recv_SomeD)
qed (use assms(2) in \<open>auto simp: terminal_inv_def stopped_same stopped_more intro: copied_read copied_write copied_stop\<close>)

lemma reachable_inv: "(terminal_step server browser template)\<^sup>*\<^sup>* (start_session n) x \<Longrightarrow> terminal_inv server browser x"
  by (induction rule: rtranclp_induct) (auto intro: start_inv terminal_inv_step)

text \<open>C38. A terminal session copies what is typed and what is shown. At any moment, with any combination of subprotocols, the bytes
  the server has been sent, as its codec reads them, are those the browser has sent, as its codec reads them, in order and but for
  the one message that is being written or could not be written; and the same the other way round.\<close>

theorem terminal_bytes_preserved:
  assumes "(terminal_step server browser template)\<^sup>*\<^sup>* (start_session n) x"
  shows "(\<exists>lost. map (payload browser) (tm_from_client x) = map (payload server) (tm_to_server x) @ map Some lost \<and> length lost \<le> 1) \<and>
    (\<exists>lost. map (payload server) (tm_from_server x) = map (payload browser) (tm_to_client x) @ map Some lost \<and> length lost \<le> 1)"
  using reachable_inv [OF assms] unfolding terminal_inv_def copied_def by blast

theorem terminal_bytes_preserved_witness:
  "\<exists>x lost. (terminal_step (KubeWrapper True) (GitlabWrapper False) sample_terminal)\<^sup>*\<^sup>* (start_session 0) x \<and>
     tm_to_server x = [(TextMessage, CHR ''0'' # encodeBase64 ''ls'')] \<and> tm_from_client x = [(BinaryMessage, ''ls'')] \<and>
     map (payload (GitlabWrapper False)) (tm_from_client x) = map (payload (KubeWrapper True)) (tm_to_server x) @ map Some lost"
proof -
  let ?step = "terminal_step (KubeWrapper True) (GitlabWrapper False) sample_terminal" and ?x = "start_session 0"
  let ?y = "?x\<lparr>tm_phase := (tm_phase ?x)(From_client := Forwarding (BinaryMessage, ''ls'')), tm_from_client := [(BinaryMessage, ''ls'')]\<rparr>"
  let ?z = "?y\<lparr>tm_phase := (tm_phase ?y)(From_client := Running), tm_to_server := [(TextMessage, CHR ''0'' # encodeBase64 ''ls'')]\<rparr>"
  have "?step ?x ?y"
    using read_client [of ?x "GitlabWrapper False" "(BinaryMessage, ''ls'')" "(BinaryMessage, ''ls'')"]
    by (simp add: start_session_def gitlab_ReadMessage_def)
  moreover have "?step ?y ?z"
    using write_server [of ?y "(BinaryMessage, ''ls'')" "KubeWrapper True"] by (simp add: start_session_def kube_WriteMessage_def)
  ultimately have "?step\<^sup>*\<^sup>* ?x ?z" by (meson converse_rtranclp_into_rtranclp rtranclp.rtrancl_refl)
  with terminal_bytes_preserved [OF this] show ?thesis by (intro exI [of _ ?z]) (auto simp del: fun_upd_apply)
qed

text \<open>No goroutine of a session is left behind: whoever wants to stop it finds room in \<open>StopCh\<close>, and as long as \<open>Serve\<close> is waiting
  it can then return.\<close>

theorem stoppers_never_block:
  assumes "(terminal_step server browser template)\<^sup>*\<^sup>* (start_session n) x" "tm_phase x g = Stopping err"
  shows "ch_send err (tm_StopCh x) \<noteq> None \<and>
    (tm_served x = None \<longrightarrow> (\<exists>y. (terminal_step server browser template)\<^sup>*\<^sup>* x y \<and> tm_served y \<noteq> None))"
proof -
  have "length (ch_buf (tm_StopCh x)) < ch_cap (tm_StopCh x)"
    using reachable_inv [OF assms(1)] stopped_less [of "tm_phase x" g] assms(2) by (simp add: terminal_inv_def)
  then obtain c where c: "ch_send err (tm_StopCh x) = Some c" by (auto simp: ch_send_def)
  let ?y = "x\<lparr>tm_StopCh := c, tm_phase := (tm_phase x)(g := Stopped)\<rparr>"
  have 1: "terminal_step server browser template x ?y" using assms(2) c by (rule send_stop)
  have "ch_buf c \<noteq> []" using ch_send_SomeD [OF c] by simp
  then obtain e c' where "ch_recv c = Some (e, c')" by (cases "ch_recv c") (auto simp: ch_recv_None)
  then have "terminal_step server browser template ?y (?y\<lparr>tm_StopCh := c', tm_served := Some e\<rparr>)" if "tm_served x = None"
    using that by (intro serve_stop) simp_all
  with 1 have "\<exists>y. (terminal_step server browser template)\<^sup>*\<^sup>* x y \<and> tm_served y \<noteq> None" if "tm_served x = None"
    using that by (intro exI [of _ "?y\<lparr>tm_StopCh := c', tm_served := Some e\<rparr>"])
      (auto intro: converse_rtranclp_into_rtranclp r_into_rtranclp)
  with c show ?thesis by simp
qed

lemma check_failed_reachable:
  "\<not> IsEqual (Some template) settings \<Longrightarrow>
   (terminal_step server browser template)\<^sup>*\<^sup>* (start_session n)
     ((start_session n)\<lparr>tm_phase := (tm_phase (start_session n))(Auth_checker := Stopping ErrAuthChanged)\<rparr>)"
  by (rule r_into_rtranclp) (rule check_failed, simp_all add: start_session_def)

theorem stoppers_never_block_witness:
  "\<exists>y. (terminal_step Bare Bare sample_terminal)\<^sup>*\<^sup>* (start_session 0) y \<and> tm_served y \<noteq> None"
proof -
  have "\<not> IsEqual (Some sample_terminal) None" by (simp add: IsEqual_def)
  note reach = check_failed_reachable [OF this, of Bare Bare 0]
  let ?x = "(start_session 0)\<lparr>tm_phase := (tm_phase (start_session 0))(Auth_checker := Stopping ErrAuthChanged)\<rparr>"
  have "tm_phase ?x Auth_checker = Stopping ErrAuthChanged" "tm_served ?x = None" by (simp_all add: start_session_def)
  from stoppers_never_block [OF reach this(1)] this(2) obtain y where
    "(terminal_step Bare Bare sample_terminal)\<^sup>*\<^sup>* ?x y" "tm_served y \<noteq> None" by blast
  with rtranclp_trans [OF reach] show ?thesis by blast
qed

text \<open>When the session is stopped by anything but the browser, a message of the browser may be in \<open>WriteMessage\<close> on the very connection to
  which \<open>Serve\<close> now writes the end of transmission; the websocket library allows one writer at a time, and panics.\<close>

lemma eot_while_forwarding:
  "\<exists>x y. (terminal_step Bare Bare sample_terminal)\<^sup>*\<^sup>* (start_session 0) x \<and> tm_phase x From_client = Forwarding (BinaryMessage, ''x'') \<and>
     terminal_step Bare Bare sample_terminal x y \<and> tm_eot x = None \<and> tm_eot y \<noteq> None"
proof -
  let ?step = "terminal_step Bare Bare sample_terminal" and ?x = "start_session 0"
  let ?a = "?x\<lparr>tm_phase := (tm_phase ?x)(From_client := Forwarding (BinaryMessage, ''x'')), tm_from_client := [(BinaryMessage, ''x'')]\<rparr>"
  let ?b = "?a\<lparr>tm_phase := (tm_phase ?a)(Auth_checker := Stopping ErrAuthChanged)\<rparr>"
  let ?c = "?b\<lparr>tm_StopCh := \<lparr>ch_cap = 4, ch_buf = [ErrAuthChanged]\<rparr>, tm_phase := (tm_phase ?b)(Auth_checker := Stopped)\<rparr>"
  let ?d = "?c\<lparr>tm_StopCh := \<lparr>ch_cap = 4, ch_buf = []\<rparr>, tm_served := Some ErrAuthChanged\<rparr>"
  have "?step ?x ?a" using read_client [of ?x Bare "(BinaryMessage, ''x'')"] by (simp add: start_session_def)
  moreover have "?step ?a ?b" using check_failed [of ?a sample_terminal None] by (simp add: start_session_def IsEqual_def)
  moreover have "?step ?b ?c" using send_stop [of ?b Auth_checker ErrAuthChanged]
    by (simp add: start_session_def ch_send_def NewProxy_StopCh_def make_chan_def)
  moreover have "?step ?c ?d" using serve_stop [of ?c ErrAuthChanged] by (simp add: start_session_def ch_recv_def)
  ultimately have "?step\<^sup>*\<^sup>* ?x ?d" by (meson converse_rtranclp_into_rtranclp rtranclp.rtrancl_refl)
  moreover have "?step ?d (?d\<lparr>tm_eot := Some (WriteMessage Bare (BinaryMessage, eot))\<rparr>)"
    by (rule send_eot) (simp_all add: start_session_def)
  moreover have "tm_phase ?d From_client = Forwarding (BinaryMessage, ''x'')" "tm_eot ?d = None"
    "tm_eot (?d\<lparr>tm_eot := Some (WriteMessage Bare (BinaryMessage, eot))\<rparr>) \<noteq> None" by (simp_all add: start_session_def)
  ultimately show ?thesis by blast
qed

section \<open>A revoked authorization ends the session\<close>

lemma Loop_result:
  "AuthChecker_Loop template (map Tick xs) count =
     (count + length (takeWhile (IsEqual template) xs), if list_all (IsEqual template) xs then None else Some ErrAuthChanged)"
  by (induction xs arbitrary: count) auto



end
