(* ===== verification/Spec2Isabelle.thy ===== *)
theory Spec2Isabelle
  imports Builds Artifacts Program Store_Stub Pktline Git_Send Git_Archive Terminal
begin

text \<open>
  \<^bold>\<open>A verification of gitlab-workhorse.\<close>

  \<^bold>\<open>The program.\<close> \<open>gitlab-workhorse\<close> is the HTTP server between the clients of a GitLab instance and its Rails backend. It
  takes the requests that are slow or large off the backend: Git over HTTP, uploads to disk and object storage, downloads of
  archives, artifacts and files, long polling of CI runners and web terminals. A request enters \<open>upstream.ServeHTTP\<close>
  (\<open>internal/upstream\<close>), which cleans the path, strips the relative URL root, drops a header clients may not set and looks for
  the first matching entry of the routing table. Most handlers first ask the backend for permission (\<open>internal/api\<close>); the answer
  tells them what to do. Everything else is proxied to the backend, whose response passes through a stack of
  \<open>http.ResponseWriter\<close> wrappers that carry out what it asks for in headers: send a file, send a Git object, an artifact or
  the contents of a URL, or show a static error page.

  \<^bold>\<open>How Go is modelled\<close> (theories \<open>Prelude\<close>, \<open>Codec\<close>, \<open>Http\<close>, \<open>Channel\<close>). A Go string and a byte slice are lists of
  bytes, an \<open>error\<close> is a value of \<open>gerror\<close> with a constructor for each sentinel the code compares with, a function that
  may fail returns a sum and one that may panic returns \<open>'a go\<close>. Integers are unbounded where the code cannot overflow and
  wrap by \<open>int64\<close> where it can. Structs are records, and state is passed explicitly. An \<open>http.ResponseWriter\<close>
  is a record of operations over a state type, so a wrapper in Go is a function from writers to writers here; what is on the wire is
  part of the state of the innermost one, whose connection may break after any number of bytes. An
  \<open>io.Reader\<close> is the sequence of pieces it delivers and how it ends, so a statement about all streams covers all ways data can
  arrive. Goroutines that share state are step relations, whose steps are the critical sections of the code, and
  the invariants hold in every reachable state, that is for every interleaving. A buffered channel is a queue with a capacity, and an operation
  that would block is not possible. Libraries the sources only call (JSON, TOML, JWT, zip, gzip, gRPC, websockets, Redis,
  \<open>http.ServeContent\<close>, the HTTP client, processes, files, clock and randomness) are parameters of the definitions that use them.

  \<^bold>\<open>The theories and the sources they model\<close> (below \<open>src/internal\<close> unless said otherwise).
  \<^item> \<open>Helper\<close>: \<open>helper/helpers.go\<close>, \<open>raven.go\<close>, \<open>countingresponsewriter.go\<close>, \<open>logging.go\<close>. Error responses, header
    utilities, the scrubbing of secrets from URLs, and the writers that count for the metrics and the access log. They
    keep the contract \<open>plain_writer\<close> of the writer they wrap and report what is on the wire.
  \<^item> \<open>Hijack\<close>: the pattern four wrappers share, as the locale \<open>hijacking_writer\<close>: the first \<open>WriteHeader\<close> decides
    whether a response passes or is replaced. It is interpreted for \<open>staticpages/error_pages.go\<close> (\<open>Static_Pages\<close>),
    \<open>api/block.go\<close> (\<open>Api\<close>), \<open>sendfile/sendfile.go\<close> and \<open>senddata/senddata.go\<close> (\<open>Send_Data\<close>).
  \<^item> \<open>Paths\<close>: \<open>path.Clean\<close> and its relatives, and \<open>urlprefix/urlprefix.go\<close>. \<open>Static_Pages\<close>: \<open>staticpages\<close>. Files are served from
    below the document root only.
  \<^item> \<open>Api\<close>: \<open>api/api.go\<close>, \<open>block.go\<close>, \<open>terminal_settings.go\<close>. The authorization request, what comes of each answer,
    and that internal answers do not reach clients.
  \<^item> \<open>Send_Data\<close>: also \<open>senddata/injecter.go\<close> and \<open>sendurl/sendurl.go\<close>; the response a client gets through the whole
    stack is a function of the response of the backend.
  \<^item> \<open>Regex\<close>, \<open>Backend\<close>, \<open>Upstream\<close>: regular expressions by derivatives; \<open>config/config.go\<close>, \<open>src/backend.go\<close>,
    \<open>badgateway/roundtripper.go\<close>, \<open>proxy/proxy.go\<close>; \<open>upstream/routes.go\<close>, \<open>upstream.go\<close>, \<open>handlers.go\<close>,
    \<open>notfoundunless.go\<close>. Which request reaches which handler, and what no request can reach.
  \<^item> \<open>Queueing\<close>: \<open>queueing/queue.go\<close> and \<open>requests.go\<close>, and \<open>Key_Watcher\<close>: \<open>redis/keywatcher.go\<close>, both for any number of
    goroutines; \<open>Builds\<close>: \<open>builds/register.go\<close>, which uses the latter; \<open>Redis\<close>: \<open>redis/redis.go\<close> and the reconnecting loop.
  \<^item> \<open>Object_Store\<close>: \<open>objectstore/\<close>, uploads in one request and in parts, with their clean-up; \<open>Form\<close>: form encoding;
    \<open>File_Store\<close>: \<open>filestore/\<close> and \<open>lfs/lfs.go\<close>; \<open>Upload\<close>: \<open>upload/\<close>; \<open>Zip_Artifacts\<close>: \<open>zipartifacts/\<close>,
    \<open>src/cmd/gitlab-zip-cat\<close>, \<open>src/cmd/gitlab-zip-metadata\<close> and \<open>artifacts/entry.go\<close>; \<open>Artifacts\<close>: \<open>artifacts/artifacts_upload.go\<close>.
    What is passed to the backend was saved in full, and is described and signed as it was saved.
  \<^item> \<open>Write_After_Reader\<close>: \<open>helper/tempfile.go\<close> and \<open>writeafterreader.go\<close>; \<open>Gitaly\<close>: \<open>gitaly/\<close>; \<open>Pktline\<close>,
    \<open>Git_Http\<close>, \<open>Git_Archive\<close>, \<open>Git_Send\<close>: \<open>git/pktline.go\<close>, the smart HTTP handlers with \<open>responsewriter.go\<close> and
    \<open>command.go\<close>, \<open>archive.go\<close> with \<open>archivereader.go\<close>, and the injecters for blobs, diffs, patches and snapshots.
    A push is answered after it has been read, the metrics agree with the wire, the archive cache holds whole archives only.
  \<^item> \<open>Terminal\<close>: \<open>terminal/\<close>; \<open>Secret\<close>: \<open>secret/\<close> and the correlation identifiers of \<open>log/handler.go\<close>.
  \<^item> \<open>Store_Stub\<close>: \<open>objectstore/test/objectstore_stub.go\<close>, an object store the repository implements. The locale \<open>working_store\<close> states what the
    uploads of \<open>Object_Store\<close> rely on; the stub keeps it, so there every upload that fits ends with its object stored, and one that does not is aborted.
  \<^item> \<open>Logging\<close>: \<open>log/logrus.go\<close>, the error reports of \<open>helper/helpers.go\<close> and \<open>raven.go\<close>, \<open>helper/accesslogformatter.go\<close> and
    \<open>src/logging.go\<close>. Access log lines cannot be forged, and reports hold no credentials.
  \<^item> \<open>Program\<close>: \<open>src/main.go\<close> and \<open>src/raven.go\<close>, \<open>config.LoadConfig\<close> and \<open>upstream/metrics.go\<close>. From the flags to the server, as a
    list of events: what it serves with, and what it leaves behind however it ends.
  \<^item> This theory: what spans Git and the authorization.

  \<^bold>\<open>Interfaces.\<close> The locales \<open>response_writer\<close>, \<open>plain_writer\<close> and \<open>reliable_writer\<close> are the contract of a response writer, from weak to
  strong: a response is started once and only grows; a writer adds nothing of its own; a connection that works takes every byte. They are interpreted for the
  connection itself and, by sublocales, for the wrappers over any writer that keeps them, so what is proved of a handler on such a writer
  (\<open>io_Copy_all\<close>, \<open>WriteTo_all\<close>, \<open>all_delivered\<close>) holds behind the wrappers too. \<open>hijacking_writer\<close> is the contract of a
  replacing wrapper, \<open>slot_protocol\<close> that of a channel used as a pool of slots, interpreted for both channels of the queue, and \<open>working_store\<close> that of
  an object store for multipart uploads, interpreted for the stub.

  \<^bold>\<open>Termination and bounds.\<close> Loops are functions proved to end; none has fuel, but for the parameters of a media type
  (\<open>media_params_ok\<close>), where the length of the input bounds their number and more changes nothing (\<open>media_params_enough\<close>). The
  scanner over packet lines ends because each token takes at least four bytes, the scrubbing because each match does, the directories of a zip entry because
  \<open>path.Dir\<close> shortens. Loops that run for ever in the program (the notification loop, the checks of a terminal) are step
  relations, or functions of what they have received so far.

  \<^bold>\<open>Not modelled.\<close> The Prometheus library with its registry and histograms, of which only the wiring is here; the hijacking of connections, which hands them
  over unchanged; the settings of \<open>http.Transport\<close> other than the address and the header timeout, which are values passed to the library;
  the parsing of flags and of TOML, the JSON and text formats of \<open>logrus\<close>, the reopening of log files, and dialling of gRPC and TLS are calls into libraries or the operating
  system. \<open>%q\<close> is exact on ASCII text; it needs the Unicode tables of Go otherwise. \<open>internal/testhelper\<close> and \<open>src/_support\<close> hold canned answers and
  assertions for the tests. Vendored code is a parameter, but for the few functions
  of \<open>gorilla/websocket\<close> and \<open>gitaly/streamio\<close> whose behaviour the handlers depend on.
\<close>

section \<open>Git and the authorization\<close>

text \<open>C13. No Git operation without the backend's consent. The answer to \<open>info/refs\<close>, \<open>git-upload-pack\<close> and \<open>git-receive-pack\<close>
  depends on Gitaly, on Git processes, on the disk and on everything else in their environment only if the backend has answered the authorization
  request of this very client request with status 200, the internal content type and a body that decodes.\<close>

theorem git_requires_authorization:
  "(\<exists>q resp a'. newRequest jwt a r None [] = Inr q \<and> roundTrip q = Inr resp \<and>
      rsp_StatusCode resp = 200 \<and> validResponseContentType resp \<and> decode (rsp_Body resp) = Inr a') \<or>
   (\<forall>env env'.
      GetInfoRefsHandler (PreAuthorizeHandler jwt roundTrip decode a (metered w)) env w r x =
        GetInfoRefsHandler (PreAuthorizeHandler jwt roundTrip decode a (metered w)) env' w r x \<and>
      UploadPack (PreAuthorizeHandler jwt roundTrip decode a (metered w)) env w r x =
        UploadPack (PreAuthorizeHandler jwt roundTrip decode a (metered w)) env' w r x \<and>
      ReceivePack (PreAuthorizeHandler jwt roundTrip decode a (metered w)) env w r x =
        ReceivePack (PreAuthorizeHandler jwt roundTrip decode a (metered w)) env' w r x)"
proof -
  obtain s m where x: "x = (s, m)" by (cases x)
  from preauthorize_cases [of jwt a r "[]" roundTrip decode "metered w" s m] show ?thesis
    unfolding GetInfoRefsHandler_def UploadPack_def ReceivePack_def repoPreAuthorizeHandler_def x by blast
qed

end
